(* ===== verification/Prelude.thy ===== *)
theory Prelude
  imports Main "HOL-Library.Word"
begin

unbundle bit_operations_syntax

text \<open>
  The vocabulary the component theories share.

  \<^item> Go's machine integers are words of their width (\<open>u8\<close> \dots \<open>u64\<close>), so \<open>+\<close> wraps as
    in Go. A \<^verbatim>\<open>[]byte\<close>, a \<^verbatim>\<open>string\<close> and a fixed array \<^verbatim>\<open>[N]byte\<close> are byte lists; where the
    Go type fixes the length, a well-formedness predicate of the component says so.
    A slice length (a non-negative \<^verbatim>\<open>int\<close>) is a \<open>nat\<close>.
  \<^item> An error return is the left summand of \<open>dg_error + 'a\<close>. Every error variable of the
    package is a constructor of \<open>dg_error\<close>; \<^verbatim>\<open>fmt.Errorf("%w: ...", sentinel)\<close> is the
    sentinel it wraps (what \<^verbatim>\<open>errors.Is\<close> sees). A run-time panic (an index or a slice
    bound out of range) is the error \<open>Panic\<close>, so that its absence can be proved.
  \<^item> \<open>le_put\<close> and \<open>le_get\<close> are \<^verbatim>\<open>encoding/binary\<close>'s little-endian writers and readers,
    \<open>copy_at\<close> is Go's \<^verbatim>\<open>copy(buf[off:], src)\<close>.
  \<^item> The locales at the end are the codec contracts that the wire formats implement
    and the invariant rule that the state machines use.
\<close>

section \<open>Types\<close>

type_synonym byte = "8 word"
type_synonym u8 = "8 word"
type_synonym u16 = "16 word"
type_synonym u32 = "32 word"
type_synonym u64 = "64 word"
type_synonym bytes = "byte list"

text \<open>Instants and durations (\<^verbatim>\<open>time.Time\<close>, \<^verbatim>\<open>time.Duration\<close>) in nanoseconds.\<close>

type_synonym time = int

text \<open>The error variables, one datatype per source file group; the abbreviations carry the
  names the source gives them.\<close>

datatype frame_error = HeaderTooShort | InvalidMagic | UnsupportedVersion | ReservedFlags
  | PaddingFlag | FrameTooLarge | FrameTooShort | FrameLengthMismatch | PayloadTooLarge
  | TagLength | PaddingLength
datatype tlv_error = TLVTooShort | TLVTruncated | TLVValueTooLarge | TLVDecodeLimit
  | TLVSequenceLimit | TLVElementLimit
datatype message_error = MessageTooShort | MessageLength | MessageReserved
  | InvalidNoisePattern | HandshakeAlignment | UnexpectedNoiseData | InvalidPingResponse
  | AckCount | InvalidUTF8 | ReasonTooLong | UnknownMessageTLV | DuplicateMessageTLV
  | InvalidCloseCode | ResumptionTicketInvalid
datatype replay_error = ReplayZero | ReplayDuplicate | ReplayTooOld | ReplayStale
datatype crypto_error = InvalidKeySize | UnsupportedCipher | UnencryptedType
  | InvalidSequence | InvalidSessionID | Authentication | InvalidEpoch | EpochExhausted
  | KeyConfirmFailed
datatype session_error = SessionClosed | WrongSession | SequenceExhausted
  | MessageTypeMismatch | RekeyPending
datatype peer_error = Handshake | InvalidStaticKey | ServerClosed | HandshakeFailed
  | ClientNotPermitted | InvalidClientConfig
datatype runtime_error = TransportFrameTooShort | TransportFrameTooLarge | TransportClosed
  | ConnectionClosed | IdleTimeout | KeepaliveTimeout | OutboundQueueFull | HandlerQueueFull
  | HandlerPanic
datatype io_error = EndOfFile | UnexpectedEOF | ShortWrite | NetClosed | Canceled
  | DeadlineExceeded

datatype dg_error =
  Panic
| FrameErr frame_error
| TLVErr tlv_error
| MessageErr message_error
| ReplayErr replay_error
| CryptoErr crypto_error
| SessionErr session_error
| PeerErr peer_error
| RuntimeErr runtime_error
| IOErr io_error
| ErrText string \<comment> \<open>an unnamed \<^verbatim>\<open>errors.New\<close> value, by its text\<close>
| ErrExternal nat \<comment> \<open>any other error of the environment (a socket, a handler)\<close>

text \<open>header.go and frame.go.\<close>

abbreviation ErrHeaderTooShort :: dg_error where "ErrHeaderTooShort \<equiv> FrameErr HeaderTooShort"
abbreviation ErrInvalidMagic :: dg_error where "ErrInvalidMagic \<equiv> FrameErr InvalidMagic"
abbreviation ErrUnsupportedVersion :: dg_error where "ErrUnsupportedVersion \<equiv> FrameErr UnsupportedVersion"
abbreviation ErrReservedFlags :: dg_error where "ErrReservedFlags \<equiv> FrameErr ReservedFlags"
abbreviation ErrPaddingFlag :: dg_error where "ErrPaddingFlag \<equiv> FrameErr PaddingFlag"
abbreviation ErrFrameTooLarge :: dg_error where "ErrFrameTooLarge \<equiv> FrameErr FrameTooLarge"
abbreviation ErrFrameTooShort :: dg_error where "ErrFrameTooShort \<equiv> FrameErr FrameTooShort"
abbreviation ErrFrameLengthMismatch :: dg_error where "ErrFrameLengthMismatch \<equiv> FrameErr FrameLengthMismatch"
abbreviation ErrPayloadTooLarge :: dg_error where "ErrPayloadTooLarge \<equiv> FrameErr PayloadTooLarge"
abbreviation ErrTagLength :: dg_error where "ErrTagLength \<equiv> FrameErr TagLength"
abbreviation ErrPaddingLength :: dg_error where "ErrPaddingLength \<equiv> FrameErr PaddingLength"

text \<open>tlv.go.\<close>

abbreviation ErrTLVTooShort :: dg_error where "ErrTLVTooShort \<equiv> TLVErr TLVTooShort"
abbreviation ErrTLVTruncated :: dg_error where "ErrTLVTruncated \<equiv> TLVErr TLVTruncated"
abbreviation ErrTLVValueTooLarge :: dg_error where "ErrTLVValueTooLarge \<equiv> TLVErr TLVValueTooLarge"
abbreviation ErrTLVDecodeLimit :: dg_error where "ErrTLVDecodeLimit \<equiv> TLVErr TLVDecodeLimit"
abbreviation ErrTLVSequenceLimit :: dg_error where "ErrTLVSequenceLimit \<equiv> TLVErr TLVSequenceLimit"
abbreviation ErrTLVElementLimit :: dg_error where "ErrTLVElementLimit \<equiv> TLVErr TLVElementLimit"

text \<open>messages.go.\<close>

abbreviation ErrMessageTooShort :: dg_error where "ErrMessageTooShort \<equiv> MessageErr MessageTooShort"
abbreviation ErrMessageLength :: dg_error where "ErrMessageLength \<equiv> MessageErr MessageLength"
abbreviation ErrMessageReserved :: dg_error where "ErrMessageReserved \<equiv> MessageErr MessageReserved"
abbreviation ErrInvalidNoisePattern :: dg_error where "ErrInvalidNoisePattern \<equiv> MessageErr InvalidNoisePattern"
abbreviation ErrHandshakeAlignment :: dg_error where "ErrHandshakeAlignment \<equiv> MessageErr HandshakeAlignment"
abbreviation ErrUnexpectedNoiseData :: dg_error where "ErrUnexpectedNoiseData \<equiv> MessageErr UnexpectedNoiseData"
abbreviation ErrInvalidPingResponse :: dg_error where "ErrInvalidPingResponse \<equiv> MessageErr InvalidPingResponse"
abbreviation ErrAckCount :: dg_error where "ErrAckCount \<equiv> MessageErr AckCount"
abbreviation ErrInvalidUTF8 :: dg_error where "ErrInvalidUTF8 \<equiv> MessageErr InvalidUTF8"
abbreviation ErrReasonTooLong :: dg_error where "ErrReasonTooLong \<equiv> MessageErr ReasonTooLong"
abbreviation ErrUnknownMessageTLV :: dg_error where "ErrUnknownMessageTLV \<equiv> MessageErr UnknownMessageTLV"
abbreviation ErrDuplicateMessageTLV :: dg_error where "ErrDuplicateMessageTLV \<equiv> MessageErr DuplicateMessageTLV"
abbreviation ErrInvalidCloseCode :: dg_error where "ErrInvalidCloseCode \<equiv> MessageErr InvalidCloseCode"
abbreviation ErrResumptionTicket :: dg_error where "ErrResumptionTicket \<equiv> MessageErr ResumptionTicketInvalid"

text \<open>replay.go.\<close>

abbreviation ErrReplayZero :: dg_error where "ErrReplayZero \<equiv> ReplayErr ReplayZero"
abbreviation ErrReplayDuplicate :: dg_error where "ErrReplayDuplicate \<equiv> ReplayErr ReplayDuplicate"
abbreviation ErrReplayTooOld :: dg_error where "ErrReplayTooOld \<equiv> ReplayErr ReplayTooOld"
abbreviation ErrReplayStale :: dg_error where "ErrReplayStale \<equiv> ReplayErr ReplayStale"

text \<open>crypto.go and rekey.go.\<close>

abbreviation ErrInvalidKeySize :: dg_error where "ErrInvalidKeySize \<equiv> CryptoErr InvalidKeySize"
abbreviation ErrUnsupportedCipher :: dg_error where "ErrUnsupportedCipher \<equiv> CryptoErr UnsupportedCipher"
abbreviation ErrUnencryptedType :: dg_error where "ErrUnencryptedType \<equiv> CryptoErr UnencryptedType"
abbreviation ErrInvalidSequence :: dg_error where "ErrInvalidSequence \<equiv> CryptoErr InvalidSequence"
abbreviation ErrInvalidSessionID :: dg_error where "ErrInvalidSessionID \<equiv> CryptoErr InvalidSessionID"
abbreviation ErrAuthentication :: dg_error where "ErrAuthentication \<equiv> CryptoErr Authentication"
abbreviation ErrInvalidEpoch :: dg_error where "ErrInvalidEpoch \<equiv> CryptoErr InvalidEpoch"
abbreviation ErrEpochExhausted :: dg_error where "ErrEpochExhausted \<equiv> CryptoErr EpochExhausted"
abbreviation ErrKeyConfirmFailed :: dg_error where "ErrKeyConfirmFailed \<equiv> CryptoErr KeyConfirmFailed"

text \<open>session.go.\<close>

abbreviation ErrSessionClosed :: dg_error where "ErrSessionClosed \<equiv> SessionErr SessionClosed"
abbreviation ErrWrongSession :: dg_error where "ErrWrongSession \<equiv> SessionErr WrongSession"
abbreviation ErrSequenceExhausted :: dg_error where "ErrSequenceExhausted \<equiv> SessionErr SequenceExhausted"
abbreviation ErrMessageType :: dg_error where "ErrMessageType \<equiv> SessionErr MessageTypeMismatch"
abbreviation ErrRekeyPending :: dg_error where "ErrRekeyPending \<equiv> SessionErr RekeyPending"

text \<open>handshake.go, static_key.go, server.go and client_config.go.\<close>

abbreviation ErrHandshake :: dg_error where "ErrHandshake \<equiv> PeerErr Handshake"
abbreviation ErrInvalidStaticKey :: dg_error where "ErrInvalidStaticKey \<equiv> PeerErr InvalidStaticKey"
abbreviation ErrServerClosed :: dg_error where "ErrServerClosed \<equiv> PeerErr ServerClosed"
abbreviation ErrHandshakeFailed :: dg_error where "ErrHandshakeFailed \<equiv> PeerErr HandshakeFailed"
abbreviation ErrClientNotPermitted :: dg_error where "ErrClientNotPermitted \<equiv> PeerErr ClientNotPermitted"
abbreviation ErrInvalidClientConfig :: dg_error where "ErrInvalidClientConfig \<equiv> PeerErr InvalidClientConfig"

text \<open>transport.go and connection.go.\<close>

abbreviation ErrTransportFrameTooShort :: dg_error where "ErrTransportFrameTooShort \<equiv> RuntimeErr TransportFrameTooShort"
abbreviation ErrTransportFrameTooLarge :: dg_error where "ErrTransportFrameTooLarge \<equiv> RuntimeErr TransportFrameTooLarge"
abbreviation ErrTransportClosed :: dg_error where "ErrTransportClosed \<equiv> RuntimeErr TransportClosed"
abbreviation ErrConnectionClosed :: dg_error where "ErrConnectionClosed \<equiv> RuntimeErr ConnectionClosed"
abbreviation ErrIdleTimeout :: dg_error where "ErrIdleTimeout \<equiv> RuntimeErr IdleTimeout"
abbreviation ErrKeepaliveTimeout :: dg_error where "ErrKeepaliveTimeout \<equiv> RuntimeErr KeepaliveTimeout"
abbreviation ErrOutboundQueueFull :: dg_error where "ErrOutboundQueueFull \<equiv> RuntimeErr OutboundQueueFull"
abbreviation ErrHandlerQueueFull :: dg_error where "ErrHandlerQueueFull \<equiv> RuntimeErr HandlerQueueFull"
abbreviation ErrHandlerPanic :: dg_error where "ErrHandlerPanic \<equiv> RuntimeErr HandlerPanic"

text \<open>io, net and context.\<close>

abbreviation EOF :: dg_error where "EOF \<equiv> IOErr EndOfFile"
abbreviation ErrUnexpectedEOF :: dg_error where "ErrUnexpectedEOF \<equiv> IOErr UnexpectedEOF"
abbreviation ErrShortWrite :: dg_error where "ErrShortWrite \<equiv> IOErr ShortWrite"
abbreviation ErrNetClosed :: dg_error where "ErrNetClosed \<equiv> IOErr NetClosed"
abbreviation ErrCanceled :: dg_error where "ErrCanceled \<equiv> IOErr Canceled"
abbreviation ErrDeadlineExceeded :: dg_error where "ErrDeadlineExceeded \<equiv> IOErr DeadlineExceeded"

type_synonym 'a result = "dg_error + 'a"

named_theorems dg_defs \<open>the definitions of the operations under proof\<close>
named_theorems wf_defs \<open>the well-formedness predicates\<close>
named_theorems wire_lengths \<open>the lengths of the encodings\<close>

section \<open>Little-endian integers\<close>

definition le_put :: "nat \<Rightarrow> 'a::len word \<Rightarrow> bytes" where
  "le_put n v = map (\<lambda>i. ucast (drop_bit (8 * i) v)) [0..<n]"

fun le_get :: "bytes \<Rightarrow> 'a::len word" where
  "le_get [] = 0"
| "le_get (b # bs) = ucast b OR push_bit 8 (le_get bs)"

lemma length_le_put [simp, wire_lengths]: "length (le_put n v) = n"
  by (simp add: le_put_def)

lemma bit_le_get:
  "bit (le_get bs :: 'a::len word) k \<longleftrightarrow>
     k < LENGTH('a) \<and> k < 8 * length bs \<and> bit (bs ! (k div 8)) (k mod 8)"
proof (induction bs arbitrary: k)
  case (Cons b bs)
  show ?case
  proof (cases "k < 8")
    case True
    then show ?thesis by (auto simp: bit_simps)
  next
    case False
    then have "k div 8 = Suc ((k - 8) div 8)" and "k mod 8 = (k - 8) mod 8"
      by (simp_all add: div_if mod_if)
    with False show ?thesis
      using Cons.IH [of "k - 8"] by (auto simp: bit_simps dest: bit_imp_le_length)
  qed
qed simp

lemma bit_le_put:
  "i < n \<Longrightarrow> bit (le_put n (v :: 'a::len word) ! i) j \<longleftrightarrow> j < 8 \<and> bit v (8 * i + j)"
  by (auto simp: le_put_def bit_simps ac_simps)

lemma le_get_put: "LENGTH('a) \<le> 8 * n \<Longrightarrow> le_get (le_put n v) = (v :: 'a::len word)"
  by (rule bit_word_eqI) (auto simp: bit_le_get bit_le_put)

lemma le_put_get:
  "8 * length bs \<le> LENGTH('a) \<Longrightarrow> n = length bs \<Longrightarrow> le_put n (le_get bs :: 'a::len word) = bs"
  by (auto intro!: nth_equalityI bit_word_eqI simp: bit_le_put bit_le_get)

lemma le_get_put16 [simp]: "le_get (le_put 2 (v :: u16)) = v"
  and le_get_put32 [simp]: "le_get (le_put 4 (w :: u32)) = w"
  and le_get_put64 [simp]: "le_get (le_put 8 (x :: u64)) = x"
  by (simp_all add: le_get_put)

lemma le_put_get16: "length bs = 2 \<Longrightarrow> le_put 2 (le_get bs :: u16) = bs"
  and le_put_get32: "length bs = 4 \<Longrightarrow> le_put 4 (le_get bs :: u32) = bs"
  and le_put_get64: "length bs = 8 \<Longrightarrow> le_put 8 (le_get bs :: u64) = bs"
  by (simp_all add: le_put_get)

section \<open>Byte buffers\<close>

text \<open>\<^verbatim>\<open>copy(buf[off:], src)\<close>: as many bytes as both sides have room for; the length of
  the buffer does not change.\<close>

definition copy_at :: "bytes \<Rightarrow> nat \<Rightarrow> bytes \<Rightarrow> bytes" where
  "copy_at buf off src =
     take off buf @ take (length buf - off) src @ drop (off + length src) buf"

text \<open>A slice expression \<^verbatim>\<open>buf[lo:hi]\<close> with bounds in range.\<close>

definition slice :: "nat \<Rightarrow> nat \<Rightarrow> 'a list \<Rightarrow> 'a list" where
  "slice lo hi xs = take (hi - lo) (drop lo xs)"

lemma length_copy_at [simp, wire_lengths]: "length (copy_at buf off src) = length buf"
  by (auto simp: copy_at_def min_def)

lemma copy_at_Nil [simp]: "copy_at buf off [] = buf"
  by (simp add: copy_at_def)

lemma copy_at_append:
  "off = length xs \<Longrightarrow> length ys = length src \<Longrightarrow> copy_at (xs @ ys @ zs) off src = xs @ src @ zs"
  by (simp add: copy_at_def)

lemma copy_at_split:
  assumes "off + length src \<le> length buf"
  shows "copy_at buf off src = take off buf @ src @ drop (off + length src) buf"
  using assms by (simp add: copy_at_def)

lemma length_slice [simp, wire_lengths]:
  "length (slice lo hi xs) = min (hi - lo) (length xs - lo)"
  by (simp add: slice_def)

lemma slice_append_at:
  "lo = length xs \<Longrightarrow> hi = lo + length ys \<Longrightarrow> slice lo hi (xs @ ys @ zs) = ys"
  by (simp add: slice_def)

lemma slice_all [simp]: "slice 0 (length xs) xs = xs"
  by (simp add: slice_def)

lemma slice_join:
  assumes "a \<le> b" and "b \<le> c"
  shows "slice a b xs @ slice b c xs = slice a c xs"
proof -
  have "drop b xs = drop (b - a) (drop a xs)" and "c - a = (b - a) + (c - b)"
    using assms by simp_all
  then show ?thesis by (simp add: slice_def take_add)
qed

lemma slice_Cons:
  assumes "lo < hi" and "lo < length xs"
  shows "slice lo hi xs = xs ! lo # slice (Suc lo) hi xs"
proof -
  have "drop lo xs = xs ! lo # drop (Suc lo) xs"
    using assms(2) by (simp add: Cons_nth_drop_Suc)
  moreover have "hi - lo = Suc (hi - Suc lo)" using assms(1) by simp
  ultimately show ?thesis by (simp add: slice_def)
qed

lemma slice_same [simp]: "slice n n xs = []"
  by (simp add: slice_def)

lemma slice_0: "slice 0 n xs = take n xs"
  by (simp add: slice_def)

lemma replicate_split: "k \<le> n \<Longrightarrow> replicate n x = replicate k x @ replicate (n - k) x"
  by (metis le_add_diff_inverse replicate_add)

lemma unat_lt_256 [simp]: "unat (b :: byte) < 256"
  using unsigned_less [of b, where ?'a = nat] by simp

lemma unat_lt_65536 [simp]: "unat (v :: u16) < 65536"
  using unsigned_less [of v, where ?'a = nat] by simp

lemma unat_u32_bound: "unat (v :: u32) < 4294967296"
  using unsigned_less [of v, where ?'a = nat] by simp

lemma unat_ucast_u8_u64 [simp]: "unat (ucast (b :: u8) :: u64) = unat b"
  by (simp add: unsigned_ucast_eq take_bit_nat_eq_self less_trans [OF unat_lt_256])

lemma unat_ucast_u32_u64 [simp]: "unat (ucast (w :: u32) :: u64) = unat w"
  by (simp add: unsigned_ucast_eq take_bit_nat_eq_self less_trans [OF unat_u32_bound])

text \<open>The length of a list that fits a width survives the conversion to it.\<close>

lemma unat_of_nat_u8: "n < 256 \<Longrightarrow> unat (of_nat n :: u8) = n"
  and unat_of_nat_u16: "n < 65536 \<Longrightarrow> unat (of_nat n :: u16) = n"
  and unat_of_nat_u32: "n < 4294967296 \<Longrightarrow> unat (of_nat n :: u32) = n"
  by (simp_all add: unat_of_nat)

lemma word_successor:
  assumes "(w :: 'a::len word) \<noteq> - 1"
  shows "w + 1 \<noteq> 0 \<and> unat (w + 1) = unat w + 1"
proof -
  have "1 + w \<noteq> 0" using assms by (metis add_eq_0_iff)
  then show ?thesis using unatSuc [of w] by (simp add: add.commute)
qed

section \<open>Codec contracts\<close>

text \<open>
  What a client of an encoder relies on: decoding what was encoded gives the message
  back. A codec is canonical when its decoder accepts nothing else.
\<close>

locale wire_codec =
  fixes enc :: "'a \<Rightarrow> dg_error + bytes"
    and dec :: "bytes \<Rightarrow> dg_error + 'a"
    and wf :: "'a \<Rightarrow> bool"
  assumes dec_enc: "wf m \<Longrightarrow> enc m = Inr bs \<Longrightarrow> dec bs = Inr m"
begin

lemma enc_injective:
  assumes "wf m" and "wf m'" and "enc m = Inr bs" and "enc m' = Inr bs"
  shows "m = m'"
proof -
  from assms(1,3) have "dec bs = Inr m" by (rule dec_enc)
  moreover from assms(2,4) have "dec bs = Inr m'" by (rule dec_enc)
  ultimately show ?thesis by simp
qed

lemma rejected_never_encoded: "wf m \<Longrightarrow> dec bs = Inl e \<Longrightarrow> enc m \<noteq> Inr bs"
  using dec_enc [of m bs] by auto

end

locale canonical_codec = wire_codec +
  assumes enc_dec: "dec bs = Inr m \<Longrightarrow> wf m \<and> enc m = Inr bs"
begin

lemma accepts_iff: "dec bs = Inr m \<longleftrightarrow> wf m \<and> enc m = Inr bs"
  using dec_enc enc_dec by blast

lemma dec_injective: "dec bs = Inr m \<Longrightarrow> dec bs' = Inr m \<Longrightarrow> bs = bs'"
  by (simp add: accepts_iff)

end

section \<open>State machines\<close>

inductive reach :: "('s \<Rightarrow> bool) \<Rightarrow> ('s \<Rightarrow> 's \<Rightarrow> bool) \<Rightarrow> 's \<Rightarrow> bool"
  for start :: "'s \<Rightarrow> bool" and step :: "'s \<Rightarrow> 's \<Rightarrow> bool" where
  reach_start: "start s \<Longrightarrow> reach start step s"
| reach_step: "reach start step s \<Longrightarrow> step s t \<Longrightarrow> reach start step t"

text \<open>An invariant of a step relation holds in every reachable state.\<close>

locale invariant_machine =
  fixes start :: "'s \<Rightarrow> bool" and step :: "'s \<Rightarrow> 's \<Rightarrow> bool" and inv :: "'s \<Rightarrow> bool"
  assumes start_inv: "start s \<Longrightarrow> inv s"
    and step_inv: "inv s \<Longrightarrow> step s t \<Longrightarrow> inv t"
begin

lemma reach_inv: "reach start step s \<Longrightarrow> inv s"
  by (induction rule: reach.induct) (auto intro: start_inv step_inv)

end

end
