(* ===== verification/Wire.thy ===== *)
theory Wire
  imports Prelude
begin

text \<open>
  The primitive byte codecs of \<^verbatim>\<open>internal/wire\<close>: the 40-byte header (\<^verbatim>\<open>header.go\<close>) and the
  fixed control payloads (\<^verbatim>\<open>control.go\<close>). A writer takes the caller's buffer and returns
  it updated; the bounds check each function opens with is the \<open>Panic\<close> branch. For each
  pair the section shows the exact bytes written, that the suffix of the buffer is not
  touched, and that the reader inverts the writer.
\<close>

section \<open>The fixed header\<close>

definition wire_HeaderSize :: nat where [simp]: "wire_HeaderSize = 40"
definition wire_Version :: u8 where [simp]: "wire_Version = 1"
definition wire_AEADTagSize :: nat where [simp]: "wire_AEADTagSize = 16"
definition wire_MaxFrameSize :: nat where [simp]: "wire_MaxFrameSize = 65535"

record wire_header =
  w_Magic :: bytes
  w_Version :: u8
  w_Flags :: u8
  w_MessageType :: u8
  w_Reserved :: bytes
  w_SessionID :: bytes
  w_Sequence :: u64
  w_PayloadLength :: u32
  w_PadLength :: u8

definition PutHeader :: "bytes \<Rightarrow> wire_header \<Rightarrow> bytes result" where
  "PutHeader dst h =
     (if length dst < wire_HeaderSize then Inl Panic
      else
        (let dst = copy_at dst 0 (w_Magic h);
             dst = dst[4 := w_Version h];
             dst = dst[5 := w_Flags h];
             dst = dst[6 := w_MessageType h];
             dst = dst[7 := w_Reserved h ! 0];
             dst = copy_at dst 8 (w_SessionID h);
             dst = copy_at dst 24 (le_put 8 (w_Sequence h));
             dst = copy_at dst 32 (le_put 4 (w_PayloadLength h));
             dst = dst[36 := w_PadLength h]
         in Inr (copy_at dst 37 (drop 1 (w_Reserved h)))))"

definition ReadHeader :: "bytes \<Rightarrow> wire_header result" where
  "ReadHeader src =
     (if length src < wire_HeaderSize then Inl Panic
      else Inr \<lparr>w_Magic = slice 0 4 src, w_Version = src ! 4, w_Flags = src ! 5,
                w_MessageType = src ! 6,
                w_Reserved = [src ! 7, src ! 37, src ! 38, src ! 39],
                w_SessionID = slice 8 24 src,
                w_Sequence = le_get (slice 24 32 src),
                w_PayloadLength = le_get (slice 32 36 src),
                w_PadLength = src ! 36\<rparr>)"

text \<open>The lengths that the Go array types fix.\<close>

definition wf_wire_header :: "wire_header \<Rightarrow> bool" where
  [wf_defs]: "wf_wire_header h \<longleftrightarrow>
     length (w_Magic h) = 4 \<and> length (w_Reserved h) = 4 \<and> length (w_SessionID h) = 16"

text \<open>The layout of the header on the wire.\<close>

definition header_layout :: "wire_header \<Rightarrow> bytes" where
  "header_layout h =
     w_Magic h @ [w_Version h, w_Flags h, w_MessageType h, w_Reserved h ! 0] @ w_SessionID h @
     le_put 8 (w_Sequence h) @ le_put 4 (w_PayloadLength h) @ [w_PadLength h] @
     drop 1 (w_Reserved h)"

lemma length_header_layout [wire_lengths]: "wf_wire_header h \<Longrightarrow> length (header_layout h) = 40"
  by (simp add: header_layout_def wf_defs)

text \<open>
  Writes past the filled part of a buffer pass over it; a write at the front of what is
  left replaces it.
\<close>

lemma copy_at_0: "length src \<le> length b \<Longrightarrow> copy_at b 0 src = src @ drop (length src) b"
  by (simp add: copy_at_def)

lemma copy_at_pass: "length a \<le> off \<Longrightarrow> copy_at (a @ b) off src = a @ copy_at b (off - length a) src"
  by (simp add: copy_at_def add.commute)

lemma copy_at_pass_Cons: "0 < off \<Longrightarrow> copy_at (x # b) off src = x # copy_at b (off - 1) src"
  using copy_at_pass [of "[x]" off b src] by simp

lemma update_pass: "length a \<le> i \<Longrightarrow> (a @ b)[i := v] = a @ b[i - length a := v]"
  by (simp add: list_update_append)

lemma update_pass_Cons: "0 < i \<Longrightarrow> (x # b)[i := v] = x # b[i - 1 := v]"
  by (cases i) simp_all

lemma update_0: "k < length dst \<Longrightarrow> (drop k dst)[0 := v] = v # drop (Suc k) dst"
  by (metis Cons_nth_drop_Suc list_update_code(2))

lemmas fill_simps = copy_at_0 copy_at_pass copy_at_pass_Cons update_pass update_pass_Cons update_0

lemma PutHeader_layout:
  assumes "wf_wire_header h" and "40 \<le> length dst"
  shows "PutHeader dst h = Inr (header_layout h @ drop 40 dst)"
  using assms by (simp add: PutHeader_def header_layout_def wf_defs fill_simps)

lemma ReadHeader_layout:
  assumes "wf_wire_header h"
  shows "ReadHeader (header_layout h @ rest) = Inr h"
proof (cases h)
  case (fields m v f t r sid sq pl pd)
  with assms obtain a b c d where "r = [a, b, c, d]"
    by (auto simp: wf_defs numeral_eq_Suc length_Suc_conv)
  with assms fields show ?thesis
    by (simp add: ReadHeader_def header_layout_def wf_defs slice_def nth_append)
qed

lemma ReadHeader_inverts:
  assumes "ReadHeader src = Inr h"
  shows "wf_wire_header h \<and> header_layout h = take 40 src"
proof -
  from assms have len: "40 \<le> length src" by (simp add: ReadHeader_def split: if_splits)
  have four: "slice 4 8 src = [src ! 4, src ! 5, src ! 6, src ! 7]"
    and tail: "slice 36 40 src = [src ! 36, src ! 37, src ! 38, src ! 39]"
    using len by (simp_all add: slice_Cons)
  have "take 40 src = slice 0 4 src @ slice 4 8 src @ slice 8 24 src @ slice 24 32 src @
      slice 32 36 src @ slice 36 40 src"
    by (simp add: slice_join flip: slice_0)
  with assms len show ?thesis
    by (auto simp: ReadHeader_def wf_defs header_layout_def le_put_get32 le_put_get64 four tail)
qed

section \<open>Control payloads\<close>

definition wire_PingPongSize :: nat where [simp]: "wire_PingPongSize = 9"
definition wire_RekeyInitSize :: nat where [simp]: "wire_RekeyInitSize = 36"
definition wire_MaxAckSequences :: nat where [simp]: "wire_MaxAckSequences = 255"

definition PutPingPong :: "bytes \<Rightarrow> bool \<Rightarrow> u64 \<Rightarrow> bytes result" where
  "PutPingPong dst response nonce =
     (if length dst < wire_PingPongSize then Inl Panic
      else
        (let dst = dst[0 := 0];
             dst = (if response then dst[0 := 1] else dst)
         in Inr (copy_at dst 1 (le_put 8 nonce))))"

definition ReadPingPong :: "bytes \<Rightarrow> (bool \<times> u64) result" where
  "ReadPingPong src =
     (if length src < wire_PingPongSize then Inl Panic
      else Inr (src ! 0 = 1, le_get (slice 1 9 src)))"

definition AckSize :: "nat \<Rightarrow> nat" where
  "AckSize count = 1 + 8 * count"

fun put_ack_loop :: "bytes \<Rightarrow> nat \<Rightarrow> u64 list \<Rightarrow> bytes" where
  "put_ack_loop dst i [] = dst"
| "put_ack_loop dst i (sequence # sequences) =
     put_ack_loop (copy_at dst (1 + 8 * i) (le_put 8 sequence)) (Suc i) sequences"

definition PutAck :: "bytes \<Rightarrow> u64 list \<Rightarrow> bytes result" where
  "PutAck dst sequences =
     (if length dst < AckSize (length sequences) then Inl Panic
      else Inr (put_ack_loop (dst[0 := of_nat (length sequences)]) 0 sequences))"

text \<open>\<^verbatim>\<open>ReadAck\<close> fills a caller's slice; the model takes its length and returns the entries.\<close>

definition ReadAck :: "bytes \<Rightarrow> nat \<Rightarrow> u64 list result" where
  "ReadAck src count =
     (if length src < AckSize count then Inl Panic
      else Inr (map (\<lambda>i. le_get (slice (1 + 8 * i) (9 + 8 * i) src)) [0..<count]))"

definition PutRekeyInit :: "bytes \<Rightarrow> u32 \<Rightarrow> bytes \<Rightarrow> bytes result" where
  "PutRekeyInit dst epoch confirm =
     (if length dst < wire_RekeyInitSize then Inl Panic
      else Inr (copy_at (copy_at dst 0 (le_put 4 epoch)) 4 confirm))"

definition ReadRekeyInit :: "bytes \<Rightarrow> (u32 \<times> bytes) result" where
  "ReadRekeyInit src =
     (if length src < wire_RekeyInitSize then Inl Panic
      else Inr (le_get (slice 0 4 src), slice 4 wire_RekeyInitSize src))"

definition PutTicket :: "bytes \<Rightarrow> bytes \<Rightarrow> u64 \<Rightarrow> bytes result" where
  "PutTicket dst ticket validUntil =
     (if length dst < length ticket + 8 then Inl Panic
      else Inr (copy_at (copy_at dst 0 ticket) (length ticket) (le_put 8 validUntil)))"

definition ReadTicket :: "bytes \<Rightarrow> (bytes \<times> u64) result" where
  "ReadTicket src =
     (if length src < 9 then Inl Panic
      else (let end = length src - 8
            in Inr (slice 0 end src, le_get (slice end (length src) src))))"

lemma PutPingPong_layout:
  assumes "9 \<le> length dst"
  shows "PutPingPong dst response nonce =
    Inr ((if response then 1 else 0) # le_put 8 nonce @ drop 9 dst)"
  using assms by (cases dst) (simp_all add: PutPingPong_def fill_simps)

lemma ReadPingPong_layout:
  "ReadPingPong ((if response then 1 else 0) # le_put 8 nonce @ rest) = Inr (response, nonce)"
  by (simp add: ReadPingPong_def slice_def)

lemma put_ack_loop_layout:
  "length p = 1 + 8 * i \<Longrightarrow> 8 * length sequences \<le> length buf \<Longrightarrow>
   put_ack_loop (p @ buf) i sequences =
     p @ concat (map (le_put 8) sequences) @ drop (8 * length sequences) buf"
proof (induction sequences arbitrary: p buf i)
  case (Cons s ss)
  then have "put_ack_loop ((p @ le_put 8 s) @ drop 8 buf) (Suc i) ss =
      (p @ le_put 8 s) @ concat (map (le_put 8) ss) @ drop (8 * length ss) (drop 8 buf)"
    by (intro Cons.IH) simp_all
  with Cons.prems show ?case by (simp add: fill_simps add.commute)
qed simp

lemma PutAck_layout:
  assumes "AckSize (length sequences) \<le> length dst"
  shows "PutAck dst sequences =
    Inr (of_nat (length sequences) # concat (map (le_put 8) sequences) @
         drop (AckSize (length sequences)) dst)"
proof -
  have "dst[0 := v] = [v] @ drop 1 dst" for v
    using assms by (cases dst) (simp_all add: AckSize_def)
  with assms show ?thesis
    using put_ack_loop_layout [of "[of_nat (length sequences)]" 0 sequences "drop 1 dst"]
    by (simp add: PutAck_def AckSize_def)
qed

lemma length_concat_le_put [simp, wire_lengths]: "length (concat (map (le_put n) xs)) = n * length xs"
  by (induction xs) simp_all

lemma slice_concat_le_put:
  "i < length xs \<Longrightarrow> slice (n * i) (n * i + n) (concat (map (le_put n) xs) @ rest) = le_put n (xs ! i)"
proof (induction xs arbitrary: i)
  case (Cons x xs)
  then show ?case by (cases i) (simp_all add: slice_def)
qed simp

lemma slice_Cons_chunk: "slice (1 + 8 * i) (9 + 8 * i) (c # bs) = slice (8 * i) (8 * i + 8) bs"
  by (simp add: slice_def)

lemma ReadAck_layout:
  "ReadAck (c # concat (map (le_put 8) sequences) @ rest) (length sequences) = Inr sequences"
  by (auto simp: ReadAck_def AckSize_def slice_Cons_chunk [simplified] slice_concat_le_put
      intro!: nth_equalityI)

lemma le_put_chunks:
  assumes "length bs = 8 * n"
  shows "concat (map (\<lambda>i. le_put 8 (le_get (slice (8 * i) (8 * i + 8) bs) :: u64)) [0..<n]) = bs"
  using assms
proof (induction n arbitrary: bs)
  case (Suc n)
  then have take: "le_put 8 (le_get (take 8 bs) :: u64) = take 8 bs" by (simp add: le_put_get64)
  have shift: "slice (8 * Suc i) (8 * Suc i + 8) bs = slice (8 * i) (8 * i + 8) (drop 8 bs)" for i
    by (simp add: slice_def add.commute)
  from Suc have "concat (map (\<lambda>i. le_put 8 (le_get (slice (8 * i) (8 * i + 8) (drop 8 bs)) :: u64)) [0..<n]) = drop 8 bs"
    by simp
  with take show ?case
    by (simp add: upt_conv_Cons map_Suc_upt [symmetric] comp_def shift slice_0 del: upt_Suc mult_Suc_right)
qed simp

lemma PutRekeyInit_layout:
  "36 \<le> length dst \<Longrightarrow> length confirm = 32 \<Longrightarrow>
   PutRekeyInit dst epoch confirm = Inr (le_put 4 epoch @ confirm @ drop 36 dst)"
  by (simp add: PutRekeyInit_def fill_simps)

lemma ReadRekeyInit_layout:
  "length confirm = 32 \<Longrightarrow> ReadRekeyInit (le_put 4 epoch @ confirm @ rest) = Inr (epoch, confirm)"
  by (simp add: ReadRekeyInit_def slice_def)

lemma PutTicket_layout:
  "length ticket + 8 \<le> length dst \<Longrightarrow>
   PutTicket dst ticket validUntil = Inr (ticket @ le_put 8 validUntil @ drop (length ticket + 8) dst)"
  by (simp add: PutTicket_def fill_simps add.commute)

lemma ReadTicket_layout:
  "ticket \<noteq> [] \<Longrightarrow> ReadTicket (ticket @ le_put 8 validUntil) = Inr (ticket, validUntil)"
  by (cases ticket) (simp_all add: ReadTicket_def slice_def)

end
