(* ===== verification/Header.thy ===== *)
theory Header
  imports Wire
begin

text \<open>
  The DGProto v1 fixed header of \<^verbatim>\<open>header.go\<close>: the \<^verbatim>\<open>Header\<close> struct, its construction, its
  two validations (what a sender must emit, what a receiver accepts) and its binary form.
  A function that returns only an error is an \<open>option\<close>, \<open>None\<close> for \<^verbatim>\<open>nil\<close>. The pointer
  receiver of \<^verbatim>\<open>UnmarshalBinary\<close> is assigned on success only, so the model returns the
  decoded header or the error.
\<close>

section \<open>Constants and the header record\<close>

abbreviation HeaderSize :: nat where "HeaderSize \<equiv> wire_HeaderSize"
abbreviation AEADTagSize :: nat where "AEADTagSize \<equiv> wire_AEADTagSize"
abbreviation MaxFrameSize :: nat where "MaxFrameSize \<equiv> wire_MaxFrameSize"

definition Version :: u8 where [simp]: "Version = wire_Version"
definition Magic :: bytes where "Magic = [0x44, 0x47, 0x50, 0x31]"

definition FlagObfuscated :: u8 where [simp]: "FlagObfuscated = 1"
definition FlagPadding :: u8 where [simp]: "FlagPadding = 2"
definition FlagZeroRTT :: u8 where [simp]: "FlagZeroRTT = 4"
definition mvpSenderFlags :: u8 where [simp]: "mvpSenderFlags = FlagPadding"

definition MessageTypeHandshakeInit :: u8 where [simp]: "MessageTypeHandshakeInit = 1"
definition MessageTypeHandshakeResponse :: u8 where [simp]: "MessageTypeHandshakeResponse = 2"
definition MessageTypeEncryptedData :: u8 where [simp]: "MessageTypeEncryptedData = 3"
definition MessageTypePingPong :: u8 where [simp]: "MessageTypePingPong = 4"
definition MessageTypeSessionClose :: u8 where [simp]: "MessageTypeSessionClose = 5"
definition MessageTypeAck :: u8 where [simp]: "MessageTypeAck = 6"
definition MessageTypeResumptionTicket :: u8 where [simp]: "MessageTypeResumptionTicket = 7"
definition MessageTypeRekeyInit :: u8 where [simp]: "MessageTypeRekeyInit = 8"
definition MessageTypeError :: u8 where [simp]: "MessageTypeError = 9"

record header =
  h_Version :: u8
  h_Flags :: u8
  h_MessageType :: u8
  h_Reserved :: bytes
  h_SessionID :: bytes
  h_Sequence :: u64
  h_PayloadLength :: u32
  h_PadLength :: u8

definition wf_header :: "header \<Rightarrow> bool" where
  [wf_defs]: "wf_header h \<longleftrightarrow> length (h_Reserved h) = 4 \<and> length (h_SessionID h) = 16"

section \<open>Operations\<close>

definition NewHeader :: "u8 \<Rightarrow> bytes \<Rightarrow> u64 \<Rightarrow> u32 \<Rightarrow> u8 \<Rightarrow> header" where
  "NewHeader messageType sessionID sequence payloadLength padLength =
     (let flags = (0 :: u8);
          flags = (if padLength \<noteq> 0 then flags OR FlagPadding else flags)
      in \<lparr>h_Version = Version, h_Flags = flags, h_MessageType = messageType,
          h_Reserved = replicate 4 0, h_SessionID = sessionID, h_Sequence = sequence,
          h_PayloadLength = payloadLength, h_PadLength = padLength\<rparr>)"

definition hasAEADTag :: "header \<Rightarrow> bool" where
  "hasAEADTag h \<longleftrightarrow>
     h_MessageType h \<noteq> MessageTypeHandshakeInit \<and> h_MessageType h \<noteq> MessageTypeHandshakeResponse"

definition FrameSize :: "header \<Rightarrow> u64" where
  "FrameSize h =
     (let size = of_nat HeaderSize + ucast (h_PayloadLength h) + ucast (h_PadLength h)
      in if hasAEADTag h then size + of_nat AEADTagSize else size)"

definition validateCommon :: "header \<Rightarrow> dg_error option" where
  "validateCommon h =
     (if h_Version h \<noteq> Version then Some ErrUnsupportedVersion
      else if (h_Flags h AND FlagPadding \<noteq> 0) \<noteq> (h_PadLength h \<noteq> 0) then Some ErrPaddingFlag
      else if FrameSize h > of_nat MaxFrameSize then Some ErrFrameTooLarge
      else None)"

definition Header_Validate :: "header \<Rightarrow> dg_error option" where
  "Header_Validate h =
     (case validateCommon h of
        Some err \<Rightarrow> Some err
      | None \<Rightarrow>
          if h_Flags h AND NOT mvpSenderFlags \<noteq> 0 then Some ErrReservedFlags
          else if h_Reserved h \<noteq> replicate 4 0 then Some ErrReservedFlags
          else None)"

definition Header_ValidateReceive :: "header \<Rightarrow> dg_error option" where
  "Header_ValidateReceive h = validateCommon h"

definition marshalBinary :: "header \<Rightarrow> bool \<Rightarrow> bytes result" where
  "marshalBinary h validateSend =
     (case (if validateSend then Header_Validate h else Header_ValidateReceive h) of
        Some err \<Rightarrow> Inl err
      | None \<Rightarrow>
          PutHeader (replicate HeaderSize 0)
            \<lparr>w_Magic = Magic, w_Version = h_Version h, w_Flags = h_Flags h,
             w_MessageType = h_MessageType h, w_Reserved = h_Reserved h,
             w_SessionID = h_SessionID h, w_Sequence = h_Sequence h,
             w_PayloadLength = h_PayloadLength h, w_PadLength = h_PadLength h\<rparr>)"

definition Header_MarshalBinary :: "header \<Rightarrow> bytes result" where
  "Header_MarshalBinary h = marshalBinary h True"

definition Header_UnmarshalBinary :: "bytes \<Rightarrow> header result" where
  "Header_UnmarshalBinary data =
     (if length data < HeaderSize then Inl ErrHeaderTooShort
      else if slice 0 4 data \<noteq> Magic then Inl ErrInvalidMagic
      else if data ! 4 \<noteq> Version then Inl ErrUnsupportedVersion
      else case ReadHeader data of
        Inl e \<Rightarrow> Inl e
      | Inr raw \<Rightarrow>
          (let decoded = \<lparr>h_Version = w_Version raw, h_Flags = w_Flags raw,
                 h_MessageType = w_MessageType raw, h_Reserved = w_Reserved raw,
                 h_SessionID = w_SessionID raw, h_Sequence = w_Sequence raw,
                 h_PayloadLength = w_PayloadLength raw, h_PadLength = w_PadLength raw\<rparr>
           in case Header_ValidateReceive decoded of Some err \<Rightarrow> Inl err | None \<Rightarrow> Inr decoded))"

section \<open>Sizes\<close>

text \<open>The frame size of the wire, as a number: no 64-bit wrap-around is possible.\<close>

definition frame_size :: "header \<Rightarrow> nat" where
  "frame_size h =
     40 + unat (h_PayloadLength h) + unat (h_PadLength h) + (if hasAEADTag h then 16 else 0)"

lemma unat_FrameSize: "unat (FrameSize h) = frame_size h"
proof -
  have pl: "unat (h_PayloadLength h) < 4294967296" and pd: "unat (h_PadLength h) < 256"
    by (rule unat_u32_bound) simp
  have "FrameSize h = of_nat (frame_size h)"
    by (simp add: FrameSize_def frame_size_def algebra_simps)
  moreover have "frame_size h < 2 ^ 64"
    using pl pd by (simp add: frame_size_def del: unat_lt_256)
  ultimately show ?thesis
    by (simp add: unat_of_nat)
qed

lemma FrameSize_too_large [simp]: "FrameSize h > 65535 \<longleftrightarrow> 65535 < frame_size h"
  using unat_FrameSize [of h] by (simp add: word_less_nat_alt)

lemma validateCommon_None:
  "validateCommon h = None \<longleftrightarrow>
     h_Version h = 1 \<and> (h_Flags h AND 2 \<noteq> 0 \<longleftrightarrow> h_PadLength h \<noteq> 0) \<and> frame_size h \<le> 65535"
  by (auto simp: validateCommon_def not_less)

lemma Header_Validate_None:
  "Header_Validate h = None \<longleftrightarrow>
     validateCommon h = None \<and> h_Flags h AND NOT 2 = 0 \<and> h_Reserved h = replicate 4 0"
  by (auto simp: Header_Validate_def split: option.splits)

section \<open>Binary form\<close>

definition header_bytes :: "header \<Rightarrow> bytes" where
  "header_bytes h =
     Magic @ [h_Version h, h_Flags h, h_MessageType h, h_Reserved h ! 0] @ h_SessionID h @
     le_put 8 (h_Sequence h) @ le_put 4 (h_PayloadLength h) @ [h_PadLength h] @
     drop 1 (h_Reserved h)"

lemma length_Magic [simp]: "length Magic = 4"
  by (simp add: Magic_def)

lemma length_header_bytes [wire_lengths]: "wf_header h \<Longrightarrow> length (header_bytes h) = 40"
  by (simp add: header_bytes_def wf_defs)

lemma marshalBinary_eq:
  assumes "wf_header h"
  shows "marshalBinary h send =
    (case (if send then Header_Validate h else Header_ValidateReceive h) of
       Some err \<Rightarrow> Inl err | None \<Rightarrow> Inr (header_bytes h))"
  using assms
  by (auto simp: marshalBinary_def PutHeader_layout header_layout_def header_bytes_def wf_defs
      split: option.splits)

lemma Header_UnmarshalBinary_bytes:
  assumes "wf_header h" and "validateCommon h = None"
  shows "Header_UnmarshalBinary (header_bytes h @ rest) = Inr h"
proof -
  let ?raw = "\<lparr>w_Magic = Magic, w_Version = h_Version h, w_Flags = h_Flags h,
             w_MessageType = h_MessageType h, w_Reserved = h_Reserved h,
             w_SessionID = h_SessionID h, w_Sequence = h_Sequence h,
             w_PayloadLength = h_PayloadLength h, w_PadLength = h_PadLength h\<rparr>"
  have eq: "header_bytes h = header_layout ?raw"
    by (simp add: header_bytes_def header_layout_def)
  have raw: "ReadHeader (header_bytes h @ rest) = Inr ?raw"
    unfolding eq by (rule ReadHeader_layout) (use assms(1) in \<open>simp add: wf_defs\<close>)
  have pre: "slice 0 4 (header_bytes h @ rest) = Magic" "(header_bytes h @ rest) ! 4 = h_Version h"
    by (simp_all add: header_bytes_def slice_def nth_append)
  have "length (header_bytes h @ rest) \<ge> 40" using assms(1) by (simp add: wire_lengths)
  moreover have "h_Version h = 1" using assms(2) by (simp add: validateCommon_None)
  ultimately show ?thesis
    using raw pre assms(2) by (cases h) (simp add: Header_UnmarshalBinary_def Header_ValidateReceive_def)
qed

text \<open>What a successful decoding says of its input: the header is well formed, acceptable,
  and its encoding is exactly the forty bytes that were read.\<close>

lemma Header_UnmarshalBinary_Inr:
  assumes "Header_UnmarshalBinary data = Inr h"
  shows "wf_header h" and "validateCommon h = None" and "header_bytes h = take 40 data"
    and "40 \<le> length data"
proof -
  from assms obtain raw where raw: "ReadHeader data = Inr raw" and magic: "slice 0 4 data = Magic"
    and len: "40 \<le> length data" and valid: "validateCommon h = None"
    and h: "h = \<lparr>h_Version = w_Version raw, h_Flags = w_Flags raw,
                 h_MessageType = w_MessageType raw, h_Reserved = w_Reserved raw,
                 h_SessionID = w_SessionID raw, h_Sequence = w_Sequence raw,
                 h_PayloadLength = w_PayloadLength raw, h_PadLength = w_PadLength raw\<rparr>"
    by (auto simp: Header_UnmarshalBinary_def Header_ValidateReceive_def Let_def not_less
        split: if_splits sum.splits option.splits)
  from ReadHeader_inverts [OF raw]
  have wf: "wf_wire_header raw" and lay: "header_layout raw = take 40 data" by auto
  from raw magic have "w_Magic raw = Magic" by (auto simp: ReadHeader_def split: if_splits)
  with lay h show "header_bytes h = take 40 data" by (simp add: header_bytes_def header_layout_def)
  from wf h show "wf_header h" by (simp add: wf_defs)
  show "validateCommon h = None" and "40 \<le> length data" by fact+
qed

lemma Header_Validate_common: "Header_Validate h = None \<Longrightarrow> validateCommon h = None"
  by (simp add: Header_Validate_None)

interpretation header_send: wire_codec Header_MarshalBinary Header_UnmarshalBinary wf_header
proof
  fix m bs assume "wf_header m" and "Header_MarshalBinary m = Inr bs"
  then show "Header_UnmarshalBinary bs = Inr m"
    using Header_UnmarshalBinary_bytes [of m "[]"]
    by (auto simp: Header_MarshalBinary_def marshalBinary_eq Header_Validate_common
        split: option.splits)
qed

interpretation header_receive:
  wire_codec "\<lambda>h. marshalBinary h False" Header_UnmarshalBinary wf_header
proof
  fix m bs assume "wf_header m" and "marshalBinary m False = Inr bs"
  then show "Header_UnmarshalBinary bs = Inr m"
    using Header_UnmarshalBinary_bytes [of m "[]"]
    by (auto simp: marshalBinary_eq Header_ValidateReceive_def split: option.splits)
qed

lemma wf_NewHeader [simp]: "length sessionID = 16 \<Longrightarrow> wf_header (NewHeader mt sessionID sq pl pad)"
  by (simp add: NewHeader_def wf_defs)

lemma NewHeader_fields [simp]:
  "h_MessageType (NewHeader mt sid sq pl pad) = mt" "h_SessionID (NewHeader mt sid sq pl pad) = sid"
  "h_Sequence (NewHeader mt sid sq pl pad) = sq" "h_PayloadLength (NewHeader mt sid sq pl pad) = pl"
  "h_PadLength (NewHeader mt sid sq pl pad) = pad"
  by (simp_all add: NewHeader_def)

lemma NewHeader_Validate:
  "frame_size (NewHeader mt sid sq pl pad) \<le> 65535 \<Longrightarrow> Header_Validate (NewHeader mt sid sq pl pad) = None"
  by (auto simp: Header_Validate_None validateCommon_None NewHeader_def)

lemma hasAEADTag_NewHeader [simp]: "hasAEADTag (NewHeader mt sid sq pl pad) \<longleftrightarrow> mt \<noteq> 1 \<and> mt \<noteq> 2"
  by (simp add: hasAEADTag_def)

end
