(* ===== verification/Frame.thy ===== *)
theory Frame
  imports Header
begin

text \<open>
  Complete frames, \<^verbatim>\<open>frame.go\<close>: construction, validation and the wire order header,
  payload, optional AEAD tag, padding. The contents of the Go slices are copied by the
  code and are values here. The tag is a \<^verbatim>\<open>[16]byte\<close>; a frame without an outer tag
  (a handshake frame) has the zero array in that field.
\<close>

section \<open>The frame record and its operations\<close>

record frame =
  f_Header :: header
  f_Payload :: bytes
  f_Tag :: bytes
  f_Padding :: bytes

definition wf_frame :: "frame \<Rightarrow> bool" where
  [wf_defs]: "wf_frame f \<longleftrightarrow> wf_header (f_Header f) \<and> length (f_Tag f) = AEADTagSize"

fun allZero :: "bytes \<Rightarrow> bool" where
  "allZero [] = True"
| "allZero (value # data) = (if value \<noteq> 0 then False else allZero data)"

definition NewFrame :: "u8 \<Rightarrow> bytes \<Rightarrow> u64 \<Rightarrow> bytes \<Rightarrow> bytes \<Rightarrow> bytes \<Rightarrow> frame result" where
  "NewFrame messageType sessionID sequence payload tag padding =
     (if length padding > 255 then Inl ErrPaddingLength
      else if length payload > 4294967295 then Inl ErrPayloadTooLarge
      else
        (let header = NewHeader messageType sessionID sequence (of_nat (length payload))
                        (of_nat (length padding))
         in if hasAEADTag header \<and> length tag \<noteq> AEADTagSize then Inl ErrTagLength
            else if \<not> hasAEADTag header \<and> length tag \<noteq> 0 \<and>
                    (length tag \<noteq> AEADTagSize \<or> \<not> allZero tag) then Inl ErrTagLength
            else if FrameSize header > of_nat MaxFrameSize then Inl ErrPayloadTooLarge
            else Inr \<lparr>f_Header = header, f_Payload = payload,
                      f_Tag = (if hasAEADTag header then copy_at (replicate AEADTagSize 0) 0 tag
                               else replicate AEADTagSize 0),
                      f_Padding = padding\<rparr>))"

definition validateLengths :: "frame \<Rightarrow> dg_error option" where
  "validateLengths f =
     (if length (f_Payload f) \<noteq> unat (h_PayloadLength (f_Header f)) then Some ErrFrameLengthMismatch
      else if length (f_Padding f) \<noteq> unat (h_PadLength (f_Header f)) then Some ErrFrameLengthMismatch
      else None)"

definition Frame_Validate :: "frame \<Rightarrow> dg_error option" where
  "Frame_Validate f =
     (case Header_Validate (f_Header f) of Some err \<Rightarrow> Some err | None \<Rightarrow> validateLengths f)"

definition Frame_ValidateReceive :: "frame \<Rightarrow> dg_error option" where
  "Frame_ValidateReceive f =
     (case Header_ValidateReceive (f_Header f) of Some err \<Rightarrow> Some err | None \<Rightarrow> validateLengths f)"

definition Frame_MarshalBinary :: "frame \<Rightarrow> bytes result" where
  "Frame_MarshalBinary f =
     (case Frame_Validate f of
        Some err \<Rightarrow> Inl err
      | None \<Rightarrow>
          (case Header_MarshalBinary (f_Header f) of
             Inl err \<Rightarrow> Inl err
           | Inr header \<Rightarrow>
               (let buf = [] @ header;
                    buf = buf @ f_Payload f;
                    buf = (if hasAEADTag (f_Header f) then buf @ f_Tag f else buf)
                in Inr (buf @ f_Padding f))))"

definition Frame_UnmarshalBinary :: "bytes \<Rightarrow> frame result" where
  "Frame_UnmarshalBinary data =
     (if length data < HeaderSize then Inl ErrFrameTooShort
      else case Header_UnmarshalBinary (slice 0 HeaderSize data) of
        Inl err \<Rightarrow> Inl err
      | Inr header \<Rightarrow>
          (let want = FrameSize header
           in if length data \<noteq> unat want then Inl ErrFrameLengthMismatch
              else
                (let payloadEnd = HeaderSize + unat (h_PayloadLength header);
                     tagEnd = (if hasAEADTag header then payloadEnd + AEADTagSize else payloadEnd)
                 in if tagEnd > length data then Inl Panic
                    else Inr \<lparr>f_Header = header, f_Payload = slice HeaderSize payloadEnd data,
                              f_Tag = (if hasAEADTag header
                                       then copy_at (replicate AEADTagSize 0) 0 (slice payloadEnd tagEnd data)
                                       else replicate AEADTagSize 0),
                              f_Padding = drop tagEnd data\<rparr>)))"

section \<open>Frame lengths\<close>

definition frame_body :: "frame \<Rightarrow> bytes" where
  "frame_body f =
     f_Payload f @ (if hasAEADTag (f_Header f) then f_Tag f else []) @ f_Padding f"

lemma validateLengths_None:
  "validateLengths f = None \<longleftrightarrow>
     length (f_Payload f) = unat (h_PayloadLength (f_Header f)) \<and>
     length (f_Padding f) = unat (h_PadLength (f_Header f))"
  by (simp add: validateLengths_def)

lemma length_frame_body [wire_lengths]:
  "wf_frame f \<Longrightarrow> validateLengths f = None \<Longrightarrow> 40 + length (frame_body f) = frame_size (f_Header f)"
  by (simp add: frame_body_def frame_size_def validateLengths_None wf_defs)

lemma Frame_Validate_None:
  "Frame_Validate f = None \<longleftrightarrow> Header_Validate (f_Header f) = None \<and> validateLengths f = None"
  by (auto simp: Frame_Validate_def split: option.splits)

lemma Frame_ValidateReceive_None:
  "Frame_ValidateReceive f = None \<longleftrightarrow> validateCommon (f_Header f) = None \<and> validateLengths f = None"
  by (auto simp: Frame_ValidateReceive_def Header_ValidateReceive_def split: option.splits)

lemma Frame_MarshalBinary_eq:
  assumes "wf_frame f"
  shows "Frame_MarshalBinary f =
    (case Frame_Validate f of
       Some err \<Rightarrow> Inl err | None \<Rightarrow> Inr (header_bytes (f_Header f) @ frame_body f))"
proof -
  have wf: "wf_header (f_Header f)" using assms by (simp add: wf_defs)
  show ?thesis
  proof (cases "Frame_Validate f")
    case None
    then have "Header_Validate (f_Header f) = None" by (simp add: Frame_Validate_None)
    with None wf show ?thesis
      by (simp add: Frame_MarshalBinary_def Header_MarshalBinary_def marshalBinary_eq frame_body_def)
  qed (simp add: Frame_MarshalBinary_def)
qed

lemma allZero_iff: "allZero data \<longleftrightarrow> data = replicate (length data) 0"
  by (induction data) auto

section \<open>Wire form\<close>

text \<open>A handshake frame's tag is not transmitted; what the receiver gets has the zero tag.\<close>

definition received_frame :: "frame \<Rightarrow> frame" where
  "received_frame f =
     (if hasAEADTag (f_Header f) then f else f\<lparr>f_Tag := replicate AEADTagSize 0\<rparr>)"

lemma Frame_UnmarshalBinary_bytes:
  assumes wf: "wf_frame f" and valid: "Frame_ValidateReceive f = None"
  shows "Frame_UnmarshalBinary (header_bytes (f_Header f) @ frame_body f) = Inr (received_frame f)"
proof -
  let ?h = "f_Header f" and ?data = "header_bytes (f_Header f) @ frame_body f"
  have whead: "wf_header ?h" and tag: "length (f_Tag f) = 16" using wf by (simp_all add: wf_defs)
  have lens: "length (f_Payload f) = unat (h_PayloadLength ?h)"
      "length (f_Padding f) = unat (h_PadLength ?h)" and vc: "validateCommon ?h = None"
    using valid by (simp_all add: Frame_ValidateReceive_None validateLengths_None)
  have hb: "length (header_bytes ?h) = 40" using whead by (rule length_header_bytes)
  have size: "length ?data = unat (FrameSize ?h)"
    using length_frame_body [OF wf] valid hb by (simp add: unat_FrameSize Frame_ValidateReceive_None)
  have head: "Header_UnmarshalBinary (slice 0 40 ?data) = Inr ?h"
    using Header_UnmarshalBinary_bytes [OF whead vc, of "[]"] hb by (simp add: slice_def)
  show ?thesis
    using head size hb lens tag
    by (cases "hasAEADTag ?h"; cases f)
      (simp_all add: Frame_UnmarshalBinary_def Let_def frame_body_def slice_def copy_at_def
        received_frame_def)
qed

lemma Frame_UnmarshalBinary_Inr:
  assumes "Frame_UnmarshalBinary data = Inr f"
  shows "wf_frame f" and "Frame_ValidateReceive f = None" and "received_frame f = f"
    and "header_bytes (f_Header f) @ frame_body f = data"
proof -
  let ?h = "f_Header f"
  from assms have head: "Header_UnmarshalBinary (slice 0 40 data) = Inr ?h"
    and size: "length data = unat (FrameSize ?h)"
    and f: "f_Payload f = slice 40 (40 + unat (h_PayloadLength ?h)) data"
      "f_Tag f = (if hasAEADTag ?h
         then copy_at (replicate 16 0) 0
           (slice (40 + unat (h_PayloadLength ?h)) (40 + unat (h_PayloadLength ?h) + 16) data)
         else replicate 16 0)"
      "f_Padding f = drop (40 + unat (h_PayloadLength ?h) + (if hasAEADTag ?h then 16 else 0)) data"
    by (auto simp: Frame_UnmarshalBinary_def Let_def split: if_splits sum.splits)
  note hd = Header_UnmarshalBinary_Inr [OF head]
  have size': "length data = frame_size ?h" using size by (simp add: unat_FrameSize)
  show "wf_frame f" using hd(1) f(2) by (simp add: wf_defs)
  show "Frame_ValidateReceive f = None"
    using hd(2) size' f by (simp add: Frame_ValidateReceive_None validateLengths_None frame_size_def)
  show "received_frame f = f" using f(2) by (auto simp: received_frame_def intro!: frame.equality)
  have "slice 40 (length data) data = frame_body f"
    using size' f slice_join [of 40 "40 + unat (h_PayloadLength ?h)" "length data" data]
      slice_join [of "40 + unat (h_PayloadLength ?h)" "40 + unat (h_PayloadLength ?h) + 16" "length data" data]
    by (simp add: frame_body_def frame_size_def copy_at_def slice_def)
  moreover have "take 40 data @ slice 40 (length data) data = data"
    by (simp add: slice_def)
  ultimately show "header_bytes ?h @ frame_body f = data"
    using hd(3) by (simp add: slice_0)
qed

lemma Frame_Validate_receive: "Frame_Validate f = None \<Longrightarrow> Frame_ValidateReceive f = None"
  by (simp add: Frame_Validate_None Frame_ValidateReceive_None Header_Validate_None)

interpretation frame_codec:
  wire_codec Frame_MarshalBinary Frame_UnmarshalBinary "\<lambda>f. wf_frame f \<and> received_frame f = f"
proof
  fix m bs assume "wf_frame m \<and> received_frame m = m" and "Frame_MarshalBinary m = Inr bs"
  then show "Frame_UnmarshalBinary bs = Inr m"
    using Frame_UnmarshalBinary_bytes [of m] Frame_Validate_receive [of m]
    by (auto simp: Frame_MarshalBinary_eq split: option.splits)
qed

section \<open>Construction\<close>

lemma NewFrame_Inr:
  assumes "NewFrame mt sid sq payload tag padding = Inr f" and "length sid = 16"
  shows "wf_frame f" and "Frame_Validate f = None" and "received_frame f = f"
    and "f_Header f = NewHeader mt sid sq (of_nat (length payload)) (of_nat (length padding))"
    and "f_Payload f = payload" and "f_Padding f = padding"
    and "f_Tag f = (if mt = 1 \<or> mt = 2 then replicate 16 0 else tag)"
proof -
  let ?h = "NewHeader mt sid sq (of_nat (length payload)) (of_nat (length padding))"
  from assms(1) have le: "length padding \<le> 255" "length payload \<le> 4294967295"
      and size: "frame_size ?h \<le> 65535" and tag: "hasAEADTag ?h \<longrightarrow> length tag = 16"
    and f: "f = \<lparr>f_Header = ?h, f_Payload = payload,
                 f_Tag = (if hasAEADTag ?h then copy_at (replicate 16 0) 0 tag else replicate 16 0),
                 f_Padding = padding\<rparr>"
    by (auto simp: NewFrame_def Let_def not_less split: if_splits)
  have copy: "length tag = 16 \<Longrightarrow> copy_at (replicate 16 0) 0 tag = tag" by (simp add: copy_at_def)
  show "wf_frame f" using f assms(2) by (simp add: wf_frame_def)
  show "Frame_Validate f = None"
    using f le size NewHeader_Validate [OF size]
    by (simp add: Frame_Validate_None validateLengths_None unat_of_nat_u32 unat_of_nat_u8)
  show "received_frame f = f" using f by (simp add: received_frame_def)
  show "f_Header f = ?h" "f_Payload f = payload" "f_Padding f = padding" using f by simp_all
  show "f_Tag f = (if mt = 1 \<or> mt = 2 then replicate 16 0 else tag)" using f tag copy by auto
qed

end
