(* ===== verification/Tlv.thy ===== *)
theory Tlv
  imports Frame
begin

text \<open>
  The bounded TLV codec: \<^verbatim>\<open>internal/tlv/codec.go\<close> (the two decoding passes, the writer, the
  length checks) and \<^verbatim>\<open>tlv.go\<close> (the public operations over it).

  Go's \<^verbatim>\<open>Failure\<close> with \<^verbatim>\<open>Kind == OK\<close> means success; here success is the right summand and
  \<open>tlv_kind\<close> has the failing kinds. \<^verbatim>\<open>Failure.Wrap\<close> only formats the diagnostic around
  the sentinel, so \<open>tlvError\<close> gives the sentinel. The grammar \<open>tlv_seq\<close> says which bytes
  are a sequence of fields, with alignment bytes of any value; \<open>DecodeTLVs\<close> is shown to
  accept exactly the bounded members of that grammar, without ever reading out of range,
  and \<open>EncodeTLVs\<close> to produce the member with zero alignment bytes.
\<close>

section \<open>internal/tlv\<close>

definition tlv_HeaderSize :: nat where [simp]: "tlv_HeaderSize = 3"
definition tlv_MaxValueSize :: nat where [simp]: "tlv_MaxValueSize = 65535"
definition tlv_MaxSequenceSize :: nat where [simp]: "tlv_MaxSequenceSize = 65535"
definition tlv_MaxElements :: nat where [simp]: "tlv_MaxElements = 16383"

datatype tlv_kind =
  TooShort | TruncatedValue | TruncatedPadding | ValueTooLarge | DecodeLimit
| SequenceTooLarge | SequenceFull | TooManyElements | ElementsFull

record tlv_failure =
  Kind :: tlv_kind
  Offset :: int
  Got :: int
  Need :: int
  Limit :: int

definition failure :: "tlv_kind \<Rightarrow> tlv_failure" where
  "failure k = \<lparr>Kind = k, Offset = 0, Got = 0, Need = 0, Limit = 0\<rparr>"

definition Align4 :: "nat \<Rightarrow> nat" where
  "Align4 n = nat ((int n + 3) AND NOT 3)"

definition tlv_EncodedLen :: "nat \<Rightarrow> tlv_failure + nat" where
  "tlv_EncodedLen valueLen =
     (if valueLen > tlv_MaxValueSize then Inl ((failure ValueTooLarge)\<lparr>Got := int valueLen\<rparr>)
      else Inr (Align4 (tlv_HeaderSize + valueLen)))"

definition CheckCount :: "nat \<Rightarrow> tlv_failure option" where
  "CheckCount count =
     (if count > tlv_MaxElements
      then Some ((failure TooManyElements)\<lparr>Got := int count, Limit := int tlv_MaxElements\<rparr>)
      else None)"

definition AddLen :: "nat \<Rightarrow> nat \<Rightarrow> tlv_kind + nat" where
  "AddLen tot valueLen =
     (if valueLen > tlv_MaxValueSize then Inl ValueTooLarge
      else
        (let n = Align4 (tlv_HeaderSize + valueLen)
         in if int n > int tlv_MaxSequenceSize - int tot then Inl SequenceFull
            else Inr (tot + n)))"

function validate_loop :: "bytes \<Rightarrow> nat \<Rightarrow> nat \<Rightarrow> tlv_failure + nat" where
  "validate_loop data count offset =
     (if offset < length data then
        if count = tlv_MaxElements then Inl ((failure ElementsFull)\<lparr>Limit := int tlv_MaxElements\<rparr>)
        else
          (let remaining = length data - offset
           in if remaining < tlv_HeaderSize
              then Inl ((failure TooShort)\<lparr>Offset := int offset, Got := int remaining\<rparr>)
              else
                (let valueLen = unat (le_get (slice (offset + 1) (offset + tlv_HeaderSize) data) :: u16)
                 in if valueLen > remaining - tlv_HeaderSize
                    then Inl ((failure TruncatedValue)\<lparr>Offset := int offset, Need := int valueLen,
                                Got := int (remaining - tlv_HeaderSize)\<rparr>)
                    else
                      (let unpadded = tlv_HeaderSize + valueLen;
                           paddingLen = (4 - unpadded mod 4) mod 4
                       in if paddingLen > remaining - unpadded
                          then Inl ((failure TruncatedPadding)\<lparr>Offset := int offset,
                                      Need := int paddingLen, Got := int (remaining - unpadded)\<rparr>)
                          else validate_loop data (count + 1) (offset + (unpadded + paddingLen)))))
      else Inr count)"
  by pat_completeness auto
termination
  by (relation "measure (\<lambda>(data, count, offset). length data - offset)")
    (auto intro!: diff_less_mono2)

declare validate_loop.simps [simp del]

definition tlv_Validate :: "bytes \<Rightarrow> int \<Rightarrow> tlv_failure + nat" where
  "tlv_Validate data maxBytes =
     (if length data > tlv_MaxSequenceSize
      then Inl ((failure SequenceTooLarge)\<lparr>Got := int (length data), Limit := int tlv_MaxSequenceSize\<rparr>)
      else if maxBytes > 0 \<and> int (length data) > maxBytes
      then Inl ((failure DecodeLimit)\<lparr>Got := int (length data), Limit := maxBytes\<rparr>)
      else validate_loop data 0 0)"

definition tlv_Read :: "bytes \<Rightarrow> nat \<Rightarrow> (u8 \<times> bytes \<times> nat) result" where
  "tlv_Read data offset =
     (if offset + tlv_HeaderSize > length data then Inl Panic
      else
        (let valueLen = unat (le_get (slice (offset + 1) (offset + tlv_HeaderSize) data) :: u16);
             end = offset + tlv_HeaderSize + valueLen
         in if end > length data then Inl Panic
            else Inr (data ! offset, slice (offset + tlv_HeaderSize) end data,
                      offset + Align4 (tlv_HeaderSize + valueLen))))"

definition tlv_Write :: "bytes \<Rightarrow> nat \<Rightarrow> u8 \<Rightarrow> bytes \<Rightarrow> (bytes \<times> nat) result" where
  "tlv_Write data offset typ value =
     (if offset + tlv_HeaderSize > length data then Inl Panic
      else
        (let data = data[offset := typ];
             data = copy_at data (offset + 1) (le_put 2 (of_nat (length value) :: u16));
             data = copy_at data (offset + tlv_HeaderSize) value
         in Inr (data, offset + Align4 (tlv_HeaderSize + length value))))"

definition tlv_Marshal :: "u8 \<Rightarrow> bytes \<Rightarrow> (tlv_failure + bytes) result" where
  "tlv_Marshal typ value =
     (case tlv_EncodedLen (length value) of
        Inl f \<Rightarrow> Inr (Inl f)
      | Inr n \<Rightarrow>
          (case tlv_Write (replicate n 0) 0 typ value of
             Inl e \<Rightarrow> Inl e
           | Inr (data, next) \<Rightarrow> Inr (Inr data)))"

section \<open>tlv.go\<close>

record tlv =
  t_Type :: u8
  t_Value :: bytes

definition tlvError :: "tlv_failure \<Rightarrow> dg_error" where
  "tlvError f =
     (case Kind f of
        TooShort \<Rightarrow> ErrTLVTooShort
      | TruncatedValue \<Rightarrow> ErrTLVTruncated
      | TruncatedPadding \<Rightarrow> ErrTLVTruncated
      | ValueTooLarge \<Rightarrow> ErrTLVValueTooLarge
      | DecodeLimit \<Rightarrow> ErrTLVDecodeLimit
      | SequenceTooLarge \<Rightarrow> ErrTLVSequenceLimit
      | SequenceFull \<Rightarrow> ErrTLVSequenceLimit
      | TooManyElements \<Rightarrow> ErrTLVElementLimit
      | ElementsFull \<Rightarrow> ErrTLVElementLimit)"

definition NewTLV :: "u8 \<Rightarrow> bytes \<Rightarrow> tlv result" where
  "NewTLV typ value =
     (case tlv_EncodedLen (length value) of
        Inl f \<Rightarrow> Inl (tlvError f)
      | Inr n \<Rightarrow> Inr \<lparr>t_Type = typ, t_Value = value\<rparr>)"

definition TLV_EncodedLen :: "tlv \<Rightarrow> nat result" where
  "TLV_EncodedLen t =
     (case tlv_EncodedLen (length (t_Value t)) of Inl f \<Rightarrow> Inl (tlvError f) | Inr n \<Rightarrow> Inr n)"

definition TLV_MarshalBinary :: "tlv \<Rightarrow> bytes result" where
  "TLV_MarshalBinary t =
     (case tlv_Marshal (t_Type t) (t_Value t) of
        Inl e \<Rightarrow> Inl e
      | Inr (Inl f) \<Rightarrow> Inl (tlvError f)
      | Inr (Inr buf) \<Rightarrow> Inr buf)"

fun decode_loop :: "bytes \<Rightarrow> nat \<Rightarrow> nat \<Rightarrow> tlv list result" where
  "decode_loop data 0 offset = Inr []"
| "decode_loop data (Suc left) offset =
     (case tlv_Read data offset of
        Inl e \<Rightarrow> Inl e
      | Inr (typ, value, next) \<Rightarrow>
          (case decode_loop data left next of
             Inl e \<Rightarrow> Inl e
           | Inr out \<Rightarrow> Inr (\<lparr>t_Type = typ, t_Value = value\<rparr> # out)))"

definition DecodeTLVs :: "bytes \<Rightarrow> int \<Rightarrow> tlv list result" where
  "DecodeTLVs data maxBytes =
     (case tlv_Validate data maxBytes of
        Inl f \<Rightarrow> Inl (tlvError f)
      | Inr count \<Rightarrow> decode_loop data count 0)"

fun encoded_len_loop :: "nat \<Rightarrow> tlv list \<Rightarrow> nat result" where
  "encoded_len_loop tot [] = Inr tot"
| "encoded_len_loop tot (field # fs) =
     (case AddLen tot (length (t_Value field)) of
        Inl kind \<Rightarrow> Inl (tlvError ((failure kind)\<lparr>Got := int (length (t_Value field)),
                                              Limit := int tlv_MaxSequenceSize\<rparr>))
      | Inr next \<Rightarrow> encoded_len_loop next fs)"

definition encodedTLVsLen :: "tlv list \<Rightarrow> nat result" where
  "encodedTLVsLen fs =
     (case CheckCount (length fs) of
        Some f \<Rightarrow> Inl (tlvError f)
      | None \<Rightarrow> encoded_len_loop 0 fs)"

fun encode_loop :: "bytes \<Rightarrow> nat \<Rightarrow> tlv list \<Rightarrow> bytes result" where
  "encode_loop buf offset [] = Inr buf"
| "encode_loop buf offset (field # fs) =
     (case tlv_Write buf offset (t_Type field) (t_Value field) of
        Inl e \<Rightarrow> Inl e
      | Inr (buf, offset) \<Rightarrow> encode_loop buf offset fs)"

definition EncodeTLVs :: "tlv list \<Rightarrow> bytes result" where
  "EncodeTLVs fs =
     (case encodedTLVsLen fs of
        Inl err \<Rightarrow> Inl err
      | Inr tot \<Rightarrow> encode_loop (replicate tot 0) 0 fs)"

section \<open>Field lengths\<close>

definition pad_len :: "nat \<Rightarrow> nat" where
  "pad_len n = (4 - n mod 4) mod 4"

lemma and_not_mask: "(x :: int) AND NOT (mask n) = push_bit n (drop_bit n x)"
  by (rule bit_eqI) (auto simp: bit_simps)

lemma round_up4: "(n + 3) div 4 * 4 = n + pad_len n"
proof -
  define q r where "q = n div 4" and "r = n mod 4"
  then have n: "n = r + q * 4" and "r < 4" and pad: "pad_len n = (4 - r) mod 4"
    by (simp_all add: pad_len_def)
  then consider "r = 0" | "r = 1" | "r = 2" | "r = 3" by linarith
  then show ?thesis unfolding pad by cases (simp_all add: n)
qed

lemma Align4_eq: "Align4 n = n + pad_len n"
proof -
  have "(int n + 3) AND NOT 3 = push_bit 2 (drop_bit 2 (int n + 3))"
    using and_not_mask [of "int n + 3" 2] by (simp add: mask_eq_exp_minus_1)
  also have "\<dots> = (int n + 3) div 4 * 4"
    by (simp add: push_bit_eq_mult drop_bit_eq_div)
  also have "\<dots> = int ((n + 3) div 4 * 4)" by simp
  finally have "Align4 n = (n + 3) div 4 * 4"
    unfolding Align4_def by (simp only: nat_int)
  then show ?thesis by (simp only: round_up4)
qed

lemma pad_len_less: "pad_len n < 4"
  by (simp add: pad_len_def)

lemma Align4_ge4: "0 < n \<Longrightarrow> 4 \<le> Align4 n"
  unfolding Align4_eq round_up4 [symmetric] by (cases n) simp_all

section \<open>The grammar of field sequences\<close>

text \<open>One field on the wire: type, little-endian length, value, alignment bytes \<open>p\<close>.\<close>

definition tlv_image :: "tlv \<Rightarrow> bytes \<Rightarrow> bytes" where
  "tlv_image t p = t_Type t # le_put 2 (of_nat (length (t_Value t)) :: u16) @ t_Value t @ p"

definition wf_tlv :: "tlv \<Rightarrow> bool" where
  [wf_defs]: "wf_tlv t \<longleftrightarrow> length (t_Value t) \<le> 65535"

inductive tlv_seq :: "bytes \<Rightarrow> tlv list \<Rightarrow> bool" where
  seq_Nil: "tlv_seq [] []"
| seq_Cons: "wf_tlv t \<Longrightarrow> length p = pad_len (3 + length (t_Value t)) \<Longrightarrow> tlv_seq rest ts \<Longrightarrow>
     tlv_seq (tlv_image t p @ rest) (t # ts)"

inductive_simps tlv_seq_simps: "tlv_seq bs []" "tlv_seq bs (t # ts)"
inductive_cases tlv_seq_ConsE: "tlv_seq bs (t # ts)"

definition tlv_bytes :: "tlv \<Rightarrow> bytes" where
  "tlv_bytes t = tlv_image t (replicate (pad_len (3 + length (t_Value t))) 0)"

lemma length_tlv_image [wire_lengths]: "length (tlv_image t p) = 3 + length (t_Value t) + length p"
  by (simp add: tlv_image_def)

lemma length_tlv_bytes [wire_lengths]: "length (tlv_bytes t) = Align4 (3 + length (t_Value t))"
  by (simp add: tlv_bytes_def length_tlv_image Align4_eq)

lemma length_tlv_bytes_ge4: "4 \<le> length (tlv_bytes t)"
  by (simp add: length_tlv_bytes Align4_ge4)

lemma tlv_seq_length:
  "tlv_seq bs ts \<Longrightarrow> length bs = length (concat (map tlv_bytes ts))"
  by (induction rule: tlv_seq.induct) (simp_all add: wire_lengths Align4_eq)

lemma concat_tlv_bytes_count: "4 * length ts \<le> length (concat (map tlv_bytes ts))"
proof (induction ts)
  case (Cons t ts)
  then show ?case using length_tlv_bytes_ge4 [of t] by simp
qed simp

lemma tlv_seq_bytes: "\<forall>t \<in> set ts. wf_tlv t \<Longrightarrow> tlv_seq (concat (map tlv_bytes ts)) ts"
  by (induction ts) (auto intro: tlv_seq.intros simp: tlv_bytes_def)

lemma tlv_seq_wf: "tlv_seq bs ts \<Longrightarrow> t \<in> set ts \<Longrightarrow> wf_tlv t"
  by (induction rule: tlv_seq.induct) auto

text \<open>Reading one field at an offset: the bytes from the offset are one field's image.\<close>

lemma length_field_at:
  assumes "drop offset data = tlv_image t p @ rest" and "wf_tlv t"
  shows "le_get (slice (Suc offset) (offset + 3) data) = (of_nat (length (t_Value t)) :: u16)"
proof -
  have "slice (Suc offset) (offset + 3) data = take 2 (drop 1 (drop offset data))"
    by (simp add: slice_def)
  then show ?thesis by (simp add: assms(1) tlv_image_def)
qed

lemma tlv_Read_image:
  assumes d: "drop offset data = tlv_image t p @ rest" and wf: "wf_tlv t"
  shows "tlv_Read data offset = Inr (t_Type t, t_Value t, offset + Align4 (3 + length (t_Value t)))"
proof -
  have len: "length data = offset + length (tlv_image t p @ rest)"
    using arg_cong [OF d, of length] by (simp add: length_tlv_image)
  have vl: "unat (of_nat (length (t_Value t)) :: u16) = length (t_Value t)"
    using wf by (simp add: wf_defs unat_of_nat_u16)
  have v: "slice (offset + 3) (offset + 3 + length (t_Value t)) data = t_Value t"
  proof -
    have "slice (offset + 3) (offset + 3 + length (t_Value t)) data =
        take (length (t_Value t)) (drop 3 (drop offset data))"
      by (simp add: slice_def add.commute)
    then show ?thesis by (simp add: d tlv_image_def)
  qed
  have "data ! offset = hd (drop offset data)"
    using len by (intro hd_drop_conv_nth [symmetric]) (simp add: length_tlv_image)
  then have "data ! offset = t_Type t" by (simp add: d tlv_image_def)
  with len vl v length_field_at [OF d wf] show ?thesis
    by (simp add: tlv_Read_def length_tlv_image)
qed

section \<open>Decoding\<close>

lemma drop_field:
  assumes "drop offset data = tlv_image t p @ rest" and "length p = pad_len (3 + length (t_Value t))"
  shows "drop (offset + Align4 (3 + length (t_Value t))) data = rest"
proof -
  have "drop (offset + Align4 (3 + length (t_Value t))) data =
      drop (length (tlv_image t p)) (drop offset data)"
    using assms(2) by (simp add: length_tlv_image Align4_eq add.commute)
  then show ?thesis by (simp add: assms(1))
qed

lemma decode_loop_seq:
  "tlv_seq (drop offset data) ts \<Longrightarrow> decode_loop data (length ts) offset = Inr ts"
proof (induction ts arbitrary: offset)
  case (Cons t ts)
  from Cons.prems obtain p rest where d: "drop offset data = tlv_image t p @ rest" and wf: "wf_tlv t"
    and p: "length p = pad_len (3 + length (t_Value t))" and rest: "tlv_seq rest ts"
    by (auto elim: tlv_seq_ConsE)
  have "decode_loop data (length ts) (offset + Align4 (3 + length (t_Value t))) = Inr ts"
    using rest by (intro Cons.IH) (simp only: drop_field [OF d p])
  then show ?case by (cases t) (simp add: tlv_Read_image [OF d wf])
qed simp

text \<open>The converse of \<open>length_field_at\<close>: bytes that pass the checks of the first pass are a
  field's image.\<close>

lemma field_at:
  fixes data :: bytes
  assumes vl: "vl = unat (le_get (slice (Suc offset) (offset + 3) data) :: u16)"
    and len: "offset + (3 + vl + pd) \<le> length data"
  defines "t \<equiv> \<lparr>t_Type = data ! offset, t_Value = slice (offset + 3) (offset + 3 + vl) data\<rparr>"
    and "p \<equiv> slice (offset + 3 + vl) (offset + 3 + vl + pd) data"
  shows "drop offset data = tlv_image t p @ drop (offset + (3 + vl + pd)) data"
    and "wf_tlv t" and "length p = pd" and "length (t_Value t) = vl"
proof -
  show lv: "length (t_Value t) = vl" and lp: "length p = pd" using len by (simp_all add: t_def p_def)
  have "vl < 65536" using vl by simp
  then show "wf_tlv t" using lv by (simp add: wf_defs)
  have hd3: "slice offset (offset + 3) data = data ! offset # slice (Suc offset) (offset + 3) data"
    using len by (intro slice_Cons) simp_all
  have le: "le_put 2 (of_nat vl :: u16) = slice (Suc offset) (offset + 3) data"
    using len unfolding vl by (simp add: le_put_get16)
  have "drop offset data = slice offset (length data) data" by (simp add: slice_def)
  also have "\<dots> = slice offset (offset + 3) data @ slice (offset + 3) (offset + 3 + vl) data @
      slice (offset + 3 + vl) (offset + 3 + vl + pd) data @ slice (offset + 3 + vl + pd) (length data) data"
    using len by (simp add: slice_join)
  also have "slice (offset + 3 + vl + pd) (length data) data = drop (offset + (3 + vl + pd)) data"
    by (simp add: slice_def add.assoc)
  finally show "drop offset data = tlv_image t p @ drop (offset + (3 + vl + pd)) data"
    by (simp add: tlv_image_def lv le hd3) (simp add: t_def p_def)
qed

lemma validate_loop_sound:
  "validate_loop data count offset = Inr n \<Longrightarrow>
   \<exists>ts. tlv_seq (drop offset data) ts \<and> n = count + length ts"
proof (induction "length data - offset" arbitrary: count offset rule: less_induct)
  case less
  show ?case
  proof (cases "offset < length data")
    case True
    define vl where "vl = unat (le_get (slice (Suc offset) (offset + 3) data) :: u16)"
    define pd where "pd = pad_len (3 + vl)"
    from less.prems True
    have checks: "3 \<le> length data - offset" "vl \<le> length data - offset - 3"
        "pd \<le> length data - offset - (3 + vl)"
      and rec: "validate_loop data (count + 1) (offset + (3 + vl + pd)) = Inr n"
      unfolding vl_def pd_def
      by (simp_all add: validate_loop.simps [of data count offset] pad_len_def Let_def split: if_splits)
    have "length data - (offset + (3 + vl + pd)) < length data - offset"
      using True by (intro diff_less_mono2) simp_all
    then obtain ts where ts: "tlv_seq (drop (offset + (3 + vl + pd)) data) ts" "n = count + 1 + length ts"
      using less.hyps [OF _ rec] by blast
    have "offset + (3 + vl + pd) \<le> length data" using checks True by linarith
    note field = field_at [OF vl_def this]
    let ?t = "\<lparr>t_Type = data ! offset, t_Value = slice (offset + 3) (offset + 3 + vl) data\<rparr>"
    have "tlv_seq (drop offset data) (?t # ts)"
      unfolding field(1) by (intro tlv_seq.seq_Cons field(2) ts(1)) (simp only: field(3,4) flip: pd_def)
    with ts(2) show ?thesis by (intro exI [of _ "?t # ts"]) simp
  next
    case False
    with less.prems show ?thesis
      by (intro exI [of _ "[]"]) (simp add: validate_loop.simps [of data count offset] tlv_seq.seq_Nil)
  qed
qed

lemma validate_loop_complete:
  "tlv_seq (drop offset data) ts \<Longrightarrow> count + length ts \<le> 16383 \<Longrightarrow>
   validate_loop data count offset = Inr (count + length ts)"
proof (induction ts arbitrary: count offset)
  case Nil
  then show ?case by (simp add: tlv_seq_simps validate_loop.simps [of data count offset])
next
  case (Cons t ts)
  from Cons.prems(1) obtain p rest where d: "drop offset data = tlv_image t p @ rest" and wf: "wf_tlv t"
    and p: "length p = pad_len (3 + length (t_Value t))" and rest: "tlv_seq rest ts"
    by (auto elim: tlv_seq_ConsE)
  have vl: "unat (le_get (slice (Suc offset) (offset + 3) data) :: u16) = length (t_Value t)"
    using wf unfolding length_field_at [OF d wf] by (simp add: wf_defs unat_of_nat_u16)
  have len: "length data - offset = 3 + length (t_Value t) + length p + length rest"
    using arg_cong [OF d, of length] by (simp add: length_tlv_image)
  have "validate_loop data (count + 1) (offset + Align4 (3 + length (t_Value t))) =
      Inr (count + 1 + length ts)"
    using rest Cons.prems(2) by (intro Cons.IH) (simp_all only: drop_field [OF d p], simp)
  with len Cons.prems(2) p show ?case
    by (simp add: validate_loop.simps [of data count offset] vl Let_def Align4_eq pad_len_def)
qed

theorem DecodeTLVs_iff:
  "DecodeTLVs data maxBytes = Inr ts \<longleftrightarrow>
     length data \<le> 65535 \<and> (maxBytes \<le> 0 \<or> int (length data) \<le> maxBytes) \<and> tlv_seq data ts"
proof
  assume dec: "DecodeTLVs data maxBytes = Inr ts"
  then obtain n where v: "tlv_Validate data maxBytes = Inr n" and l: "decode_loop data n 0 = Inr ts"
    by (auto simp: DecodeTLVs_def split: sum.splits)
  from v have b: "length data \<le> 65535 \<and> (maxBytes \<le> 0 \<or> int (length data) \<le> maxBytes)"
    and "validate_loop data 0 0 = Inr n"
    by (auto simp: tlv_Validate_def split: if_splits)
  then obtain ts' where "tlv_seq data ts'" "n = length ts'"
    using validate_loop_sound [of data 0 0 n] by auto
  with l decode_loop_seq [of 0 data ts'] b
  show "length data \<le> 65535 \<and> (maxBytes \<le> 0 \<or> int (length data) \<le> maxBytes) \<and> tlv_seq data ts"
    by simp
next
  assume a: "length data \<le> 65535 \<and> (maxBytes \<le> 0 \<or> int (length data) \<le> maxBytes) \<and> tlv_seq data ts"
  then have "4 * length ts \<le> 65535"
    using tlv_seq_length [of data ts] concat_tlv_bytes_count [of ts] by simp
  with a have "tlv_Validate data maxBytes = Inr (length ts)"
    using validate_loop_complete [of 0 data ts 0] by (auto simp: tlv_Validate_def)
  then show "DecodeTLVs data maxBytes = Inr ts"
    using a decode_loop_seq [of 0 data ts] by (simp add: DecodeTLVs_def)
qed

lemma validate_loop_kinds:
  "validate_loop data count offset = Inl f \<Longrightarrow>
   Kind f \<in> {ElementsFull, TooShort, TruncatedValue, TruncatedPadding}"
proof (induction "length data - offset" arbitrary: count offset rule: less_induct)
  case less
  show ?case
  proof (cases "\<exists>c' d. 0 < d \<and> offset < length data \<and> validate_loop data c' (offset + d) = Inl f")
    case True
    then obtain c' d where "0 < d" "offset < length data" "validate_loop data c' (offset + d) = Inl f"
      by blast
    then show ?thesis using less.hyps [of "offset + d" c'] by (simp add: diff_less_mono2)
  next
    case False
    then have no: "validate_loop data c' (offset + d) \<noteq> Inl f"
      if "0 < d" and "offset < length data" for c' d
      using that by blast
    from less.prems show ?thesis
      unfolding validate_loop.simps [of data count offset]
      by (auto simp: failure_def Let_def no split: if_splits)
  qed
qed

lemma DecodeTLVs_errors:
  assumes "DecodeTLVs data maxBytes = Inl e"
  shows "e \<in> {ErrTLVTooShort, ErrTLVTruncated, ErrTLVDecodeLimit, ErrTLVSequenceLimit, ErrTLVElementLimit}"
proof (cases "tlv_Validate data maxBytes")
  case (Inl f)
  then have "Kind f \<in> {SequenceTooLarge, DecodeLimit, ElementsFull, TooShort, TruncatedValue, TruncatedPadding}"
    using validate_loop_kinds [of data 0 0 f] by (auto simp: tlv_Validate_def failure_def split: if_splits)
  moreover have "e = tlvError f" using assms Inl by (simp add: DecodeTLVs_def)
  ultimately show ?thesis by (auto simp: tlvError_def)
next
  case (Inr n)
  then obtain ts where "tlv_seq data ts" "n = length ts"
    using validate_loop_sound [of data 0 0 n] by (auto simp: tlv_Validate_def split: if_splits)
  with Inr assms decode_loop_seq [of 0 data ts] show ?thesis by (simp add: DecodeTLVs_def)
qed

section \<open>Encoding\<close>

lemma tlv_Write_at:
  assumes "length vv = length v"
  shows "tlv_Write (pre @ [x, y, z] @ vv @ rest) (length pre) typ v =
    Inr (pre @ typ # le_put 2 (of_nat (length v) :: u16) @ v @ rest, length pre + Align4 (3 + length v))"
  using assms by (simp add: tlv_Write_def fill_simps Let_def)

lemma tlv_Write_zeros:
  "tlv_Write (pre @ replicate (length (tlv_bytes t) + k) 0) (length pre) (t_Type t) (t_Value t) =
     Inr (pre @ tlv_bytes t @ replicate k 0, length (pre @ tlv_bytes t))"
proof -
  let ?n = "length (t_Value t)" and ?p = "pad_len (3 + length (t_Value t))"
  have "length (tlv_bytes t) + k = Suc (Suc (Suc (?n + (?p + k))))"
    by (simp add: length_tlv_bytes Align4_eq)
  then have "replicate (length (tlv_bytes t) + k) (0 :: byte) =
      [0, 0, 0] @ replicate ?n 0 @ (replicate ?p 0 @ replicate k 0)"
    by (simp only: replicate_add replicate_Suc append_Cons append_Nil)
  then show ?thesis
    using tlv_Write_at [of "replicate ?n 0" "t_Value t" pre 0 0 0]
    by (simp add: length_tlv_bytes) (simp add: tlv_bytes_def tlv_image_def)
qed

lemma encode_loop_zeros:
  "encode_loop (pre @ replicate (length (concat (map tlv_bytes ts))) 0) (length pre) ts =
     Inr (pre @ concat (map tlv_bytes ts))"
proof (induction ts arbitrary: pre)
  case (Cons t ts)
  have "encode_loop ((pre @ tlv_bytes t) @ replicate (length (concat (map tlv_bytes ts))) 0)
      (length (pre @ tlv_bytes t)) ts = Inr ((pre @ tlv_bytes t) @ concat (map tlv_bytes ts))"
    by (rule Cons.IH)
  then show ?case using tlv_Write_zeros [of pre t "length (concat (map tlv_bytes ts))"] by simp
qed simp

lemma AddLen_Inr:
  "tot \<le> 65535 \<Longrightarrow> AddLen tot (length (t_Value t)) = Inr n \<longleftrightarrow>
     wf_tlv t \<and> n = tot + length (tlv_bytes t) \<and> n \<le> 65535"
  by (auto simp: AddLen_def Let_def wf_defs length_tlv_bytes)

lemma encoded_len_loop_Inr:
  "tot \<le> 65535 \<Longrightarrow> encoded_len_loop tot ts = Inr n \<longleftrightarrow>
     (\<forall>t \<in> set ts. wf_tlv t) \<and> n = tot + length (concat (map tlv_bytes ts)) \<and> n \<le> 65535"
proof (induction ts arbitrary: tot)
  case (Cons t ts)
  show ?case
  proof (cases "AddLen tot (length (t_Value t))")
    case (Inl k)
    then have "\<not> (wf_tlv t \<and> tot + length (tlv_bytes t) \<le> 65535)"
      using AddLen_Inr [OF Cons.prems, of t "tot + length (tlv_bytes t)"] by auto
    with Inl show ?thesis by auto
  next
    case (Inr m)
    with Cons AddLen_Inr [OF Cons.prems, of t m] show ?thesis by auto
  qed
qed auto

lemma encodedTLVsLen_Inr:
  "encodedTLVsLen ts = Inr n \<longleftrightarrow>
     (\<forall>t \<in> set ts. wf_tlv t) \<and> n = length (concat (map tlv_bytes ts)) \<and> n \<le> 65535"
  using concat_tlv_bytes_count [of ts] encoded_len_loop_Inr [of 0 ts n]
  by (auto simp: encodedTLVsLen_def CheckCount_def)

lemma EncodeTLVs_len:
  "EncodeTLVs ts =
     (case encodedTLVsLen ts of Inl e \<Rightarrow> Inl e | Inr n \<Rightarrow> Inr (concat (map tlv_bytes ts)))"
proof (cases "encodedTLVsLen ts")
  case (Inr n)
  then have "n = length (concat (map tlv_bytes ts))" by (simp add: encodedTLVsLen_Inr)
  with Inr show ?thesis using encode_loop_zeros [of "[]" ts] by (simp add: EncodeTLVs_def)
qed (simp add: EncodeTLVs_def)

theorem EncodeTLVs_iff:
  "EncodeTLVs ts = Inr bs \<longleftrightarrow>
     (\<forall>t \<in> set ts. wf_tlv t) \<and> bs = concat (map tlv_bytes ts) \<and> length bs \<le> 65535"
proof (cases "encodedTLVsLen ts")
  case (Inl e)
  then have "\<not> ((\<forall>t \<in> set ts. wf_tlv t) \<and> length (concat (map tlv_bytes ts)) \<le> 65535)"
    using encodedTLVsLen_Inr [of ts "length (concat (map tlv_bytes ts))"] by auto
  with Inl show ?thesis by (auto simp: EncodeTLVs_len)
next
  case (Inr n)
  with encodedTLVsLen_Inr [of ts n] show ?thesis by (auto simp: EncodeTLVs_len)
qed

lemma encoded_len_loop_errors:
  "encoded_len_loop tot ts = Inl e \<Longrightarrow> e = ErrTLVValueTooLarge \<or> e = ErrTLVSequenceLimit"
  by (induction ts arbitrary: tot)
    (auto simp: AddLen_def tlvError_def failure_def Let_def split: sum.splits if_splits)

lemma encodedTLVsLen_errors:
  "encodedTLVsLen ts = Inl e \<Longrightarrow>
   e \<in> {ErrTLVElementLimit, ErrTLVValueTooLarge, ErrTLVSequenceLimit}"
  using encoded_len_loop_errors [of 0 ts e]
  by (auto simp: encodedTLVsLen_def CheckCount_def tlvError_def failure_def split: if_splits)

lemma TLV_MarshalBinary_eq:
  "TLV_MarshalBinary t = (if wf_tlv t then Inr (tlv_bytes t) else Inl ErrTLVValueTooLarge)"
proof (cases "wf_tlv t")
  case True
  then have "tlv_EncodedLen (length (t_Value t)) = Inr (length (tlv_bytes t))"
    by (simp add: tlv_EncodedLen_def wf_defs length_tlv_bytes)
  with True tlv_Write_zeros [of "[]" t 0] show ?thesis
    by (simp add: TLV_MarshalBinary_def tlv_Marshal_def)
next
  case False
  then show ?thesis
    by (simp add: TLV_MarshalBinary_def tlv_Marshal_def tlv_EncodedLen_def wf_defs tlvError_def failure_def)
qed

text \<open>Round trip of a whole sequence, under any decode limit that the bytes respect.\<close>

lemma DecodeTLVs_EncodeTLVs:
  assumes "EncodeTLVs ts = Inr bs" and "maxBytes \<le> 0 \<or> int (length bs) \<le> maxBytes"
  shows "DecodeTLVs bs maxBytes = Inr ts"
  using assms tlv_seq_bytes [of ts] by (auto simp: EncodeTLVs_iff DecodeTLVs_iff)

interpretation tlv_codec: wire_codec EncodeTLVs "\<lambda>bs. DecodeTLVs bs 0" "\<lambda>_. True"
  by unfold_locales (simp add: DecodeTLVs_EncodeTLVs)

text \<open>Decoding and encoding again keeps every field and the length; only the alignment
  bytes are normalised.\<close>

lemma EncodeTLVs_DecodeTLVs:
  assumes "DecodeTLVs data maxBytes = Inr ts"
  shows "\<exists>bs. EncodeTLVs ts = Inr bs \<and> length bs = length data \<and> DecodeTLVs bs maxBytes = Inr ts"
proof -
  from assms have seq: "tlv_seq data ts" and len: "length data \<le> 65535"
    and mx: "maxBytes \<le> 0 \<or> int (length data) \<le> maxBytes"
    by (auto simp: DecodeTLVs_iff)
  have "EncodeTLVs ts = Inr (concat (map tlv_bytes ts))"
    using tlv_seq_wf [OF seq] tlv_seq_length [OF seq] len by (auto simp: EncodeTLVs_iff)
  with mx show ?thesis
    using DecodeTLVs_EncodeTLVs [of ts "concat (map tlv_bytes ts)" maxBytes] tlv_seq_length [OF seq]
    by auto
qed

end
