(* ===== verification/Messages.thy ===== *)
theory Messages
  imports Tlv
begin

text \<open>
  The typed messages: \<^verbatim>\<open>messages.go\<close> (tickets, ping/pong, acknowledgements, rekey),
  \<^verbatim>\<open>messages_tlv.go\<close> and \<^verbatim>\<open>encrypted_data_builder.go\<close> (application envelopes, session
  close), \<^verbatim>\<open>messages_error.go\<close> and \<^verbatim>\<open>messages_handshake.go\<close>. \<open>utf8_valid\<close> is the standard
  library's \<^verbatim>\<open>utf8.Valid\<close> and \<^verbatim>\<open>utf8.ValidString\<close> (a Go string is its bytes). Every message
  type is an interpretation of \<open>wire_codec\<close>; those whose decoder accepts canonical bytes
  only are interpretations of \<open>canonical_codec\<close>.
\<close>

section \<open>Limits\<close>

definition HandshakeInitFixedSize :: nat where [simp]: "HandshakeInitFixedSize = 36"
definition HandshakeResponseFixedSize :: nat where [simp]: "HandshakeResponseFixedSize = 32"
definition HandshakeFinishFixedSize :: nat where [simp]: "HandshakeFinishFixedSize = 64"
abbreviation PingPongSize :: nat where "PingPongSize \<equiv> wire_PingPongSize"
abbreviation RekeyInitSize :: nat where "RekeyInitSize \<equiv> wire_RekeyInitSize"
abbreviation MaxAckSequences :: nat where "MaxAckSequences \<equiv> wire_MaxAckSequences"
definition MaxEncryptedPayloadSize :: nat where
  [simp]: "MaxEncryptedPayloadSize = MaxFrameSize - HeaderSize - AEADTagSize"
definition MaxHandshakePayloadSize :: nat where
  [simp]: "MaxHandshakePayloadSize = MaxFrameSize - HeaderSize"
definition MaxResumptionTicketSize :: nat where
  [simp]: "MaxResumptionTicketSize = MaxEncryptedPayloadSize - 8"
definition MaxReasonSize :: nat where
  [simp]: "MaxReasonSize = MaxEncryptedPayloadSize - 2 - tlv_HeaderSize - 1"
definition MaxErrorContextSize :: nat where
  [simp]: "MaxErrorContextSize = MaxEncryptedPayloadSize - 2"
definition textTLVType :: u8 where [simp]: "textTLVType = 1"
definition NoisePatternXX :: u8 where [simp]: "NoisePatternXX = 1"
definition NoisePatternIK :: u8 where [simp]: "NoisePatternIK = 2"

section \<open>UTF-8\<close>

definition utf8_cont :: "byte \<Rightarrow> bool" where
  "utf8_cont c \<longleftrightarrow> 0x80 \<le> c \<and> c \<le> 0xBF"

fun utf8_valid :: "bytes \<Rightarrow> bool" where
  "utf8_valid [] = True"
| "utf8_valid (b # bs) =
     (if b < 0x80 then utf8_valid bs
      else if 0xC2 \<le> b \<and> b \<le> 0xDF then
        (case bs of c1 # r \<Rightarrow> utf8_cont c1 \<and> utf8_valid r | _ \<Rightarrow> False)
      else if 0xE0 \<le> b \<and> b \<le> 0xEF then
        (case bs of
           c1 # c2 # r \<Rightarrow>
             (if b = 0xE0 then 0xA0 \<le> c1 \<and> c1 \<le> 0xBF
              else if b = 0xED then 0x80 \<le> c1 \<and> c1 \<le> 0x9F
              else utf8_cont c1) \<and> utf8_cont c2 \<and> utf8_valid r
         | _ \<Rightarrow> False)
      else if 0xF0 \<le> b \<and> b \<le> 0xF4 then
        (case bs of
           c1 # c2 # c3 # r \<Rightarrow>
             (if b = 0xF0 then 0x90 \<le> c1 \<and> c1 \<le> 0xBF
              else if b = 0xF4 then 0x80 \<le> c1 \<and> c1 \<le> 0x8F
              else utf8_cont c1) \<and> utf8_cont c2 \<and> utf8_cont c3 \<and> utf8_valid r
         | _ \<Rightarrow> False)
      else False)"

section \<open>messages.go\<close>

record resumption_ticket =
  rt_Ticket :: bytes
  rt_ValidUntil :: u64

definition ResumptionTicket_MarshalBinary :: "resumption_ticket \<Rightarrow> bytes result" where
  "ResumptionTicket_MarshalBinary m =
     (if length (rt_Ticket m) = 0 \<or> length (rt_Ticket m) > MaxResumptionTicketSize
      then Inl ErrResumptionTicket
      else PutTicket (replicate (length (rt_Ticket m) + 8) 0) (rt_Ticket m) (rt_ValidUntil m))"

definition ResumptionTicket_UnmarshalBinary :: "bytes \<Rightarrow> resumption_ticket result" where
  "ResumptionTicket_UnmarshalBinary data =
     (if length data < 9 \<or> length data > MaxEncryptedPayloadSize then Inl ErrResumptionTicket
      else case ReadTicket data of
        Inl e \<Rightarrow> Inl e
      | Inr (ticket, validUntil) \<Rightarrow> Inr \<lparr>rt_Ticket = ticket, rt_ValidUntil = validUntil\<rparr>)"

record ping_pong =
  pp_IsResponse :: bool
  pp_Nonce :: u64

definition PingPong_MarshalBinary :: "ping_pong \<Rightarrow> bytes result" where
  "PingPong_MarshalBinary m = PutPingPong (replicate PingPongSize 0) (pp_IsResponse m) (pp_Nonce m)"

definition PingPong_UnmarshalBinary :: "bytes \<Rightarrow> ping_pong result" where
  "PingPong_UnmarshalBinary data =
     (if length data \<noteq> PingPongSize then Inl ErrMessageLength
      else if data ! 0 > 1 then Inl ErrInvalidPingResponse
      else case ReadPingPong data of
        Inl e \<Rightarrow> Inl e
      | Inr (response, nonce) \<Rightarrow> Inr \<lparr>pp_IsResponse = response, pp_Nonce = nonce\<rparr>)"

record ack =
  ack_Sequences :: "u64 list"

definition Ack_MarshalBinary :: "ack \<Rightarrow> bytes result" where
  "Ack_MarshalBinary m =
     (if length (ack_Sequences m) < 1 \<or> length (ack_Sequences m) > MaxAckSequences then Inl ErrAckCount
      else PutAck (replicate (AckSize (length (ack_Sequences m))) 0) (ack_Sequences m))"

definition Ack_UnmarshalBinary :: "bytes \<Rightarrow> ack result" where
  "Ack_UnmarshalBinary data =
     (if length data < 1 then Inl ErrMessageTooShort
      else
        (let count = unat (data ! 0)
         in if count < 1 \<or> count > MaxAckSequences then Inl ErrAckCount
            else if length data \<noteq> AckSize count then Inl ErrMessageLength
            else case ReadAck data count of
              Inl e \<Rightarrow> Inl e
            | Inr sequences \<Rightarrow> Inr \<lparr>ack_Sequences = sequences\<rparr>))"

record rekey_init =
  ri_Epoch :: u32
  ri_KeyConfirm :: bytes

definition RekeyInit_MarshalBinary :: "rekey_init \<Rightarrow> bytes result" where
  "RekeyInit_MarshalBinary m =
     (if ri_Epoch m = 0 then Inl ErrInvalidEpoch
      else PutRekeyInit (replicate RekeyInitSize 0) (ri_Epoch m) (ri_KeyConfirm m))"

definition RekeyInit_UnmarshalBinary :: "bytes \<Rightarrow> rekey_init result" where
  "RekeyInit_UnmarshalBinary data =
     (if length data \<noteq> RekeyInitSize then Inl ErrMessageLength
      else case ReadRekeyInit data of
        Inl e \<Rightarrow> Inl e
      | Inr (epoch, confirm) \<Rightarrow>
          if epoch = 0 then Inl ErrInvalidEpoch
          else Inr \<lparr>ri_Epoch = epoch, ri_KeyConfirm = confirm\<rparr>)"

section \<open>messages_tlv.go and encrypted_data_builder.go\<close>

record encrypted_data =
  ed_StreamID :: u16
  ed_AppMessageType :: u8
  ed_Fields :: "tlv list"

fun reject_duplicates_loop :: "(u8 \<Rightarrow> bool) \<Rightarrow> tlv list \<Rightarrow> dg_error option" where
  "reject_duplicates_loop seen [] = None"
| "reject_duplicates_loop seen (field # fs) =
     (if seen (t_Type field) then Some ErrDuplicateMessageTLV
      else reject_duplicates_loop (seen(t_Type field := True)) fs)"

definition rejectDuplicateTLVs :: "tlv list \<Rightarrow> dg_error option" where
  "rejectDuplicateTLVs fs = reject_duplicates_loop (\<lambda>_. False) fs"

definition EncryptedData_EncodedLen :: "encrypted_data \<Rightarrow> nat result" where
  "EncryptedData_EncodedLen m =
     (case rejectDuplicateTLVs (ed_Fields m) of
        Some err \<Rightarrow> Inl err
      | None \<Rightarrow>
          (case encodedTLVsLen (ed_Fields m) of
             Inl err \<Rightarrow> Inl err
           | Inr fieldsLen \<Rightarrow>
               if fieldsLen > MaxEncryptedPayloadSize - 4 then Inl ErrMessageLength
               else Inr (4 + fieldsLen)))"

definition ValidateFrameSize :: "encrypted_data \<Rightarrow> u8 \<Rightarrow> dg_error option" where
  "ValidateFrameSize m padLength =
     (case EncryptedData_EncodedLen m of
        Inl err \<Rightarrow> Some err
      | Inr n \<Rightarrow>
          if HeaderSize + n + AEADTagSize + unat padLength > MaxFrameSize then Some ErrPayloadTooLarge
          else None)"

definition EncryptedData_MarshalBinary :: "encrypted_data \<Rightarrow> bytes result" where
  "EncryptedData_MarshalBinary m =
     (case rejectDuplicateTLVs (ed_Fields m) of
        Some err \<Rightarrow> Inl err
      | None \<Rightarrow>
          (case EncodeTLVs (ed_Fields m) of
             Inl err \<Rightarrow> Inl err
           | Inr fs \<Rightarrow>
               if length fs > MaxEncryptedPayloadSize - 4 then Inl ErrMessageLength
               else
                 (let buf = replicate 4 0;
                      buf = copy_at buf 0 (le_put 2 (ed_StreamID m));
                      buf = buf[2 := ed_AppMessageType m]
                  in Inr (buf @ fs))))"

definition EncryptedData_UnmarshalBinary :: "bytes \<Rightarrow> encrypted_data result" where
  "EncryptedData_UnmarshalBinary data =
     (if length data < 4 then Inl ErrMessageTooShort
      else if data ! 3 \<noteq> 0 then Inl ErrMessageReserved
      else case DecodeTLVs (drop 4 data) (int (MaxEncryptedPayloadSize - 4)) of
        Inl err \<Rightarrow> Inl err
      | Inr fs \<Rightarrow>
          (case rejectDuplicateTLVs fs of
             Some err \<Rightarrow> Inl err
           | None \<Rightarrow> Inr \<lparr>ed_StreamID = le_get (slice 0 2 data), ed_AppMessageType = data ! 2,
                          ed_Fields = fs\<rparr>))"

definition NewEncryptedData :: "u16 \<Rightarrow> u8 \<Rightarrow> tlv list \<Rightarrow> encrypted_data result" where
  "NewEncryptedData streamID appMessageType fs =
     (let message = \<lparr>ed_StreamID = streamID, ed_AppMessageType = appMessageType, ed_Fields = fs\<rparr>
      in case EncryptedData_EncodedLen message of
           Inl err \<Rightarrow> Inl err
         | Inr n \<Rightarrow> Inr (message\<lparr>ed_Fields :=
               map (\<lambda>field. \<lparr>t_Type = t_Type field, t_Value = [] @ t_Value field\<rparr>) fs\<rparr>))"

record session_close =
  sc_Code :: u16
  sc_Reason :: bytes

definition marshalTextMessage :: "u16 \<Rightarrow> bytes \<Rightarrow> bytes result" where
  "marshalTextMessage code text =
     (if \<not> utf8_valid text then Inl ErrInvalidUTF8
      else if length text > MaxReasonSize then Inl ErrReasonTooLong
      else
        (let buf = copy_at (replicate 2 0) 0 (le_put 2 code)
         in if text = [] then Inr buf
            else
              (let field = (case NewTLV textTLVType text of
                              Inl _ \<Rightarrow> \<lparr>t_Type = 0, t_Value = []\<rparr> | Inr t \<Rightarrow> t)
               in case TLV_MarshalBinary field of
                    Inl err \<Rightarrow> Inl err
                  | Inr encoded \<Rightarrow> Inr (buf @ encoded))))"

definition unmarshalTextMessage :: "bytes \<Rightarrow> (u16 \<times> bytes) result" where
  "unmarshalTextMessage data =
     (if length data < 2 then Inl ErrMessageTooShort
      else
        (let code = le_get (slice 0 2 data)
         in if length data = 2 then Inr (code, [])
            else case DecodeTLVs (drop 2 data) (int (Align4 (tlv_HeaderSize + MaxReasonSize))) of
              Inl err \<Rightarrow> Inl err
            | Inr fs \<Rightarrow>
                (case rejectDuplicateTLVs fs of
                   Some err \<Rightarrow> Inl err
                 | None \<Rightarrow>
                     if length fs \<noteq> 1 then Inl ErrUnknownMessageTLV
                     else if t_Type (fs ! 0) \<noteq> textTLVType then Inl ErrUnknownMessageTLV
                     else if \<not> utf8_valid (t_Value (fs ! 0)) then Inl ErrInvalidUTF8
                     else Inr (code, t_Value (fs ! 0)))))"

definition SessionClose_MarshalBinary :: "session_close \<Rightarrow> bytes result" where
  "SessionClose_MarshalBinary m =
     (if sc_Code m > 3 then Inl ErrInvalidCloseCode
      else marshalTextMessage (sc_Code m) (sc_Reason m))"

definition SessionClose_UnmarshalBinary :: "bytes \<Rightarrow> session_close result" where
  "SessionClose_UnmarshalBinary data =
     (case unmarshalTextMessage data of
        Inl err \<Rightarrow> Inl err
      | Inr (code, text) \<Rightarrow>
          if code > 3 then Inl ErrInvalidCloseCode
          else Inr \<lparr>sc_Code = code, sc_Reason = text\<rparr>)"

section \<open>messages_error.go\<close>

record error_message =
  em_Code :: u16
  em_Context :: bytes

definition ErrorMessage_MarshalBinary :: "error_message \<Rightarrow> bytes result" where
  "ErrorMessage_MarshalBinary m =
     (if \<not> utf8_valid (em_Context m) then Inl ErrInvalidUTF8
      else if length (em_Context m) > MaxErrorContextSize then Inl ErrReasonTooLong
      else
        (let buf = replicate (2 + length (em_Context m)) 0;
             buf = copy_at buf 0 (le_put 2 (em_Code m))
         in Inr (copy_at buf 2 (em_Context m))))"

definition unmarshalErrorMessage :: "bytes \<Rightarrow> (u16 \<times> bytes) result" where
  "unmarshalErrorMessage data =
     (if length data < 2 then Inl ErrMessageTooShort
      else if length data > MaxEncryptedPayloadSize then Inl ErrMessageLength
      else if \<not> utf8_valid (drop 2 data) then Inl ErrInvalidUTF8
      else Inr (le_get (slice 0 2 data), drop 2 data))"

definition ErrorMessage_UnmarshalBinary :: "bytes \<Rightarrow> error_message result" where
  "ErrorMessage_UnmarshalBinary data =
     (case unmarshalErrorMessage data of
        Inl err \<Rightarrow> Inl err
      | Inr (code, text) \<Rightarrow> Inr \<lparr>em_Code = code, em_Context = text\<rparr>)"

section \<open>messages_handshake.go\<close>

record handshake_init =
  hi_Pattern :: u8
  hi_ClientEphemeral :: bytes
  hi_NoisePayload :: bytes

definition HandshakeInit_MarshalBinary :: "handshake_init \<Rightarrow> bytes result" where
  "HandshakeInit_MarshalBinary m =
     (if hi_Pattern m \<noteq> NoisePatternXX then Inl ErrInvalidNoisePattern
      else if length (hi_NoisePayload m) \<noteq> 0 then Inl ErrUnexpectedNoiseData
      else
        (let tot = HandshakeInitFixedSize + length (hi_NoisePayload m)
         in if tot > MaxHandshakePayloadSize then Inl ErrMessageLength
            else if tot mod 4 \<noteq> 0 then Inl ErrHandshakeAlignment
            else
              (let buf = replicate tot 0;
                   buf = buf[0 := hi_Pattern m];
                   buf = copy_at buf 4 (hi_ClientEphemeral m)
               in Inr (copy_at buf 36 (hi_NoisePayload m)))))"

definition HandshakeInit_UnmarshalBinary :: "bytes \<Rightarrow> handshake_init result" where
  "HandshakeInit_UnmarshalBinary data =
     (if length data < HandshakeInitFixedSize then Inl ErrMessageTooShort
      else if length data > MaxHandshakePayloadSize then Inl ErrMessageLength
      else if length data mod 4 \<noteq> 0 then Inl ErrHandshakeAlignment
      else
        (let pattern = data ! 0
         in if pattern \<noteq> NoisePatternXX then Inl ErrInvalidNoisePattern
            else if data ! 1 \<noteq> 0 \<or> data ! 2 \<noteq> 0 \<or> data ! 3 \<noteq> 0 then Inl ErrMessageReserved
            else if length data \<noteq> HandshakeInitFixedSize then Inl ErrUnexpectedNoiseData
            else Inr \<lparr>hi_Pattern = pattern, hi_ClientEphemeral = slice 4 36 data,
                      hi_NoisePayload = drop 36 data\<rparr>))"

record handshake_response =
  hr_ServerEphemeral :: bytes
  hr_NoisePayload :: bytes

definition HandshakeResponse_MarshalBinary :: "handshake_response \<Rightarrow> bytes result" where
  "HandshakeResponse_MarshalBinary m =
     (let tot = HandshakeResponseFixedSize + length (hr_NoisePayload m)
      in if tot \<noteq> HandshakeResponseFixedSize + 64 then Inl ErrMessageLength
         else
           (let buf = replicate tot 0;
                buf = copy_at buf 0 (hr_ServerEphemeral m)
            in Inr (copy_at buf 32 (hr_NoisePayload m))))"

definition HandshakeResponse_UnmarshalBinary :: "bytes \<Rightarrow> handshake_response result" where
  "HandshakeResponse_UnmarshalBinary data =
     (if length data \<noteq> HandshakeResponseFixedSize + 64 then Inl ErrMessageLength
      else Inr \<lparr>hr_ServerEphemeral = slice 0 32 data, hr_NoisePayload = drop 32 data\<rparr>)"

record handshake_finish =
  hf_NoisePayload :: bytes

definition HandshakeFinish_MarshalBinary :: "handshake_finish \<Rightarrow> bytes result" where
  "HandshakeFinish_MarshalBinary m =
     (if length (hf_NoisePayload m) \<noteq> HandshakeFinishFixedSize then Inl ErrMessageLength
      else Inr ([] @ hf_NoisePayload m))"

definition HandshakeFinish_UnmarshalBinary :: "bytes \<Rightarrow> handshake_finish result" where
  "HandshakeFinish_UnmarshalBinary data =
     (if length data \<noteq> HandshakeFinishFixedSize then Inl ErrMessageLength
      else Inr \<lparr>hf_NoisePayload = [] @ data\<rparr>)"

end
