(* ===== verification/Message_Codecs.thy ===== *)
theory Message_Codecs
  imports Messages
begin

text \<open>
  The codec laws of the messages: every message type is an interpretation of
  \<open>wire_codec\<close> (what was encoded decodes to itself), and of \<open>canonical_codec\<close> where the
  decoder accepts exactly the encoder's bytes. Not canonical are the two TLV-backed
  messages, whose decoders ignore alignment bytes.
\<close>

section \<open>Ping and pong\<close>

lemma byte_le_1: "(b :: byte) \<le> 1 \<longleftrightarrow> b = 0 \<or> b = 1"
  by (auto simp: word_le_nat_alt word_unat_eq_iff le_Suc_eq)

lemma PingPong_MarshalBinary_eq:
  "PingPong_MarshalBinary m = Inr ((if pp_IsResponse m then 1 else 0) # le_put 8 (pp_Nonce m))"
  by (simp add: PingPong_MarshalBinary_def PutPingPong_layout)

interpretation ping_pong: canonical_codec PingPong_MarshalBinary PingPong_UnmarshalBinary "\<lambda>_. True"
proof
  fix m bs assume "PingPong_MarshalBinary m = Inr bs"
  then show "PingPong_UnmarshalBinary bs = Inr m"
    using ReadPingPong_layout [of "pp_IsResponse m" "pp_Nonce m" "[]"]
    by (cases m; cases "pp_IsResponse m") (auto simp: PingPong_MarshalBinary_eq PingPong_UnmarshalBinary_def)
next
  fix m bs assume "PingPong_UnmarshalBinary bs = Inr m"
  then have len: "length bs = 9" and b0: "bs ! 0 = 0 \<or> bs ! 0 = 1"
    and m: "m = \<lparr>pp_IsResponse = (bs ! 0 = 1), pp_Nonce = le_get (slice 1 9 bs)\<rparr>"
    by (auto simp: PingPong_UnmarshalBinary_def ReadPingPong_def not_less byte_le_1 split: if_splits)
  have "bs = slice 0 9 bs" using len by (simp add: slice_0)
  also have "\<dots> = bs ! 0 # slice 1 9 bs" using len by (simp add: slice_Cons)
  finally show "True \<and> PingPong_MarshalBinary m = Inr bs"
    using b0 m len by (auto simp: PingPong_MarshalBinary_eq le_put_get64)
qed

section \<open>Acknowledgements\<close>

lemma Ack_MarshalBinary_eq:
  "Ack_MarshalBinary m =
     (let n = length (ack_Sequences m)
      in if 1 \<le> n \<and> n \<le> 255 then Inr (of_nat n # concat (map (le_put 8) (ack_Sequences m)))
         else Inl ErrAckCount)"
  by (auto simp: Ack_MarshalBinary_def PutAck_layout Let_def Suc_le_eq)

interpretation ack: canonical_codec Ack_MarshalBinary Ack_UnmarshalBinary "\<lambda>_. True"
proof
  fix m bs assume "Ack_MarshalBinary m = Inr bs"
  then have n: "1 \<le> length (ack_Sequences m)" "length (ack_Sequences m) \<le> 255"
    and bs: "bs = of_nat (length (ack_Sequences m)) # concat (map (le_put 8) (ack_Sequences m)) @ []"
    by (auto simp: Ack_MarshalBinary_eq Let_def split: if_splits)
  have "ReadAck bs (length (ack_Sequences m)) = Inr (ack_Sequences m)"
    unfolding bs by (rule ReadAck_layout)
  moreover have "unat (bs ! 0) = length (ack_Sequences m)" using n bs by (simp add: unat_of_nat_u8)
  moreover have "length bs = AckSize (length (ack_Sequences m))" using bs by (simp add: AckSize_def)
  ultimately show "Ack_UnmarshalBinary bs = Inr m"
    using n by (auto simp: Ack_UnmarshalBinary_def AckSize_def Let_def)
next
  fix m bs assume "Ack_UnmarshalBinary bs = Inr m"
  then have n: "1 \<le> unat (bs ! 0)" "length bs = 1 + 8 * unat (bs ! 0)"
    and m: "ack_Sequences m = map (\<lambda>i. le_get (slice (1 + 8 * i) (9 + 8 * i) bs)) [0..<unat (bs ! 0)]"
    by (auto simp: Ack_UnmarshalBinary_def ReadAck_def AckSize_def Let_def split: if_splits)
  then obtain c cs where bs: "bs = c # cs" by (cases bs) auto
  have "concat (map (le_put 8) (ack_Sequences m)) = cs"
    using le_put_chunks [of cs "unat c"] n bs unfolding m
    by (simp add: slice_Cons_chunk [simplified] comp_def)
  moreover have "unat c \<le> 255" using unat_lt_256 [of c] by linarith
  ultimately show "True \<and> Ack_MarshalBinary m = Inr bs"
    using n bs m by (simp add: Ack_MarshalBinary_eq)
qed

section \<open>Rekey announcements and tickets\<close>

definition wf_rekey_init :: "rekey_init \<Rightarrow> bool" where
  [wf_defs]: "wf_rekey_init m \<longleftrightarrow> length (ri_KeyConfirm m) = 32"

lemma RekeyInit_MarshalBinary_eq:
  "wf_rekey_init m \<Longrightarrow> RekeyInit_MarshalBinary m =
     (if ri_Epoch m = 0 then Inl ErrInvalidEpoch else Inr (le_put 4 (ri_Epoch m) @ ri_KeyConfirm m))"
  by (simp add: RekeyInit_MarshalBinary_def PutRekeyInit_layout wf_defs)

interpretation rekey_init: canonical_codec RekeyInit_MarshalBinary RekeyInit_UnmarshalBinary wf_rekey_init
proof
  fix m bs assume wf: "wf_rekey_init m" and enc: "RekeyInit_MarshalBinary m = Inr bs"
  then have "ri_Epoch m \<noteq> 0" and "bs = le_put 4 (ri_Epoch m) @ ri_KeyConfirm m @ []"
    by (auto simp: RekeyInit_MarshalBinary_eq split: if_splits)
  with wf show "RekeyInit_UnmarshalBinary bs = Inr m"
    using ReadRekeyInit_layout [of "ri_KeyConfirm m" "ri_Epoch m" "[]"]
    by (simp add: RekeyInit_UnmarshalBinary_def wf_defs)
next
  fix m bs assume "RekeyInit_UnmarshalBinary bs = Inr m"
  then have len: "length bs = 36"
    and m: "m = \<lparr>ri_Epoch = le_get (slice 0 4 bs), ri_KeyConfirm = slice 4 36 bs\<rparr>"
    and nz: "ri_Epoch m \<noteq> 0"
    by (auto simp: RekeyInit_UnmarshalBinary_def ReadRekeyInit_def split: if_splits)
  have "slice 0 4 bs @ slice 4 36 bs = bs"
    using slice_join [of 0 4 36 bs] len by (simp add: slice_0)
  then show "wf_rekey_init m \<and> RekeyInit_MarshalBinary m = Inr bs"
    using len m nz by (simp add: RekeyInit_MarshalBinary_eq wf_defs le_put_get32)
qed

interpretation ticket:
  canonical_codec ResumptionTicket_MarshalBinary ResumptionTicket_UnmarshalBinary "\<lambda>_. True"
proof
  fix m bs assume "ResumptionTicket_MarshalBinary m = Inr bs"
  then have "rt_Ticket m \<noteq> []" "length (rt_Ticket m) \<le> 65471"
    and bs: "bs = rt_Ticket m @ le_put 8 (rt_ValidUntil m)"
    by (auto simp: ResumptionTicket_MarshalBinary_def PutTicket_layout split: if_splits)
  then show "ResumptionTicket_UnmarshalBinary bs = Inr m"
    using ReadTicket_layout [of "rt_Ticket m" "rt_ValidUntil m"]
    by (cases "rt_Ticket m") (auto simp: ResumptionTicket_UnmarshalBinary_def)
next
  fix m bs assume "ResumptionTicket_UnmarshalBinary bs = Inr m"
  then have len: "9 \<le> length bs" "length bs \<le> 65479"
    and m: "m = \<lparr>rt_Ticket = slice 0 (length bs - 8) bs,
                 rt_ValidUntil = le_get (slice (length bs - 8) (length bs) bs)\<rparr>"
    by (auto simp: ResumptionTicket_UnmarshalBinary_def ReadTicket_def Let_def split: if_splits)
  have "slice 0 (length bs - 8) bs @ slice (length bs - 8) (length bs) bs = bs"
    by (simp add: slice_join)
  then show "True \<and> ResumptionTicket_MarshalBinary m = Inr bs"
    using len m by (auto simp: ResumptionTicket_MarshalBinary_def PutTicket_layout le_put_get64)
qed

section \<open>Error messages\<close>

lemma ErrorMessage_MarshalBinary_eq:
  "ErrorMessage_MarshalBinary m =
     (if \<not> utf8_valid (em_Context m) then Inl ErrInvalidUTF8
      else if 65477 < length (em_Context m) then Inl ErrReasonTooLong
      else Inr (le_put 2 (em_Code m) @ em_Context m))"
  by (simp add: ErrorMessage_MarshalBinary_def Let_def fill_simps)

interpretation error_message:
  canonical_codec ErrorMessage_MarshalBinary ErrorMessage_UnmarshalBinary "\<lambda>_. True"
proof
  fix m bs assume "ErrorMessage_MarshalBinary m = Inr bs"
  then show "ErrorMessage_UnmarshalBinary bs = Inr m"
    by (cases m) (auto simp: ErrorMessage_MarshalBinary_eq ErrorMessage_UnmarshalBinary_def
        unmarshalErrorMessage_def slice_def split: if_splits)
next
  fix m bs assume "ErrorMessage_UnmarshalBinary bs = Inr m"
  then show "True \<and> ErrorMessage_MarshalBinary m = Inr bs"
    by (auto simp: ErrorMessage_MarshalBinary_eq ErrorMessage_UnmarshalBinary_def
        unmarshalErrorMessage_def le_put_get16 slice_0 split: if_splits)
qed

section \<open>Handshake wrappers\<close>

definition wf_handshake_init :: "handshake_init \<Rightarrow> bool" where
  [wf_defs]: "wf_handshake_init m \<longleftrightarrow> length (hi_ClientEphemeral m) = 32"

definition wf_handshake_response :: "handshake_response \<Rightarrow> bool" where
  [wf_defs]: "wf_handshake_response m \<longleftrightarrow> length (hr_ServerEphemeral m) = 32"

lemma replicate_36: "replicate 36 (0 :: byte) = 0 # 0 # 0 # 0 # replicate 32 0"
  by (simp add: eval_nat_numeral)

lemma HandshakeInit_MarshalBinary_eq:
  "wf_handshake_init m \<Longrightarrow> HandshakeInit_MarshalBinary m =
     (if hi_Pattern m \<noteq> 1 then Inl ErrInvalidNoisePattern
      else if hi_NoisePayload m \<noteq> [] then Inl ErrUnexpectedNoiseData
      else Inr ([1, 0, 0, 0] @ hi_ClientEphemeral m))"
  by (simp add: HandshakeInit_MarshalBinary_def Let_def wf_defs fill_simps replicate_36)

interpretation handshake_init:
  canonical_codec HandshakeInit_MarshalBinary HandshakeInit_UnmarshalBinary wf_handshake_init
proof
  fix m bs assume "wf_handshake_init m" and "HandshakeInit_MarshalBinary m = Inr bs"
  then show "HandshakeInit_UnmarshalBinary bs = Inr m"
    by (cases m) (auto simp: HandshakeInit_MarshalBinary_eq HandshakeInit_UnmarshalBinary_def wf_defs
        slice_def split: if_splits)
next
  fix m bs assume "HandshakeInit_UnmarshalBinary bs = Inr m"
  then have len: "length bs = 36" and zero: "bs ! 0 = 1" "bs ! 1 = 0" "bs ! 2 = 0" "bs ! 3 = 0"
    and m: "m = \<lparr>hi_Pattern = 1, hi_ClientEphemeral = slice 4 36 bs, hi_NoisePayload = []\<rparr>"
    by (auto simp: HandshakeInit_UnmarshalBinary_def Let_def split: if_splits)
  have "slice 0 4 bs = [1, 0, 0, 0]"
    using len zero by (simp add: slice_Cons numeral_eq_Suc)
  then have "[1, 0, 0, 0] @ slice 4 36 bs = bs"
    using slice_join [of 0 4 36 bs] slice_all [of bs] len by simp
  then show "wf_handshake_init m \<and> HandshakeInit_MarshalBinary m = Inr bs"
    using len m by (simp add: HandshakeInit_MarshalBinary_eq wf_defs)
qed

lemma HandshakeResponse_MarshalBinary_eq:
  "wf_handshake_response m \<Longrightarrow> HandshakeResponse_MarshalBinary m =
     (if length (hr_NoisePayload m) \<noteq> 64 then Inl ErrMessageLength
      else Inr (hr_ServerEphemeral m @ hr_NoisePayload m))"
  by (simp add: HandshakeResponse_MarshalBinary_def Let_def wf_defs fill_simps)

interpretation handshake_response:
  canonical_codec HandshakeResponse_MarshalBinary HandshakeResponse_UnmarshalBinary wf_handshake_response
proof
  fix m bs assume "wf_handshake_response m" and "HandshakeResponse_MarshalBinary m = Inr bs"
  then show "HandshakeResponse_UnmarshalBinary bs = Inr m"
    by (cases m) (auto simp: HandshakeResponse_MarshalBinary_eq HandshakeResponse_UnmarshalBinary_def
        wf_defs slice_def split: if_splits)
next
  fix m bs assume "HandshakeResponse_UnmarshalBinary bs = Inr m"
  then show "wf_handshake_response m \<and> HandshakeResponse_MarshalBinary m = Inr bs"
    by (auto simp: HandshakeResponse_MarshalBinary_eq HandshakeResponse_UnmarshalBinary_def
        wf_defs slice_0 split: if_splits)
qed

interpretation handshake_finish:
  canonical_codec HandshakeFinish_MarshalBinary HandshakeFinish_UnmarshalBinary "\<lambda>_. True"
  by unfold_locales
    (auto simp: HandshakeFinish_MarshalBinary_def HandshakeFinish_UnmarshalBinary_def split: if_splits)

section \<open>Application envelopes\<close>

text \<open>\<^verbatim>\<open>rejectDuplicateTLVs\<close> accepts exactly the field lists with distinct types.\<close>

lemma reject_duplicates_loop_iff:
  "reject_duplicates_loop seen fs =
     (if distinct (map t_Type fs) \<and> (\<forall>t \<in> set fs. \<not> seen (t_Type t)) then None
      else Some ErrDuplicateMessageTLV)"
  by (induction fs arbitrary: seen) (auto intro: rev_image_eqI)

lemma rejectDuplicateTLVs_iff:
  "rejectDuplicateTLVs fs = (if distinct (map t_Type fs) then None else Some ErrDuplicateMessageTLV)"
  by (simp add: rejectDuplicateTLVs_def reject_duplicates_loop_iff)

definition envelope_bytes :: "encrypted_data \<Rightarrow> bytes" where
  "envelope_bytes m =
     le_put 2 (ed_StreamID m) @ [ed_AppMessageType m, 0] @ concat (map tlv_bytes (ed_Fields m))"

lemma EncryptedData_MarshalBinary_eq:
  "EncryptedData_MarshalBinary m =
     (if \<not> distinct (map t_Type (ed_Fields m)) then Inl ErrDuplicateMessageTLV
      else case encodedTLVsLen (ed_Fields m) of
        Inl err \<Rightarrow> Inl err
      | Inr n \<Rightarrow> if 65475 < n then Inl ErrMessageLength else Inr (envelope_bytes m))"
proof -
  have buf: "copy_at (replicate 4 0) 0 (le_put 2 (ed_StreamID m)) =
      le_put 2 (ed_StreamID m) @ [0, 0]"
    by (simp add: copy_at_def numeral_eq_Suc)
  have upd: "(le_put 2 (ed_StreamID m) @ [0, 0])[2 := v] = le_put 2 (ed_StreamID m) @ [v, 0]" for v
    by (simp add: list_update_append)
  show ?thesis
  proof (cases "encodedTLVsLen (ed_Fields m)")
    case (Inr n)
    then have "n = length (concat (map tlv_bytes (ed_Fields m)))" by (simp add: encodedTLVsLen_Inr)
    with Inr show ?thesis
      by (simp add: EncryptedData_MarshalBinary_def rejectDuplicateTLVs_iff EncodeTLVs_len buf upd
          envelope_bytes_def)
  qed (simp add: EncryptedData_MarshalBinary_def rejectDuplicateTLVs_iff EncodeTLVs_len)
qed

lemma length_envelope_bytes [wire_lengths]:
  "length (envelope_bytes m) = 4 + length (concat (map tlv_bytes (ed_Fields m)))"
  by (simp add: envelope_bytes_def)

interpretation encrypted_data: wire_codec EncryptedData_MarshalBinary EncryptedData_UnmarshalBinary "\<lambda>_. True"
proof
  fix m bs assume "EncryptedData_MarshalBinary m = Inr bs"
  then have d: "distinct (map t_Type (ed_Fields m))" and bs: "bs = envelope_bytes m"
    and n: "length (concat (map tlv_bytes (ed_Fields m))) \<le> 65475" and wf: "\<forall>t \<in> set (ed_Fields m). wf_tlv t"
    by (auto simp: EncryptedData_MarshalBinary_eq encodedTLVsLen_Inr split: if_splits sum.splits)
  have "DecodeTLVs (concat (map tlv_bytes (ed_Fields m))) 65475 = Inr (ed_Fields m)"
    using n wf by (intro DecodeTLVs_EncodeTLVs) (auto simp: EncodeTLVs_iff)
  with d show "EncryptedData_UnmarshalBinary bs = Inr m"
    unfolding bs envelope_bytes_def
    by (simp add: EncryptedData_UnmarshalBinary_def rejectDuplicateTLVs_iff slice_def nth_append)
qed

text \<open>The three size computations agree: the preflight length is the length of the encoding,
  with the same error in every failing case.\<close>

lemma EncryptedData_EncodedLen_eq:
  "EncryptedData_EncodedLen m =
     (case EncryptedData_MarshalBinary m of Inl err \<Rightarrow> Inl err | Inr bs \<Rightarrow> Inr (length bs))"
proof (cases "encodedTLVsLen (ed_Fields m)")
  case (Inr n)
  then have "n = length (concat (map tlv_bytes (ed_Fields m)))" by (simp add: encodedTLVsLen_Inr)
  with Inr show ?thesis
    by (simp add: EncryptedData_EncodedLen_def EncryptedData_MarshalBinary_eq rejectDuplicateTLVs_iff
        length_envelope_bytes)
qed (simp add: EncryptedData_EncodedLen_def EncryptedData_MarshalBinary_eq rejectDuplicateTLVs_iff)

lemma NewEncryptedData_eq:
  "NewEncryptedData sid amt fs =
     (let m = \<lparr>ed_StreamID = sid, ed_AppMessageType = amt, ed_Fields = fs\<rparr>
      in case EncryptedData_MarshalBinary m of Inl err \<Rightarrow> Inl err | Inr bs \<Rightarrow> Inr m)"
proof -
  have "map (\<lambda>field. \<lparr>t_Type = t_Type field, t_Value = [] @ t_Value field\<rparr>) fs = fs"
    by (rule map_idI) simp
  then show ?thesis
    by (simp add: NewEncryptedData_def EncryptedData_EncodedLen_eq Let_def split: sum.splits)
qed

section \<open>Session close\<close>

lemma marshalTextMessage_eq:
  "marshalTextMessage code text =
     (if \<not> utf8_valid text then Inl ErrInvalidUTF8
      else if 65473 < length text then Inl ErrReasonTooLong
      else Inr (le_put 2 code @ (if text = [] then [] else tlv_bytes \<lparr>t_Type = 1, t_Value = text\<rparr>)))"
  by (simp add: marshalTextMessage_def Let_def copy_at_def NewTLV_def tlv_EncodedLen_def
      TLV_MarshalBinary_eq wf_defs)

lemma unmarshalTextMessage_eq:
  assumes "marshalTextMessage code text = Inr bs"
  shows "unmarshalTextMessage bs = Inr (code, text)"
proof (cases "text = []")
  case True
  with assms show ?thesis
    by (auto simp: marshalTextMessage_eq unmarshalTextMessage_def slice_def split: if_splits)
next
  case False
  let ?t = "\<lparr>t_Type = 1, t_Value = text\<rparr>"
  from assms False have u: "utf8_valid text" and len: "length text \<le> 65473"
    and bs: "bs = le_put 2 code @ tlv_bytes ?t"
    by (auto simp: marshalTextMessage_eq split: if_splits)
  have tl: "length (tlv_bytes ?t) \<le> 65476"
    using len pad_len_less [of "3 + length text"] by (simp add: length_tlv_bytes flip: round_up4 add: Align4_eq)
  have al: "Align4 65476 = 65476" by (simp add: Align4_eq pad_len_def)
  have "DecodeTLVs (tlv_bytes ?t) 65476 = Inr [?t]"
    using tl len by (intro DecodeTLVs_EncodeTLVs) (auto simp: EncodeTLVs_iff wf_defs)
  with u tl length_tlv_bytes_ge4 [of ?t] show ?thesis
    by (auto simp: bs unmarshalTextMessage_def al rejectDuplicateTLVs_iff slice_def)
qed

interpretation session_close: wire_codec SessionClose_MarshalBinary SessionClose_UnmarshalBinary "\<lambda>_. True"
proof
  fix m bs assume "SessionClose_MarshalBinary m = Inr bs"
  then show "SessionClose_UnmarshalBinary bs = Inr m"
    using unmarshalTextMessage_eq [of "sc_Code m" "sc_Reason m" bs]
    by (simp add: SessionClose_MarshalBinary_def SessionClose_UnmarshalBinary_def split: if_splits)
qed

end
