(* ===== verification/Codec_Properties.thy ===== *)
theory Codec_Properties
  imports Frame Message_Codecs
begin

text \<open>
  What the wire formats promise: round trips, exact acceptance, absence of run-time panics
  in the decoders on arbitrary bytes, and size accounting. The proofs rest on the
  interpretations of \<open>wire_codec\<close> and \<open>canonical_codec\<close> and on the layout lemmas of the
  component theories.
\<close>

section \<open>Decoders do not panic\<close>

lemma ReadHeader_total: "40 \<le> length data \<Longrightarrow> \<exists>raw. ReadHeader data = Inr raw"
  by (simp add: ReadHeader_def)

lemma Header_UnmarshalBinary_no_panic: "Header_UnmarshalBinary data \<noteq> Inl Panic"
proof (cases "40 \<le> length data")
  case True
  then obtain raw where "ReadHeader data = Inr raw" using ReadHeader_total by blast
  then show ?thesis
    by (auto simp: Header_UnmarshalBinary_def Let_def Header_ValidateReceive_def validateCommon_def
        split: option.splits if_splits)
qed (simp add: Header_UnmarshalBinary_def)

lemma Frame_UnmarshalBinary_no_panic: "Frame_UnmarshalBinary data \<noteq> Inl Panic"
  using Header_UnmarshalBinary_no_panic [of "slice 0 40 data"]
  by (auto simp: Frame_UnmarshalBinary_def Let_def unat_FrameSize frame_size_def split: sum.splits if_splits)

lemma DecodeTLVs_no_panic: "DecodeTLVs data maxBytes \<noteq> Inl Panic"
  using DecodeTLVs_errors [of data maxBytes Panic] by auto

lemma rejectDuplicateTLVs_error: "rejectDuplicateTLVs fs = Some e \<Longrightarrow> e = ErrDuplicateMessageTLV"
proof -
  have "reject_duplicates_loop seen fs = Some e \<Longrightarrow> e = ErrDuplicateMessageTLV" for seen
    by (induction fs arbitrary: seen) (auto split: if_splits)
  then show "rejectDuplicateTLVs fs = Some e \<Longrightarrow> e = ErrDuplicateMessageTLV"
    by (simp add: rejectDuplicateTLVs_def)
qed

lemma EncryptedData_UnmarshalBinary_no_panic: "EncryptedData_UnmarshalBinary data \<noteq> Inl Panic"
  by (auto simp: EncryptedData_UnmarshalBinary_def DecodeTLVs_no_panic
      dest: rejectDuplicateTLVs_error split: sum.splits option.splits)

lemma unmarshalTextMessage_no_panic: "unmarshalTextMessage data \<noteq> Inl Panic"
  by (auto simp: unmarshalTextMessage_def Let_def DecodeTLVs_no_panic
      dest: rejectDuplicateTLVs_error split: sum.splits option.splits)

lemma SessionClose_UnmarshalBinary_no_panic: "SessionClose_UnmarshalBinary data \<noteq> Inl Panic"
  by (auto simp: SessionClose_UnmarshalBinary_def unmarshalTextMessage_no_panic split: sum.splits)

lemma fixed_size_decoders_no_panic:
  "PingPong_UnmarshalBinary data \<noteq> Inl Panic" "Ack_UnmarshalBinary data \<noteq> Inl Panic"
  "RekeyInit_UnmarshalBinary data \<noteq> Inl Panic" "ResumptionTicket_UnmarshalBinary data \<noteq> Inl Panic"
  "ErrorMessage_UnmarshalBinary data \<noteq> Inl Panic" "HandshakeInit_UnmarshalBinary data \<noteq> Inl Panic"
  "HandshakeResponse_UnmarshalBinary data \<noteq> Inl Panic" "HandshakeFinish_UnmarshalBinary data \<noteq> Inl Panic"
  by (simp_all add: PingPong_UnmarshalBinary_def ReadPingPong_def Ack_UnmarshalBinary_def ReadAck_def
      RekeyInit_UnmarshalBinary_def ReadRekeyInit_def ResumptionTicket_UnmarshalBinary_def ReadTicket_def
      ErrorMessage_UnmarshalBinary_def unmarshalErrorMessage_def HandshakeInit_UnmarshalBinary_def
      HandshakeResponse_UnmarshalBinary_def HandshakeFinish_UnmarshalBinary_def AckSize_def Let_def
      split: sum.splits)


section \<open>Frames\<close>

text \<open>C21: the frame decoder accepts exactly the byte strings that are the wire form (header
  fields in order, payload, tag where the type has one, padding) of a frame that passes
  receive validation, and returns that frame.\<close>

theorem frame_decoder_exact:
  "Frame_UnmarshalBinary data = Inr f \<longleftrightarrow>
     wf_frame f \<and> Frame_ValidateReceive f = None \<and> received_frame f = f
     \<and> data = header_bytes (f_Header f) @ frame_body f"
  using Frame_UnmarshalBinary_Inr [of data f] Frame_UnmarshalBinary_bytes [of f] by auto

text \<open>C20: a frame that marshals is decoded by the peer to the same frame (a handshake
  frame's unused tag is not transmitted), and its encoding has the length the header
  announces, at most 65535 bytes.\<close>

theorem frame_roundtrip:
  assumes "wf_frame f" and "Frame_MarshalBinary f = Inr bs"
  shows "Frame_UnmarshalBinary bs = Inr (received_frame f) \<and> length bs = unat (FrameSize (f_Header f))
    \<and> length bs \<le> 65535"
proof -
  have ok: "Frame_Validate f = None" and bs: "bs = header_bytes (f_Header f) @ frame_body f"
    using assms by (auto simp: Frame_MarshalBinary_eq split: option.splits)
  have "validateLengths f = None" "frame_size (f_Header f) \<le> 65535"
    using ok by (auto simp: Frame_Validate_None Header_Validate_None validateCommon_None)
  moreover have "length (header_bytes (f_Header f)) = 40"
    using assms(1) by (intro length_header_bytes) (simp add: wf_defs)
  ultimately show ?thesis
    using Frame_UnmarshalBinary_bytes [OF assms(1) Frame_Validate_receive [OF ok]] length_frame_body [OF assms(1)] bs
    by (simp add: unat_FrameSize)
qed

definition sample_frame :: frame where
  "sample_frame = \<lparr>f_Header = NewHeader 4 (replicate 16 7) 1 2 1, f_Payload = [1, 2],
     f_Tag = replicate 16 9, f_Padding = [5]\<rparr>"

lemma sample_frame_marshals:
  "Frame_MarshalBinary sample_frame = Inr (header_bytes (f_Header sample_frame) @ frame_body sample_frame)"
proof -
  have "Frame_Validate sample_frame = None"
    by (simp add: sample_frame_def Frame_Validate_None NewHeader_Validate frame_size_def validateLengths_def)
  then show ?thesis
    by (subst Frame_MarshalBinary_eq) (simp_all add: sample_frame_def wf_frame_def)
qed

theorem frame_roundtrip_witness:
  "\<exists>bs. Frame_MarshalBinary sample_frame = Inr bs \<and> Frame_UnmarshalBinary bs = Inr sample_frame
     \<and> length bs = 59"
proof -
  have wf: "wf_frame sample_frame" by (simp add: sample_frame_def wf_frame_def)
  have "received_frame sample_frame = sample_frame" "unat (FrameSize (f_Header sample_frame)) = 59"
    by (simp_all add: received_frame_def sample_frame_def unat_FrameSize frame_size_def)
  with frame_roundtrip [OF wf sample_frame_marshals] sample_frame_marshals show ?thesis by simp
qed

section \<open>TLV sequences\<close>

text \<open>C22: \<^verbatim>\<open>DecodeTLVs\<close> accepts exactly the byte strings of the TLV grammar (type byte,
  little-endian length, value, arbitrary bytes up to the next multiple of four) within
  both length limits, and returns the fields in order.\<close>

theorem tlv_decoder_exact:
  "DecodeTLVs data maxBytes = Inr ts \<longleftrightarrow>
     length data \<le> 65535 \<and> (maxBytes \<le> 0 \<or> int (length data) \<le> maxBytes) \<and> tlv_seq data ts"
  by (rule DecodeTLVs_iff)

text \<open>C24: encoding and decoding a field list gives it back; and decoding and encoding again
  keeps every field and the length, normalising alignment bytes only.\<close>

theorem tlv_roundtrip:
  "(EncodeTLVs ts = Inr bs \<longrightarrow> DecodeTLVs bs 0 = Inr ts)
   \<and> (DecodeTLVs data 0 = Inr us \<longrightarrow>
        (\<exists>cs. EncodeTLVs us = Inr cs \<and> length cs = length data \<and> DecodeTLVs cs 0 = Inr us))"
  using tlv_codec.dec_enc [of ts bs] EncodeTLVs_DecodeTLVs [of data 0 us] by blast

definition sample_fields :: "tlv list" where
  "sample_fields = [\<lparr>t_Type = 1, t_Value = [10, 11]\<rparr>, \<lparr>t_Type = 2, t_Value = []\<rparr>]"

theorem tlv_roundtrip_witness:
  "\<exists>bs. EncodeTLVs sample_fields = Inr bs \<and> DecodeTLVs bs 0 = Inr sample_fields
     \<and> (\<exists>cs. EncodeTLVs sample_fields = Inr cs \<and> length cs = length bs)"
proof -
  let ?bs = "concat (map tlv_bytes sample_fields)"
  have enc: "EncodeTLVs sample_fields = Inr ?bs"
    by (simp add: EncodeTLVs_iff sample_fields_def wf_tlv_def tlv_bytes_def tlv_image_def pad_len_def)
  from tlv_roundtrip [of sample_fields ?bs ?bs sample_fields] enc show ?thesis by blast
qed

text \<open>C23: \<^verbatim>\<open>EncodeTLVs\<close> succeeds exactly on fields whose values fit 16-bit lengths and whose
  aligned encodings total at most 65535 bytes; the length accounting that rejects the
  others agrees with the bytes written.\<close>

theorem tlv_encoder_exact:
  "EncodeTLVs ts = Inr bs \<longleftrightarrow>
     (\<forall>t \<in> set ts. wf_tlv t) \<and> bs = concat (map tlv_bytes ts) \<and> length bs \<le> 65535"
  by (rule EncodeTLVs_iff)

lemma le_put_2_2: "le_put 2 (2 :: u16) = [2, 0]"
  by code_simp

lemma sample_tlv_bytes: "tlv_bytes \<lparr>t_Type = 1, t_Value = [10, 11]\<rparr> = [1, 2, 0, 10, 11, 0, 0, 0]"
proof -
  have "replicate 3 0 = [0, 0, 0 :: byte]" by (simp add: numeral_3_eq_3)
  then show ?thesis by (simp add: tlv_bytes_def tlv_image_def pad_len_def le_put_2_2)
qed

theorem tlv_encoder_exact_witness:
  "EncodeTLVs [\<lparr>t_Type = 1, t_Value = [10, 11]\<rparr>] = Inr [1, 2, 0, 10, 11, 0, 0, 0]"
  unfolding tlv_encoder_exact by (simp add: wf_tlv_def sample_tlv_bytes)

section \<open>Messages\<close>

text \<open>C25: the fixed-layout messages are canonical: a decoder accepts exactly the bytes the
  encoder produces for the value it returns, so no two byte strings mean the same message.\<close>

theorem messages_canonical:
  "(PingPong_UnmarshalBinary bs = Inr p \<longleftrightarrow> PingPong_MarshalBinary p = Inr bs)
   \<and> (Ack_UnmarshalBinary bs = Inr a \<longleftrightarrow> Ack_MarshalBinary a = Inr bs)
   \<and> (RekeyInit_UnmarshalBinary bs = Inr r \<longleftrightarrow> wf_rekey_init r \<and> RekeyInit_MarshalBinary r = Inr bs)
   \<and> (ResumptionTicket_UnmarshalBinary bs = Inr t \<longleftrightarrow> ResumptionTicket_MarshalBinary t = Inr bs)
   \<and> (ErrorMessage_UnmarshalBinary bs = Inr e \<longleftrightarrow> ErrorMessage_MarshalBinary e = Inr bs)
   \<and> (HandshakeInit_UnmarshalBinary bs = Inr hi \<longleftrightarrow> wf_handshake_init hi \<and> HandshakeInit_MarshalBinary hi = Inr bs)
   \<and> (HandshakeResponse_UnmarshalBinary bs = Inr hr \<longleftrightarrow>
        wf_handshake_response hr \<and> HandshakeResponse_MarshalBinary hr = Inr bs)
   \<and> (HandshakeFinish_UnmarshalBinary bs = Inr hf \<longleftrightarrow> HandshakeFinish_MarshalBinary hf = Inr bs)"
  by (intro conjI ping_pong.accepts_iff [simplified] ack.accepts_iff [simplified] rekey_init.accepts_iff
      ticket.accepts_iff [simplified] error_message.accepts_iff [simplified] handshake_init.accepts_iff
      handshake_response.accepts_iff handshake_finish.accepts_iff [simplified])

text \<open>C26: application envelopes and session-close messages decode to the message that was
  encoded, and \<^verbatim>\<open>EncodedLen\<close> predicts the exact length of an envelope's encoding, failing
  exactly where the encoder fails.\<close>

theorem envelope_roundtrip:
  "(EncryptedData_MarshalBinary m = Inr bs \<longrightarrow>
      EncryptedData_UnmarshalBinary bs = Inr m \<and> EncryptedData_EncodedLen m = Inr (length bs))
   \<and> (EncryptedData_MarshalBinary m = Inl e \<longleftrightarrow> EncryptedData_EncodedLen m = Inl e)
   \<and> (SessionClose_MarshalBinary c = Inr cs \<longrightarrow> SessionClose_UnmarshalBinary cs = Inr c)"
  using encrypted_data.dec_enc [of m bs] session_close.dec_enc [of c cs]
  by (auto simp: EncryptedData_EncodedLen_eq split: sum.splits)

definition sample_envelope :: encrypted_data where
  "sample_envelope = \<lparr>ed_StreamID = 5, ed_AppMessageType = 6, ed_Fields = sample_fields\<rparr>"

lemma sample_envelope_marshals:
  "EncryptedData_MarshalBinary sample_envelope = Inr (envelope_bytes sample_envelope)"
proof -
  have "encodedTLVsLen sample_fields = Inr 12"
    by (simp add: encodedTLVsLen_def sample_fields_def CheckCount_def AddLen_def Align4_eq pad_len_def)
  then show ?thesis
    by (simp add: EncryptedData_MarshalBinary_eq sample_envelope_def) (simp add: sample_fields_def)
qed

lemma sample_close_marshals:
  "SessionClose_MarshalBinary \<lparr>sc_Code = 1, sc_Reason = []\<rparr> = Inr [1, 0]"
  by (simp add: SessionClose_MarshalBinary_def marshalTextMessage_eq) code_simp

theorem envelope_roundtrip_witness:
  "\<exists>bs. EncryptedData_MarshalBinary sample_envelope = Inr bs
     \<and> EncryptedData_UnmarshalBinary bs = Inr sample_envelope
     \<and> SessionClose_UnmarshalBinary [1, 0] = Inr \<lparr>sc_Code = 1, sc_Reason = []\<rparr>"
proof -
  show ?thesis
    using sample_envelope_marshals sample_close_marshals
      envelope_roundtrip [of sample_envelope "envelope_bytes sample_envelope" Panic
        "\<lparr>sc_Code = 1, sc_Reason = []\<rparr>" "[1, 0]"] by blast
qed

end
