(* ===== verification/Sha256.thy ===== *)
theory Sha256
  imports Prelude
begin

text \<open>
  Go's \<^verbatim>\<open>crypto/sha256\<close> and \<^verbatim>\<open>crypto/hmac\<close>, as far as the program uses them:
  \<^verbatim>\<open>sha256.Sum256\<close> (FIPS 180-4) and HMAC-SHA256 (FIPS 198-1, RFC 2104) of a byte string.
  Both are executable. What the protocol code relies on is that they are functions with
  32-byte results.
\<close>

section \<open>SHA-256\<close>

text \<open>The round constants and the initial state, in decimal.\<close>

definition sha256_K :: "u32 list" where
  "sha256_K = [
     1116352408, 1899447441, 3049323471, 3921009573, 961987163, 1508970993, 2453635748, 2870763221,
     3624381080, 310598401, 607225278, 1426881987, 1925078388, 2162078206, 2614888103, 3248222580,
     3835390401, 4022224774, 264347078, 604807628, 770255983, 1249150122, 1555081692, 1996064986,
     2554220882, 2821834349, 2952996808, 3210313671, 3336571891, 3584528711, 113926993, 338241895,
     666307205, 773529912, 1294757372, 1396182291, 1695183700, 1986661051, 2177026350, 2456956037,
     2730485921, 2820302411, 3259730800, 3345764771, 3516065817, 3600352804, 4094571909, 275423344,
     430227734, 506948616, 659060556, 883997877, 958139571, 1322822218, 1537002063, 1747873779,
     1955562222, 2024104815, 2227730452, 2361852424, 2428436474, 2756734187, 3204031479, 3329325298]"

definition sha256_H0 :: "u32 list" where
  "sha256_H0 = [
     1779033703, 3144134277, 1013904242, 2773480762, 1359893119, 2600822924, 528734635, 1541459225]"

definition be_get32 :: "bytes \<Rightarrow> u32" where
  "be_get32 bs = le_get (rev bs)"

definition be_put32 :: "u32 \<Rightarrow> bytes" where
  "be_put32 w = rev (le_put 4 w)"

text \<open>Padding to a multiple of 64 bytes: \<^verbatim>\<open>0x80\<close>, zeros, and the bit length in 8
  big-endian bytes.\<close>

definition sha256_pad :: "bytes \<Rightarrow> bytes" where
  "sha256_pad m =
     m @ 0x80 # replicate ((119 - length m mod 64) mod 64) 0
       @ rev (le_put 8 (of_nat (8 * length m) :: u64))"

fun chunks :: "nat \<Rightarrow> nat \<Rightarrow> bytes \<Rightarrow> bytes list" where
  "chunks n 0 m = []"
| "chunks n (Suc k) m = take n m # chunks n k (drop n m)"

text \<open>The message schedule, kept newest first: word \<open>t\<close> is computed from the words
  \<open>t-2\<close>, \<open>t-7\<close>, \<open>t-15\<close> and \<open>t-16\<close>.\<close>

fun sha256_expand :: "nat \<Rightarrow> u32 list \<Rightarrow> u32 list" where
  "sha256_expand 0 ws = ws"
| "sha256_expand (Suc k) ws =
     (let w2 = ws ! 1; w15 = ws ! 14;
          t1 = word_rotr 17 w2 XOR word_rotr 19 w2 XOR drop_bit 10 w2;
          t2 = word_rotr 7 w15 XOR word_rotr 18 w15 XOR drop_bit 3 w15
      in sha256_expand k ((t1 + ws ! 6 + t2 + ws ! 15) # ws))"

definition sha256_schedule :: "bytes \<Rightarrow> u32 list" where
  "sha256_schedule p = rev (sha256_expand 48 (rev (map be_get32 (chunks 4 16 p))))"

type_synonym sha256_state = "u32 \<times> u32 \<times> u32 \<times> u32 \<times> u32 \<times> u32 \<times> u32 \<times> u32"

fun sha256_round :: "sha256_state \<Rightarrow> u32 \<times> u32 \<Rightarrow> sha256_state" where
  "sha256_round (a, b, c, d, e, f, g, h) (k, w) =
     (let t1 = h + (word_rotr 6 e XOR word_rotr 11 e XOR word_rotr 25 e)
                 + ((e AND f) XOR (NOT e AND g)) + k + w;
          t2 = (word_rotr 2 a XOR word_rotr 13 a XOR word_rotr 22 a)
                 + ((a AND b) XOR (a AND c) XOR (b AND c))
      in (t1 + t2, a, b, c, d + t1, e, f, g))"

fun sha256_block :: "sha256_state \<Rightarrow> bytes \<Rightarrow> sha256_state" where
  "sha256_block (h0, h1, h2, h3, h4, h5, h6, h7) p =
     (case foldl sha256_round (h0, h1, h2, h3, h4, h5, h6, h7) (zip sha256_K (sha256_schedule p)) of
        (a, b, c, d, e, f, g, h) \<Rightarrow>
          (h0 + a, h1 + b, h2 + c, h3 + d, h4 + e, h5 + f, h6 + g, h7 + h))"

definition sha256_init :: sha256_state where
  "sha256_init = (sha256_H0 ! 0, sha256_H0 ! 1, sha256_H0 ! 2, sha256_H0 ! 3,
                  sha256_H0 ! 4, sha256_H0 ! 5, sha256_H0 ! 6, sha256_H0 ! 7)"

fun sha256_digest :: "sha256_state \<Rightarrow> bytes" where
  "sha256_digest (a, b, c, d, e, f, g, h) = concat (map be_put32 [a, b, c, d, e, f, g, h])"

definition Sum256 :: "bytes \<Rightarrow> bytes" where
  "Sum256 m =
     (let p = sha256_pad m
      in sha256_digest (foldl sha256_block sha256_init (chunks 64 (length p div 64) p)))"

lemma pad_to_64:
  assumes "r < (64 :: nat)"
  shows "(r + ((119 - r) mod 64 + 9)) mod 64 = 0"
proof (cases "r < 56")
  case True
  then have "119 - r = 64 + (55 - r)" by simp
  then have "(119 - r) mod 64 = 55 - r" by (simp only: mod_add_self1) simp
  with True show ?thesis by simp
next
  case False
  then have "(119 - r) mod 64 = 119 - r" by simp
  with False assms show ?thesis by simp
qed

lemma length_padded: "length (m @ (b :: byte) # replicate z 0 @ rev (le_put 8 x)) = length m + (z + 9)"
  by simp

lemma length_sha256_pad: "64 dvd length (sha256_pad m)"
  unfolding sha256_pad_def length_padded dvd_eq_mod_eq_0
  using pad_to_64 [OF mod_less_divisor, of "length m"] by (simp only: mod_add_left_eq zero_less_numeral)

lemma length_sha256_digest: "length (sha256_digest st) = 32"
  by (induct st rule: sha256_digest.induct) (simp add: be_put32_def)

lemma length_Sum256 [simp, wire_lengths]: "length (Sum256 m) = 32"
  by (simp add: Sum256_def Let_def length_sha256_digest)

section \<open>HMAC-SHA256\<close>

definition hmac_key :: "bytes \<Rightarrow> bytes" where
  "hmac_key key = (let k = (if length key > 64 then Sum256 key else key)
                   in k @ replicate (64 - length k) 0)"

definition hmac_sha256 :: "bytes \<Rightarrow> bytes \<Rightarrow> bytes" where
  "hmac_sha256 key m =
     Sum256 (map (\<lambda>b. b XOR 0x5c) (hmac_key key)
       @ Sum256 (map (\<lambda>b. b XOR 0x36) (hmac_key key) @ m))"

lemma length_hmac_sha256 [simp, wire_lengths]: "length (hmac_sha256 key m) = 32"
  by (simp add: hmac_sha256_def)

lemma length_hmac_key: "length (hmac_key key) = 64"
  by (simp add: hmac_key_def Let_def)

text \<open>A string literal of the source as its bytes.\<close>

definition str :: "string \<Rightarrow> bytes" where
  "str s = map (\<lambda>c. of_nat (of_char c)) s"

lemma length_str [simp]: "length (str s) = length s"
  by (simp add: str_def)

end
