(* ===== verification/Crypto.thy ===== *)
theory Crypto
  imports Frame Sha256
begin

text \<open>
  \<^verbatim>\<open>crypto.go\<close> and \<^verbatim>\<open>rekey.go\<close>: the stateless frame cipher, the nonce, the key ratchet and the
  rekey confirmation.

  ChaCha20-Poly1305 itself is \<^verbatim>\<open>golang.org/x/crypto/chacha20poly1305\<close>, a third-party package,
  so it is a parameter: the record \<open>aead\<close> has its constructor and the two methods of
  \<^verbatim>\<open>cipher.AEAD\<close> over an unspecified instance type \<open>'c\<close>. \<open>aead_ok\<close> collects what its
  documentation states: a 32-byte key is accepted; sealing appends a 16-byte tag; opening
  inverts sealing under the same nonce and associated data; opening recomputes the
  deterministic encryption, so it succeeds only on what sealing produces. Entropy is the
  list of bytes \<^verbatim>\<open>rand.Reader\<close> delivers during the call; a short list is a failing reader.
\<close>

section \<open>The AEAD parameter\<close>

record 'c aead =
  aead_New :: "bytes \<Rightarrow> 'c result"
  aead_Seal :: "'c \<Rightarrow> bytes \<Rightarrow> bytes \<Rightarrow> bytes \<Rightarrow> bytes" \<comment> \<open>nonce, plaintext, associated data\<close>
  aead_Open :: "'c \<Rightarrow> bytes \<Rightarrow> bytes \<Rightarrow> bytes \<Rightarrow> bytes result" \<comment> \<open>nonce, ciphertext, associated data\<close>

definition aead_ok :: "'c aead \<Rightarrow> bool" where
  "aead_ok A \<longleftrightarrow>
     (\<forall>key. length key = 32 \<longrightarrow> (\<exists>c. aead_New A key = Inr c))
     \<and> (\<forall>c n p a. length (aead_Seal A c n p a) = length p + 16)
     \<and> (\<forall>c n p a. aead_Open A c n (aead_Seal A c n p a) a = Inr p)
     \<and> (\<forall>c n s a p. aead_Open A c n s a = Inr p \<longrightarrow> s = aead_Seal A c n p a)"

lemma aead_okD:
  assumes "aead_ok A"
  shows "length key = 32 \<Longrightarrow> \<exists>c. aead_New A key = Inr c"
    and "length (aead_Seal A c n p a) = length p + 16"
    and "aead_Open A c n (aead_Seal A c n p a) a = Inr p"
    and "aead_Open A c n s a = Inr p \<Longrightarrow> s = aead_Seal A c n p a"
  using assms by (simp_all add: aead_ok_def)

section \<open>crypto.go\<close>

definition KeySize :: nat where [simp]: "KeySize = 32"
definition CipherChaCha20Poly1305 :: u8 where [simp]: "CipherChaCha20Poly1305 = 1"
definition CipherAES256GCM :: u8 where [simp]: "CipherAES256GCM = 2"

definition NewCodec :: "'c aead \<Rightarrow> u8 \<Rightarrow> bytes \<Rightarrow> 'c result" where
  "NewCodec A suite key =
     (if suite \<noteq> CipherChaCha20Poly1305 then Inl ErrUnsupportedCipher
      else if length key \<noteq> KeySize then Inl ErrInvalidKeySize
      else aead_New A key)"

definition nonce :: "u64 \<Rightarrow> bytes" where
  "nonce sequence = copy_at (replicate 12 0) 4 (le_put 8 sequence)"

definition validateEncryptedHeader :: "u8 \<Rightarrow> bytes \<Rightarrow> u64 \<Rightarrow> dg_error option" where
  "validateEncryptedHeader messageType sessionID sequence =
     (if messageType < MessageTypeEncryptedData \<or> messageType > MessageTypeError
         \<or> messageType = MessageTypeResumptionTicket then Some ErrUnencryptedType
      else if sequence = 0 then Some ErrInvalidSequence
      else if sessionID = replicate 16 0 then Some ErrInvalidSessionID
      else None)"

text \<open>\<^verbatim>\<open>io.ReadFull\<close> into a buffer of the given length.\<close>

definition ReadFull :: "bytes \<Rightarrow> nat \<Rightarrow> bytes result" where
  "ReadFull reader n =
     (if n \<le> length reader then Inr (take n reader)
      else if reader = [] then Inl EOF
      else Inl ErrUnexpectedEOF)"

definition randomBytes :: "bytes \<Rightarrow> int \<Rightarrow> bytes result" where
  "randomBytes reader len =
     (if len < 0 \<or> len > 255 then Inl ErrPaddingLength else ReadFull reader (nat len))"

definition Codec_Encrypt ::
  "'c aead \<Rightarrow> 'c \<Rightarrow> bytes \<Rightarrow> u8 \<Rightarrow> bytes \<Rightarrow> u64 \<Rightarrow> bytes \<Rightarrow> u8 \<Rightarrow> frame result" where
  "Codec_Encrypt A c reader messageType sessionID sequence plaintext padLength =
     (case validateEncryptedHeader messageType sessionID sequence of
        Some err \<Rightarrow> Inl err
      | None \<Rightarrow>
          if HeaderSize + length plaintext + AEADTagSize + unat padLength > MaxFrameSize
          then Inl ErrPayloadTooLarge
          else
            (let header = NewHeader messageType sessionID sequence (of_nat (length plaintext)) padLength
             in case Header_MarshalBinary header of
                  Inl err \<Rightarrow> Inl err
                | Inr headerBytes \<Rightarrow>
                    (case randomBytes reader (uint padLength) of
                       Inl err \<Rightarrow> Inl err
                     | Inr padding \<Rightarrow>
                         (let aad = headerBytes @ padding;
                              sealed = aead_Seal A c (nonce sequence) plaintext aad
                          in if length sealed < length plaintext then Inl Panic
                             else NewFrame messageType sessionID sequence (take (length plaintext) sealed)
                                    (drop (length plaintext) sealed) padding))))"

definition Codec_Decrypt :: "'c aead \<Rightarrow> 'c \<Rightarrow> frame \<Rightarrow> bytes result" where
  "Codec_Decrypt A c f =
     (case Frame_ValidateReceive f of
        Some err \<Rightarrow> Inl err
      | None \<Rightarrow>
          (case validateEncryptedHeader (h_MessageType (f_Header f)) (h_SessionID (f_Header f))
                  (h_Sequence (f_Header f)) of
             Some err \<Rightarrow> Inl err
           | None \<Rightarrow>
               (case marshalBinary (f_Header f) False of
                  Inl err \<Rightarrow> Inl err
                | Inr headerBytes \<Rightarrow>
                    (let aad = headerBytes @ f_Padding f;
                         sealed = f_Payload f @ f_Tag f
                     in case aead_Open A c (nonce (h_Sequence (f_Header f))) sealed aad of
                          Inl err \<Rightarrow> Inl ErrAuthentication
                        | Inr plaintext \<Rightarrow> Inr plaintext))))"

section \<open>rekey.go\<close>

definition DefaultRekeyFrameLimit :: u64 where "DefaultRekeyFrameLimit = push_bit 32 1"
definition DefaultRekeyInterval :: time where "DefaultRekeyInterval = 600000000000"
definition DefaultRekeyGraceFrames :: u64 where "DefaultRekeyGraceFrames = 2048"
definition DefaultRekeyGracePeriod :: time where "DefaultRekeyGracePeriod = 30000000000"

record rekey_state =
  rs_Epoch :: u32

definition NewRekeyState :: rekey_state where
  "NewRekeyState = \<lparr>rs_Epoch = 1\<rparr>"

text \<open>The receiver is a pointer: \<open>None\<close> is a nil receiver.\<close>

definition ComputeKeyConfirm :: "rekey_state option \<Rightarrow> bytes \<Rightarrow> u32 \<Rightarrow> bytes result" where
  "ComputeKeyConfirm r secret epoch =
     (case r of
        None \<Rightarrow> Inl ErrEpochExhausted
      | Some st \<Rightarrow>
          if rs_Epoch st = - 1 then Inl ErrEpochExhausted
          else if rs_Epoch st = 0 then Inl ErrInvalidEpoch
          else if epoch \<noteq> rs_Epoch st + 1 then Inl ErrInvalidEpoch
          else Inr (copy_at (replicate 32 0) 0
                     (hmac_sha256 secret (str ''DGPv1 Rekey Confirm'' @ le_put 4 epoch))))"

definition DeriveNextKeys :: "bytes \<Rightarrow> (bytes \<times> bytes) result" where
  "DeriveNextKeys currentSecret =
     (if length currentSecret \<noteq> KeySize then Inl ErrInvalidKeySize
      else Inr (hmac_sha256 currentSecret (str ''DGPv1 Rekey Send Key''),
                hmac_sha256 currentSecret (str ''DGPv1 Rekey Receive Key'')))"

definition deriveNextTrafficKey :: "bytes \<Rightarrow> bytes" where
  "deriveNextTrafficKey current =
     (let next = (case DeriveNextKeys current of Inl _ \<Rightarrow> [] | Inr (send, receive) \<Rightarrow> send)
      in copy_at (replicate KeySize 0) 0 next)"

section \<open>Nonces and keys\<close>

lemma nonce_eq: "nonce sequence = replicate 4 0 @ le_put 8 sequence"
  by (simp add: nonce_def copy_at_def)

lemma length_nonce [simp]: "length (nonce sequence) = 12"
  by (simp add: nonce_eq)

lemma nonce_inject [simp]: "nonce s = nonce t \<longleftrightarrow> s = t"
proof
  assume "nonce s = nonce t"
  then have "le_get (le_put 8 s) = (le_get (le_put 8 t) :: u64)" by (simp add: nonce_eq)
  then show "s = t" by simp
qed simp

lemma deriveNextTrafficKey_eq:
  "length key = 32 \<Longrightarrow> deriveNextTrafficKey key = hmac_sha256 key (str ''DGPv1 Rekey Send Key'')"
  by (simp add: deriveNextTrafficKey_def DeriveNextKeys_def copy_at_def)

lemma length_deriveNextTrafficKey [simp]: "length (deriveNextTrafficKey key) = 32"
  by (simp add: deriveNextTrafficKey_def DeriveNextKeys_def copy_at_def)

lemma ComputeKeyConfirm_Inr:
  "ComputeKeyConfirm (Some st) secret epoch = Inr confirm \<longleftrightarrow>
     rs_Epoch st \<noteq> - 1 \<and> rs_Epoch st \<noteq> 0 \<and> epoch = rs_Epoch st + 1
     \<and> confirm = hmac_sha256 secret (str ''DGPv1 Rekey Confirm'' @ le_put 4 epoch)"
  by (auto simp: ComputeKeyConfirm_def copy_at_def)

lemma NewCodec_ok: "aead_ok A \<Longrightarrow> length key = 32 \<Longrightarrow> \<exists>c. NewCodec A 1 key = Inr c"
  by (simp add: NewCodec_def aead_okD(1))

lemma NewCodec_Inr: "NewCodec A suite key = Inr c \<longleftrightarrow> suite = 1 \<and> length key = 32 \<and> aead_New A key = Inr c"
  by (auto simp: NewCodec_def)

section \<open>Encryption and decryption\<close>

lemma validateEncryptedHeader_None:
  "validateEncryptedHeader mt sid sq = None \<longleftrightarrow>
     3 \<le> mt \<and> mt \<le> 9 \<and> mt \<noteq> 7 \<and> sq \<noteq> 0 \<and> sid \<noteq> replicate 16 0"
  by (auto simp: validateEncryptedHeader_def not_less)

lemma encrypted_type_tagged: "validateEncryptedHeader mt sid sq = None \<Longrightarrow> mt \<noteq> 1 \<and> mt \<noteq> 2"
  by (auto simp: validateEncryptedHeader_None word_le_nat_alt)

lemma frame_size_encrypted:
  assumes "mt \<noteq> 1 \<and> mt \<noteq> 2" and "n \<le> 65535"
  shows "frame_size (NewHeader mt sid sq (of_nat n) pad) = 40 + n + 16 + unat pad"
proof -
  have "unat (of_nat n :: u32) = n" using assms(2) by (simp add: unat_of_nat_u32)
  then show ?thesis using assms(1) by (simp add: frame_size_def)
qed

lemma randomBytes_Inr:
  "randomBytes reader (uint (pad :: u8)) = Inr padding \<longleftrightarrow>
     unat pad \<le> length reader \<and> padding = take (unat pad) reader"
proof -
  have "0 \<le> uint pad" "uint pad < 256" using unsigned_less [of pad, where ?'a = int] by simp_all
  then show ?thesis by (auto simp: randomBytes_def ReadFull_def)
qed

text \<open>What \<^verbatim>\<open>Encrypt\<close> returns, and exactly when it succeeds.\<close>

definition sealed_frame :: "'c aead \<Rightarrow> 'c \<Rightarrow> u8 \<Rightarrow> bytes \<Rightarrow> u64 \<Rightarrow> bytes \<Rightarrow> bytes \<Rightarrow> frame" where
  "sealed_frame A c mt sid sq plaintext padding =
     (let h = NewHeader mt sid sq (of_nat (length plaintext)) (of_nat (length padding));
          sealed = aead_Seal A c (nonce sq) plaintext (header_bytes h @ padding)
      in \<lparr>f_Header = h, f_Payload = take (length plaintext) sealed,
          f_Tag = drop (length plaintext) sealed, f_Padding = padding\<rparr>)"

lemma NewFrame_sealed:
  assumes "mt \<noteq> 1 \<and> mt \<noteq> 2" and "length tag = 16" and "length padding \<le> 255"
    and "40 + length payload + 16 + length padding \<le> 65535"
  shows "NewFrame mt sid sq payload tag padding =
    Inr \<lparr>f_Header = NewHeader mt sid sq (of_nat (length payload)) (of_nat (length padding)),
         f_Payload = payload, f_Tag = tag, f_Padding = padding\<rparr>"
  using assms frame_size_encrypted [OF assms(1), of "length payload" sid sq "of_nat (length padding)"]
  by (simp add: NewFrame_def Let_def copy_at_def unat_of_nat_u8)

lemma Codec_Encrypt_eq:
  assumes A: "aead_ok A" and sid: "length sid = 16"
  shows "Codec_Encrypt A c reader mt sid sq p pad =
    (case validateEncryptedHeader mt sid sq of
       Some err \<Rightarrow> Inl err
     | None \<Rightarrow>
         if 40 + length p + 16 + unat pad > 65535 then Inl ErrPayloadTooLarge
         else case randomBytes reader (uint pad) of
           Inl err \<Rightarrow> Inl err
         | Inr padding \<Rightarrow> Inr (sealed_frame A c mt sid sq p padding))"
proof (cases "validateEncryptedHeader mt sid sq = None \<and> \<not> 40 + length p + 16 + unat pad > 65535")
  case True
  let ?h = "NewHeader mt sid sq (of_nat (length p)) pad"
  have mt: "mt \<noteq> 1 \<and> mt \<noteq> 2" using True encrypted_type_tagged by blast
  have "frame_size ?h \<le> 65535" using True frame_size_encrypted [OF mt, of "length p" sid sq pad] by simp
  then have "Header_Validate ?h = None" by (rule NewHeader_Validate)
  then have hb: "Header_MarshalBinary ?h = Inr (header_bytes ?h)"
    using sid by (simp add: Header_MarshalBinary_def marshalBinary_eq)
  show ?thesis
  proof (cases "randomBytes reader (uint pad)")
    case (Inr padding)
    then have pad: "length padding = unat pad" by (auto simp: randomBytes_Inr)
    have "unat pad \<le> 255" using unat_lt_256 [of pad] by linarith
    moreover have "of_nat (unat pad) = pad" by simp
    ultimately show ?thesis
      using True Inr hb aead_okD(2) [OF A] pad mt
      by (simp add: Codec_Encrypt_def Let_def NewFrame_sealed sealed_frame_def del: unat_lt_256)
  qed (use True hb in \<open>simp add: Codec_Encrypt_def Let_def\<close>)
qed (auto simp: Codec_Encrypt_def split: option.splits)

lemma sealed_frame_Header [simp]:
  "f_Header (sealed_frame A c mt sid sq p padding) =
     NewHeader mt sid sq (of_nat (length p)) (of_nat (length padding))"
  "f_Padding (sealed_frame A c mt sid sq p padding) = padding"
  by (simp_all add: sealed_frame_def Let_def)

lemma sealed_frame_valid:
  assumes A: "aead_ok A" and sid: "length sid = 16" and mt: "mt \<noteq> 1 \<and> mt \<noteq> 2"
    and size: "40 + length p + 16 + length padding \<le> 65535" and pad: "length padding \<le> 255"
  shows "wf_frame (sealed_frame A c mt sid sq p padding)"
    and "Frame_Validate (sealed_frame A c mt sid sq p padding) = None"
    and "received_frame (sealed_frame A c mt sid sq p padding) = sealed_frame A c mt sid sq p padding"
proof -
  let ?h = "NewHeader mt sid sq (of_nat (length p)) (of_nat (length padding))"
  have "frame_size ?h \<le> 65535"
    using frame_size_encrypted [OF mt, of "length p" sid sq "of_nat (length padding)"] size pad
    by (simp add: unat_of_nat_u8)
  then have "Header_Validate ?h = None" by (rule NewHeader_Validate)
  then show "Frame_Validate (sealed_frame A c mt sid sq p padding) = None"
    using aead_okD(2) [OF A] size pad
    by (simp add: Frame_Validate_None validateLengths_None unat_of_nat_u32 unat_of_nat_u8 sealed_frame_def Let_def)
  show "wf_frame (sealed_frame A c mt sid sq p padding)"
    using sid aead_okD(2) [OF A] by (simp add: wf_frame_def sealed_frame_def Let_def)
  show "received_frame (sealed_frame A c mt sid sq p padding) = sealed_frame A c mt sid sq p padding"
    using mt by (simp add: received_frame_def)
qed

text \<open>What a successful \<^verbatim>\<open>Decrypt\<close> says: header, padding, payload and tag are exactly what
  sealing the returned plaintext under the frame's own header gives.\<close>

lemma Codec_Decrypt_eq:
  assumes A: "aead_ok A" and wf: "wf_frame f"
  shows "Codec_Decrypt A c f = Inr p \<longleftrightarrow>
    Frame_ValidateReceive f = None
    \<and> validateEncryptedHeader (h_MessageType (f_Header f)) (h_SessionID (f_Header f)) (h_Sequence (f_Header f)) = None
    \<and> f_Payload f @ f_Tag f =
        aead_Seal A c (nonce (h_Sequence (f_Header f))) p (header_bytes (f_Header f) @ f_Padding f)"
proof -
  have "wf_header (f_Header f)" using wf by (simp add: wf_defs)
  then have hb: "Frame_ValidateReceive f = None \<Longrightarrow> marshalBinary (f_Header f) False = Inr (header_bytes (f_Header f))"
    by (auto simp: marshalBinary_eq Header_ValidateReceive_def Frame_ValidateReceive_None)
  show ?thesis
    using hb aead_okD(3,4) [OF A]
    by (auto simp: Codec_Decrypt_def Let_def split: option.splits sum.splits)
qed

lemma Codec_Decrypt_sealed:
  assumes A: "aead_ok A" and sid: "length sid = 16" and ok: "validateEncryptedHeader mt sid sq = None"
    and size: "40 + length p + 16 + length padding \<le> 65535" and pad: "length padding \<le> 255"
  shows "Codec_Decrypt A c (sealed_frame A c mt sid sq p padding) = Inr p"
proof -
  let ?f = "sealed_frame A c mt sid sq p padding"
  have mt: "mt \<noteq> 1 \<and> mt \<noteq> 2" using ok by (rule encrypted_type_tagged)
  note valid = sealed_frame_valid [OF A sid mt size pad, of c sq]
  show ?thesis
    unfolding Codec_Decrypt_eq [OF A valid(1)]
    using ok Frame_Validate_receive [OF valid(2)] by (simp add: sealed_frame_def Let_def)
qed

section \<open>A concrete instance\<close>

text \<open>An instance of the AEAD contract that authenticates without hiding: the tag is a truncated
  HMAC over nonce, associated data and plaintext. It shows that \<open>aead_ok\<close> is satisfiable by a
  function whose acceptance depends on key, nonce and associated data.\<close>

definition mac_aead :: "bytes aead" where
  "mac_aead =
     \<lparr>aead_New = (\<lambda>key. Inr key),
      aead_Seal = (\<lambda>key n p a. p @ take 16 (hmac_sha256 key (n @ a @ p))),
      aead_Open = (\<lambda>key n s a.
        let p = take (length s - 16) s
        in if s = p @ take 16 (hmac_sha256 key (n @ a @ p)) then Inr p else Inl (ErrExternal 0))\<rparr>"

lemma mac_aead_ok: "aead_ok mac_aead"
  by (simp add: aead_ok_def mac_aead_def Let_def)

text \<open>A second instance, whose tag is a prefix of the key: acceptance under one key and rejection
  under another can be computed by rewriting.\<close>

definition key_tag_aead :: "bytes aead" where
  "key_tag_aead =
     \<lparr>aead_New = (\<lambda>key. Inr key),
      aead_Seal = (\<lambda>key n p a. p @ take 16 (key @ replicate 16 0)),
      aead_Open = (\<lambda>key n s a.
        let p = take (length s - 16) s
        in if s = p @ take 16 (key @ replicate 16 0) then Inr p else Inl (ErrExternal 0))\<rparr>"

lemma key_tag_aead_ok: "aead_ok key_tag_aead"
  by (auto simp: aead_ok_def key_tag_aead_def Let_def min_def)

end
