(* ===== verification/Replay.thy ===== *)
theory Replay
  imports Prelude
begin

text \<open>
  The anti-replay window: \<^verbatim>\<open>internal/replay/window.go\<close> (the bitmap arithmetic over 32 words
  of 64 bits) and \<^verbatim>\<open>replay.go\<close> (the \<^verbatim>\<open>ReplayWindow\<close> struct and its tokens). The abstract
  specification is the set of all sequence numbers ever accepted: \<open>tracks w A\<close> relates a
  window to it, and the section shows that \<^verbatim>\<open>Check\<close> and \<^verbatim>\<open>Commit\<close> refine membership in
  and insertion into that set. The locale \<open>replay_contract\<close> is what the session relies
  on. \<open>Marked\<close> and \<open>Set_bit\<close> index the bitmap by \<^verbatim>\<open>distance/64\<close>; both callers test
  \<^verbatim>\<open>distance < WindowSize\<close> first, so the index is in range.
\<close>

section \<open>internal/replay\<close>

definition WindowSize :: u64 where [simp]: "WindowSize = 2048"
definition WordCount :: nat where [simp]: "WordCount = 32"

definition Marked :: "u64 list \<Rightarrow> u64 \<Rightarrow> bool" where
  "Marked bitmap distance \<longleftrightarrow>
     bitmap ! unat (distance div 64) AND push_bit (unat (distance mod 64)) 1 \<noteq> 0"

definition Set_bit :: "u64 list \<Rightarrow> u64 \<Rightarrow> u64 list" where
  "Set_bit bitmap distance =
     bitmap[unat (distance div 64) :=
       bitmap ! unat (distance div 64) OR push_bit (unat (distance mod 64)) 1]"

fun advance_loop :: "u64 list \<Rightarrow> nat \<Rightarrow> nat \<Rightarrow> nat \<Rightarrow> u64 list" where
  "advance_loop bitmap wordShift bitShift 0 = bitmap"
| "advance_loop bitmap wordShift bitShift (Suc dst) =
     (let value =
        (if wordShift \<le> dst then
           (let src = dst - wordShift;
                value = push_bit bitShift (bitmap ! src)
            in if bitShift \<noteq> 0 \<and> src > 0 then value OR drop_bit (64 - bitShift) (bitmap ! (src - 1))
               else value)
         else 0)
      in advance_loop (bitmap[dst := value]) wordShift bitShift dst)"

definition Advance :: "u64 list \<Rightarrow> u64 \<Rightarrow> u64 list" where
  "Advance bitmap shift =
     (if shift \<ge> WindowSize then replicate WordCount 0
      else advance_loop bitmap (unat (shift div 64)) (unat (shift mod 64)) WordCount)"

definition replay_Check :: "u64 \<Rightarrow> u64 list \<Rightarrow> u64 \<Rightarrow> replay_error option" where
  "replay_Check highest bitmap sequence =
     (if sequence = 0 then Some ReplayZero
      else if sequence \<le> highest then
        (let distance = highest - sequence
         in if distance \<ge> WindowSize then Some ReplayTooOld
            else if Marked bitmap distance then Some ReplayDuplicate
            else None)
      else None)"

definition replay_Commit ::
  "u64 \<Rightarrow> u64 list \<Rightarrow> u64 \<Rightarrow> u64 \<Rightarrow> u64 \<Rightarrow> replay_error + (u64 \<times> u64 list \<times> u64)" where
  "replay_Commit highest bitmap generation sequence tokenGeneration =
     (if sequence = 0 \<or> tokenGeneration \<noteq> generation then Inl ReplayStale
      else if sequence \<le> highest then
        (let distance = highest - sequence
         in if distance \<ge> WindowSize \<or> Marked bitmap distance then Inl ReplayStale
            else Inr (highest, Set_bit bitmap distance, generation + 1))
      else Inr (sequence, Set_bit (Advance bitmap (sequence - highest)) 0, generation + 1))"

section \<open>replay.go\<close>

record replay_window =
  highest :: u64
  bitmap :: "u64 list"
  generation :: u64

record replay_token =
  tok_sequence :: u64
  tok_generation :: u64

text \<open>The zero value \<^verbatim>\<open>ReplayWindow{}\<close> and the error translation \<^verbatim>\<open>replayError\<close>.\<close>

definition zero_window :: replay_window where
  "zero_window = \<lparr>highest = 0, bitmap = replicate WordCount 0, generation = 0\<rparr>"

fun replayError :: "replay_error \<Rightarrow> dg_error" where
  "replayError ReplayZero = ErrReplayZero"
| "replayError ReplayDuplicate = ErrReplayDuplicate"
| "replayError ReplayTooOld = ErrReplayTooOld"
| "replayError ReplayStale = ErrReplayStale"

definition Window_Check :: "replay_window \<Rightarrow> u64 \<Rightarrow> replay_token result" where
  "Window_Check w sequence =
     (if sequence = 0 then Inl ErrReplayZero
      else case replay_Check (highest w) (bitmap w) sequence of
        Some err \<Rightarrow> Inl (replayError err)
      | None \<Rightarrow> Inr \<lparr>tok_sequence = sequence, tok_generation = generation w\<rparr>)"

definition Window_Commit :: "replay_window \<Rightarrow> replay_token \<Rightarrow> replay_window result" where
  "Window_Commit w token =
     (if tok_sequence token = 0 then Inl ErrReplayStale
      else case replay_Commit (highest w) (bitmap w) (generation w) (tok_sequence token) (tok_generation token) of
        Inl err \<Rightarrow> Inl (replayError err)
      | Inr (h, b, g) \<Rightarrow> Inr \<lparr>highest = h, bitmap = b, generation = g\<rparr>)"

section \<open>The bitmap as a set of distances\<close>

definition bit_at :: "u64 list \<Rightarrow> nat \<Rightarrow> bool" where
  "bit_at b d \<longleftrightarrow> bit (b ! (d div 64)) (d mod 64)"

lemma unat_div_mod_64 [simp]:
  "unat ((x :: u64) div 64) = unat x div 64" "unat (x mod 64) = unat x mod 64"
  by (simp_all add: unat_div unat_mod)

lemma Marked_bit_at: "Marked b distance \<longleftrightarrow> bit_at b (unat distance)"
  by (simp add: Marked_def bit_at_def bit_iff_and_push_bit_not_eq_0)

lemma bit_at_Set_bit:
  assumes "length b = 32" and "unat distance < 2048" and "d < 2048"
  shows "bit_at (Set_bit b distance) d \<longleftrightarrow> d = unat distance \<or> bit_at b d"
proof -
  have "d div 64 < 32" "unat distance div 64 < 32" using assms by simp_all
  moreover have "d = unat distance \<longleftrightarrow> d div 64 = unat distance div 64 \<and> d mod 64 = unat distance mod 64"
    by (metis div_mult_mod_eq)
  ultimately show ?thesis
    using assms(1) by (auto simp: bit_at_def Set_bit_def nth_list_update bit_simps)
qed

lemma length_Set_bit [simp]: "length (Set_bit b d) = length b"
  by (simp add: Set_bit_def)

text \<open>The in-place loop reads only words it has not overwritten yet, so it computes each
  word from the original bitmap.\<close>

definition advance_word :: "u64 list \<Rightarrow> nat \<Rightarrow> nat \<Rightarrow> nat \<Rightarrow> u64" where
  "advance_word b ws bs j =
     (if ws \<le> j then
        push_bit bs (b ! (j - ws)) OR
        (if bs \<noteq> 0 \<and> 0 < j - ws then drop_bit (64 - bs) (b ! (j - ws - 1)) else 0)
      else 0)"

lemma advance_word_update: "j < k \<Longrightarrow> advance_word (b[k := v]) ws bs j = advance_word b ws bs j"
  by (auto simp: advance_word_def)

lemma advance_loop_eq:
  "n \<le> length b \<Longrightarrow> advance_loop b ws bs n = map (advance_word b ws bs) [0..<n] @ drop n b"
proof (induction n arbitrary: b)
  case (Suc n)
  let ?v = "advance_word b ws bs n"
  have step: "advance_loop b ws bs (Suc n) = advance_loop (b[n := ?v]) ws bs n"
    by (simp add: advance_word_def Let_def)
  have "advance_loop (b[n := ?v]) ws bs n = map (advance_word (b[n := ?v]) ws bs) [0..<n] @ drop n (b[n := ?v])"
    using Suc.prems by (intro Suc.IH) simp
  also have "map (advance_word (b[n := ?v]) ws bs) [0..<n] = map (advance_word b ws bs) [0..<n]"
    by (simp add: advance_word_update)
  also have "drop n (b[n := ?v]) = ?v # drop (Suc n) b"
    using Suc.prems by (simp add: drop_update_swap [symmetric] Cons_nth_drop_Suc [symmetric])
  finally show ?case unfolding step by simp
qed simp

lemma bit_advance_word:
  assumes "i < 64" and "bs < 64"
  shows "bit (advance_word b ws bs j) i \<longleftrightarrow>
    64 * ws + bs \<le> 64 * j + i \<and> bit_at b (64 * j + i - (64 * ws + bs))"
proof (cases "64 * ws + bs \<le> 64 * j + i")
  case False
  then have "j < ws \<or> (j = ws \<and> i < bs)" using assms by auto
  with False show ?thesis
    by (auto simp: advance_word_def bit_simps)
next
  case True
  then have ws: "ws \<le> j" using assms by auto
  show ?thesis
  proof (cases "bs \<le> i")
    case low: True
    then have "64 * j + i - (64 * ws + bs) = 64 * (j - ws) + (i - bs)" using ws by simp
    moreover have "(64 * (j - ws) + (i - bs)) div 64 = j - ws" "(64 * (j - ws) + (i - bs)) mod 64 = i - bs"
      using assms by simp_all
    ultimately show ?thesis
      using True ws low assms by (auto simp: advance_word_def bit_at_def bit_simps dest: bit_imp_le_length)
  next
    case high: False
    then have "ws < j" using True ws assms by (cases "ws = j") auto
    obtain k where k: "64 + i - bs = k" "k < 64" "64 - bs + i = k" using high assms by simp
    have "64 * j + i - (64 * ws + bs) = 64 * (j - ws - 1) + k" using high assms k \<open>ws < j\<close> by simp
    moreover have "(64 * (j - ws - 1) + k) div 64 = j - ws - 1" "(64 * (j - ws - 1) + k) mod 64 = k"
      using k(2) by simp_all
    ultimately show ?thesis
      using True ws high assms k \<open>ws < j\<close> by (auto simp: advance_word_def bit_at_def bit_simps)
  qed
qed

lemma length_Advance [simp]: "length b = 32 \<Longrightarrow> length (Advance b shift) = 32"
  by (simp add: Advance_def advance_loop_eq)

text \<open>\<^verbatim>\<open>Advance\<close> is the shift of the whole 2048-bit window: equivalence of the word loop
  with the one-line reference on distances.\<close>

lemma bit_at_Advance:
  assumes "length b = 32" and "d < 2048"
  shows "bit_at (Advance b shift) d \<longleftrightarrow> unat shift \<le> d \<and> bit_at b (d - unat shift)"
proof (cases "shift \<ge> WindowSize")
  case True
  then have "2048 \<le> unat shift" by (simp add: word_le_nat_alt)
  moreover have "d div 64 < 32" using assms(2) by simp
  ultimately show ?thesis using assms(2) True by (simp add: bit_at_def Advance_def)
next
  case False
  have "d div 64 < 32" using assms(2) by simp
  then have "bit_at (Advance b shift) d \<longleftrightarrow> bit (advance_word b (unat shift div 64) (unat shift mod 64) (d div 64)) (d mod 64)"
    using False assms(1) by (simp add: bit_at_def Advance_def advance_loop_eq nth_append)
  also have "\<dots> \<longleftrightarrow> unat shift \<le> d \<and> bit_at b (d - unat shift)"
    by (simp add: bit_advance_word)
  finally show ?thesis .
qed

section \<open>The window refines the set of accepted sequence numbers\<close>

definition tracks :: "replay_window \<Rightarrow> nat set \<Rightarrow> bool" where
  "tracks w A \<longleftrightarrow> length (bitmap w) = 32
     \<and> (\<forall>n\<in>A. 0 < n \<and> n \<le> unat (highest w))
     \<and> (highest w \<noteq> 0 \<longrightarrow> unat (highest w) \<in> A)
     \<and> (\<forall>d<2048. bit_at (bitmap w) d \<longleftrightarrow> d < unat (highest w) \<and> unat (highest w) - d \<in> A)"

lemma tracks_zero_window: "tracks zero_window {}"
  by (simp add: tracks_def zero_window_def bit_at_def)

lemma unat_distance: "s \<le> h \<Longrightarrow> unat (h - s :: u64) = unat h - unat s"
  by (simp add: unat_sub)

text \<open>The three verdicts of \<^verbatim>\<open>Check\<close> in terms of the accepted set.\<close>

definition replay_verdict :: "nat \<Rightarrow> nat set \<Rightarrow> nat \<Rightarrow> dg_error option" where
  "replay_verdict hi A n =
     (if n = 0 then Some ErrReplayZero
      else if n + 2048 \<le> hi then Some ErrReplayTooOld
      else if n \<in> A then Some ErrReplayDuplicate
      else None)"

lemma Marked_tracks:
  assumes "tracks w A" and "s \<le> highest w" and "s \<noteq> 0" and "\<not> WindowSize \<le> highest w - s"
  shows "Marked (bitmap w) (highest w - s) \<longleftrightarrow> unat s \<in> A"
proof -
  have "unat (highest w) - unat s < 2048" "unat s \<le> unat (highest w)" "0 < unat s"
    using assms unat_distance [OF assms(2)] by (simp_all add: word_le_nat_alt unat_gt_0)
  then show ?thesis
    using assms(1) unat_distance [OF assms(2)] by (auto simp: Marked_bit_at tracks_def)
qed

lemma Window_Check_verdict:
  assumes "tracks w A"
  shows "Window_Check w s =
    (case replay_verdict (unat (highest w)) A (unat s) of
       Some e \<Rightarrow> Inl e
     | None \<Rightarrow> Inr \<lparr>tok_sequence = s, tok_generation = generation w\<rparr>)"
proof (cases "s \<noteq> 0 \<and> s \<le> highest w")
  case True
  then have "WindowSize \<le> highest w - s \<longleftrightarrow> unat s + 2048 \<le> unat (highest w)"
    by (auto simp: word_le_nat_alt unat_distance)
  with True show ?thesis
    using Marked_tracks [OF assms, of s] by (auto simp: Window_Check_def replay_Check_def replay_verdict_def Let_def unat_eq_0)
next
  case False
  then consider "s = 0" | "s \<noteq> 0" "\<not> s \<le> highest w" by blast
  then show ?thesis
  proof cases
    case 2
    then have lt: "unat (highest w) < unat s" by (simp add: word_le_nat_alt)
    then have "unat s \<notin> A" using assms by (auto simp: tracks_def)
    with 2 lt show ?thesis by (simp add: Window_Check_def replay_Check_def replay_verdict_def)
  qed (simp add: Window_Check_def replay_verdict_def)
qed

lemma Window_Check_Inr:
  assumes "tracks w A" and "Window_Check w s = Inr t"
  shows "t = \<lparr>tok_sequence = s, tok_generation = generation w\<rparr>" "0 < unat s" "unat s \<notin> A"
    "unat (highest w) < unat s + 2048"
  using assms by (auto simp: Window_Check_verdict replay_verdict_def split: if_splits)

lemma tracks_commit_old:
  assumes "tracks w A" and "s \<le> highest w" and "s \<noteq> 0" and "unat (highest w) < unat s + 2048"
  shows "tracks (w\<lparr>bitmap := Set_bit (bitmap w) (highest w - s), generation := g\<rparr>) (insert (unat s) A)"
proof -
  have "unat (highest w - s) < 2048" "unat s \<le> unat (highest w)" "0 < unat s"
    using assms unat_distance [OF assms(2)] by (simp_all add: word_le_nat_alt unat_gt_0)
  then show ?thesis
    using assms(1) unat_distance [OF assms(2)] by (auto simp: tracks_def bit_at_Set_bit)
qed

lemma tracks_commit_new:
  assumes "tracks w A" and "highest w < s"
  shows "tracks \<lparr>highest = s, bitmap = Set_bit (Advance (bitmap w) (s - highest w)) 0, generation = g\<rparr>
    (insert (unat s) A)"
proof -
  have lt: "unat (highest w) < unat s" and sub: "unat (s - highest w) = unat s - unat (highest w)"
    using assms(2) by (simp_all add: word_less_nat_alt unat_sub word_le_nat_alt)
  have "bit_at (Set_bit (Advance (bitmap w) (s - highest w)) 0) d \<longleftrightarrow>
      d < unat s \<and> unat s - d \<in> insert (unat s) A" if d: "d < 2048" for d
  proof -
    have "bit_at (Set_bit (Advance (bitmap w) (s - highest w)) 0) d \<longleftrightarrow>
        d = 0 \<or> (unat s - unat (highest w) \<le> d \<and> bit_at (bitmap w) (d - (unat s - unat (highest w))))"
      using assms(1) d by (simp add: bit_at_Set_bit bit_at_Advance sub tracks_def)
    moreover have "bit_at (bitmap w) (d - (unat s - unat (highest w))) \<longleftrightarrow> d < unat s \<and> unat s - d \<in> A"
      if "unat s - unat (highest w) \<le> d"
    proof -
      have "unat (highest w) - (d - (unat s - unat (highest w))) = unat s - d"
        and "d - (unat s - unat (highest w)) < unat (highest w) \<longleftrightarrow> d < unat s" using that lt by linarith+
      then show ?thesis using assms(1) d by (simp add: tracks_def)
    qed
    moreover have "unat s - d \<notin> A" if "d < unat s - unat (highest w)"
      using assms(1) that lt by (auto simp: tracks_def)
    ultimately show ?thesis using lt by (cases "unat s - unat (highest w) \<le> d") auto
  qed
  then show ?thesis
    using assms(1) lt by (fastforce simp: tracks_def)
qed

lemma Window_Commit_checked:
  assumes tr: "tracks w A" and ok: "Window_Check w s = Inr t"
  shows "\<exists>w'. Window_Commit w t = Inr w' \<and> tracks w' (insert (unat s) A)
    \<and> generation w' = generation w + 1 \<and> highest w' = max (highest w) s"
proof (cases "s \<le> highest w")
  case True
  note c = Window_Check_Inr [OF tr ok]
  have "s \<noteq> 0" using c by (simp add: unat_gt_0)
  moreover have "\<not> WindowSize \<le> highest w - s"
    using c(4) True by (simp add: word_le_nat_alt unat_distance)
  ultimately show ?thesis
    using tracks_commit_old [OF tr True, of "generation w + 1"] Marked_tracks [OF tr True] c True
    by (cases w) (auto simp: Window_Commit_def replay_Commit_def Let_def max_def)
next
  case False
  then show ?thesis
    using tracks_commit_new [OF tr, of s "generation w + 1"] Window_Check_Inr [OF tr ok]
    by (auto simp: Window_Commit_def replay_Commit_def max_def unat_gt_0 not_le)
qed

lemma Window_Commit_Inr:
  "Window_Commit w t = Inr w' \<Longrightarrow> tok_generation t = generation w \<and> generation w' = generation w + 1"
  by (auto simp: Window_Commit_def replay_Commit_def Let_def split: if_splits)

lemma Window_Commit_Inl: "Window_Commit w t = Inl e \<Longrightarrow> e = ErrReplayStale"
  by (auto simp: Window_Commit_def replay_Commit_def Let_def split: if_splits)

section \<open>The contract the session relies on\<close>

text \<open>A duplicate filter: a check that admits only numbers outside the history, and a
  commit of an admitted number that always succeeds and extends the history.\<close>

text \<open>The sequence numbers a stream of attempts gets through: check, then commit.\<close>

fun admitted :: "('w \<Rightarrow> u64 \<Rightarrow> 't result) \<Rightarrow> ('w \<Rightarrow> 't \<Rightarrow> 'w result) \<Rightarrow> 'w \<Rightarrow> u64 list \<Rightarrow> u64 list" where
  "admitted check commit w [] = []"
| "admitted check commit w (n # ns) =
    (case check w n of
       Inl e \<Rightarrow> admitted check commit w ns
     | Inr t \<Rightarrow>
        (case commit w t of
           Inl e \<Rightarrow> admitted check commit w ns
         | Inr w' \<Rightarrow> n # admitted check commit w' ns))"

locale replay_contract =
  fixes fresh :: 'w
    and check :: "'w \<Rightarrow> u64 \<Rightarrow> 't result"
    and commit :: "'w \<Rightarrow> 't \<Rightarrow> 'w result"
    and history :: "'w \<Rightarrow> nat set \<Rightarrow> bool"
  assumes history_fresh: "history fresh {}"
    and check_new: "history w A \<Longrightarrow> check w n = Inr t \<Longrightarrow> unat n \<notin> A"
    and commit_ok: "history w A \<Longrightarrow> check w n = Inr t \<Longrightarrow>
      \<exists>w'. commit w t = Inr w' \<and> history w' (insert (unat n) A)"
    and check_above: "history w A \<Longrightarrow> n \<noteq> 0 \<Longrightarrow> (\<forall>m\<in>A. m < unat n) \<Longrightarrow> \<exists>t. check w n = Inr t"
begin

lemma accepted_once: "history w A \<Longrightarrow> distinct (admitted check commit w ns) \<and> unat ` set (admitted check commit w ns) \<inter> A = {}"
proof (induction ns arbitrary: w A)
  case (Cons n ns)
  show ?case
  proof (cases "check w n")
    case (Inr t)
    then obtain w' where w': "commit w t = Inr w'" "history w' (insert (unat n) A)"
      using commit_ok [OF Cons.prems Inr] by blast
    from Cons.IH [OF w'(2)] check_new [OF Cons.prems Inr] show ?thesis
      by (auto simp: Inr w')
  qed (use Cons in auto)
qed simp

lemma accepted_increasing:
  "history w A \<Longrightarrow> sorted_wrt (<) (map unat ns) \<Longrightarrow> 0 \<notin> set ns \<Longrightarrow> (\<forall>m\<in>A. \<forall>n\<in>set ns. m < unat n)
    \<Longrightarrow> admitted check commit w ns = ns"
proof (induction ns arbitrary: w A)
  case (Cons n ns)
  obtain t where t: "check w n = Inr t" using check_above [OF Cons.prems(1), of n] Cons.prems by auto
  obtain w' where w': "commit w t = Inr w'" "history w' (insert (unat n) A)"
    using commit_ok [OF Cons.prems(1) t] by blast
  have "admitted check commit w' ns = ns" using Cons.prems by (intro Cons.IH [OF w'(2)]) auto
  then show ?case by (simp add: t w')
qed simp

end

lemma Window_Check_above:
  assumes "tracks w A" and "n \<noteq> 0" and "\<forall>m\<in>A. m < unat n"
  shows "\<exists>t. Window_Check w n = Inr t"
proof -
  have "unat (highest w) < unat n \<or> highest w = 0" using assms by (auto simp: tracks_def)
  then show ?thesis
    using assms by (auto simp: Window_Check_verdict replay_verdict_def unat_eq_0)
qed

interpretation window: replay_contract zero_window Window_Check Window_Commit tracks
  by unfold_locales
    (auto simp: tracks_zero_window dest: Window_Check_Inr Window_Commit_checked intro: Window_Check_above)

section \<open>Properties\<close>

text \<open>C19: the in-place loop of \<^verbatim>\<open>Advance\<close> over 64-bit words, with its carry between words and
  its clearing shortcut, is the shift of one 2048-bit window by any 64-bit amount.\<close>

theorem advance_is_shift:
  assumes "length b = 32" and "d < 2048"
  shows "bit_at (Advance b shift) d \<longleftrightarrow> unat shift \<le> d \<and> bit_at b (d - unat shift)"
  by (rule bit_at_Advance [OF assms])

theorem advance_is_shift_witness:
  "bit_at (Advance (1 # replicate 31 0) 100) 100 \<and> \<not> bit_at (Advance (1 # replicate 31 0) 100) 101"
  using advance_is_shift [of "1 # replicate 31 0" 100 100] advance_is_shift [of "1 # replicate 31 0" 101 100]
  by (simp add: bit_at_def)

text \<open>C17: over a window that has recorded the set \<open>A\<close>, \<^verbatim>\<open>Check\<close> rejects zero, numbers 2048 or more
  below the highest and members of \<open>A\<close>, each with its own error, and admits every other number;
  committing the token it returns succeeds, records exactly that number and makes the
  token stale.\<close>

theorem replay_refines_set:
  assumes "tracks w A"
  shows "Window_Check w n =
      (case replay_verdict (unat (highest w)) A (unat n) of
         Some e \<Rightarrow> Inl e
       | None \<Rightarrow> Inr \<lparr>tok_sequence = n, tok_generation = generation w\<rparr>)
    \<and> (\<forall>t. Window_Check w n = Inr t \<longrightarrow>
         (\<exists>w'. Window_Commit w t = Inr w' \<and> tracks w' (insert (unat n) A)
            \<and> Window_Commit w' t = Inl ErrReplayStale))"
proof -
  have "Window_Commit w' t = Inl ErrReplayStale" if "Window_Commit w t = Inr w'" for w' t
    using Window_Commit_Inr [OF that] Window_Commit_Inr [of w' t] Window_Commit_Inl [of w' t]
    by (cases "Window_Commit w' t") auto
  then show ?thesis using Window_Check_verdict [OF assms] Window_Commit_checked [OF assms] by metis
qed

theorem replay_refines_set_witness:
  "Window_Check zero_window 5 = Inr \<lparr>tok_sequence = 5, tok_generation = 0\<rparr>
   \<and> (\<exists>w'. Window_Commit zero_window \<lparr>tok_sequence = 5, tok_generation = 0\<rparr> = Inr w' \<and> tracks w' {5})"
  using replay_refines_set [OF tracks_zero_window, of 5]
  by (auto simp: zero_window_def replay_verdict_def)

text \<open>C18: of any stream of sequence numbers, in any order and with any repetitions, the window
  admits each number at most once and never zero; a strictly increasing stream is admitted
  completely.\<close>

theorem replay_at_most_once:
  "distinct (admitted Window_Check Window_Commit zero_window ns)
   \<and> 0 \<notin> set (admitted Window_Check Window_Commit zero_window ns)
   \<and> (sorted_wrt (<) (map unat ns) \<and> 0 \<notin> set ns \<longrightarrow>
        admitted Window_Check Window_Commit zero_window ns = ns)"
proof -
  have "0 \<notin> set (admitted Window_Check Window_Commit w ns)" for w
    by (induction ns arbitrary: w) (auto simp: Window_Check_def split: sum.splits)
  then show ?thesis
    using window.accepted_once [OF window.history_fresh, of ns]
      window.accepted_increasing [OF window.history_fresh, of ns] by simp
qed

theorem replay_at_most_once_witness:
  "admitted Window_Check Window_Commit zero_window [1, 5, 9] = [1, 5, 9]"
  using replay_at_most_once [of "[1, 5, 9]"] by simp

end
