(* ===== verification/Session.thy ===== *)
theory Session
  imports Messages Crypto Replay
begin

text \<open>
  \<^verbatim>\<open>session.go\<close>, \<^verbatim>\<open>session_send.go\<close> and \<^verbatim>\<open>session_receive.go\<close>: the session state and its
  operations.

  A method on \<^verbatim>\<open>*Session\<close> takes the state and returns it updated; the exported methods take
  an \<open>option\<close>, whose \<open>None\<close> is the nil receiver. Each method body runs under one of the two
  locks, and the send half and the receive half share only immutable fields and
  \<^verbatim>\<open>closed\<close>, which is written under both locks; a concurrent execution is therefore an
  interleaving of these functions. The clock is an argument: \<open>now i\<close> is its value at the
  \<open>i\<close>-th reading site of the operation. A \<^verbatim>\<open>time.Time\<close> is a number of nanoseconds, the zero
  time is 0. The calls to \<^verbatim>\<open>keylogWrite\<close> only write to a debug file and are left out here.
\<close>

section \<open>Messages of a session\<close>

datatype message =
  MEncryptedData encrypted_data
| MPingPong ping_pong
| MSessionClose session_close
| MAck ack
| MRekeyInit rekey_init
| MErrorMessage error_message

text \<open>A value of Go type \<^verbatim>\<open>any\<close> as the type switch distinguishes it.\<close>

datatype any_message =
  Val message \<comment> \<open>a message by value\<close>
| Ptr message \<comment> \<open>a non-nil pointer to a message\<close>
| NilPtr \<comment> \<open>a nil pointer of a message type\<close>
| OtherValue \<comment> \<open>any other dynamic type\<close>

fun message_MarshalBinary :: "message \<Rightarrow> bytes result" where
  "message_MarshalBinary (MEncryptedData m) = EncryptedData_MarshalBinary m"
| "message_MarshalBinary (MPingPong m) = PingPong_MarshalBinary m"
| "message_MarshalBinary (MSessionClose m) = SessionClose_MarshalBinary m"
| "message_MarshalBinary (MAck m) = Ack_MarshalBinary m"
| "message_MarshalBinary (MRekeyInit m) = RekeyInit_MarshalBinary m"
| "message_MarshalBinary (MErrorMessage m) = ErrorMessage_MarshalBinary m"

fun outboundType :: "message \<Rightarrow> u8 result" where
  "outboundType (MEncryptedData m) = Inr MessageTypeEncryptedData"
| "outboundType (MPingPong m) = Inr MessageTypePingPong"
| "outboundType (MSessionClose m) = Inr MessageTypeSessionClose"
| "outboundType (MAck m) = Inr MessageTypeAck"
| "outboundType (MErrorMessage m) = Inr MessageTypeError"
| "outboundType (MRekeyInit m) = Inl ErrMessageType"

fun outboundMessage :: "any_message \<Rightarrow> (u8 \<times> message) result" where
  "outboundMessage (Val m) = (case outboundType m of Inl e \<Rightarrow> Inl e | Inr t \<Rightarrow> Inr (t, m))"
| "outboundMessage (Ptr m) = (case outboundType m of Inl e \<Rightarrow> Inl e | Inr t \<Rightarrow> Inr (t, m))"
| "outboundMessage NilPtr = Inl ErrMessageType"
| "outboundMessage OtherValue = Inl ErrMessageType"

definition map_result :: "('a \<Rightarrow> 'b) \<Rightarrow> 'a result \<Rightarrow> 'b result" where
  "map_result f r = (case r of Inl e \<Rightarrow> Inl e | Inr x \<Rightarrow> Inr (f x))"

text \<open>\<^verbatim>\<open>newInboundMessage\<close> returns a zero message to unmarshal into: here, its decoder.\<close>

definition newInboundMessage :: "u8 \<Rightarrow> (bytes \<Rightarrow> message result) result" where
  "newInboundMessage messageType =
     (if messageType = MessageTypeEncryptedData then
        Inr (\<lambda>data. map_result MEncryptedData (EncryptedData_UnmarshalBinary data))
      else if messageType = MessageTypePingPong then
        Inr (\<lambda>data. map_result MPingPong (PingPong_UnmarshalBinary data))
      else if messageType = MessageTypeSessionClose then
        Inr (\<lambda>data. map_result MSessionClose (SessionClose_UnmarshalBinary data))
      else if messageType = MessageTypeAck then
        Inr (\<lambda>data. map_result MAck (Ack_UnmarshalBinary data))
      else if messageType = MessageTypeRekeyInit then
        Inr (\<lambda>data. map_result MRekeyInit (RekeyInit_UnmarshalBinary data))
      else if messageType = MessageTypeError then
        Inr (\<lambda>data. map_result MErrorMessage (ErrorMessage_UnmarshalBinary data))
      else Inl ErrMessageType)"

definition validSessionMessageType :: "u8 \<Rightarrow> bool" where
  "validSessionMessageType messageType \<longleftrightarrow>
     messageType \<ge> MessageTypeEncryptedData \<and> messageType \<le> MessageTypeError"

section \<open>Session state\<close>

record handshake_secrets =
  hs_SessionID :: bytes
  hs_SendKey :: bytes
  hs_ReceiveKey :: bytes

record 'c pending_send_rekey =
  pr_frame :: frame
  pr_key :: bytes
  pr_codec :: 'c
  pr_epoch :: u32

record 'c session =
  sessionID :: bytes
  suite :: u8
  send :: 'c
  sendKey :: bytes
  sendEpoch :: u32
  nextSequence :: u64
  sentInEpoch :: u64
  epochStarted :: time
  rekeyFrameLimit :: u64
  rekeyInterval :: time
  pendingRekey :: "'c pending_send_rekey option"
  closed :: bool
  receive :: 'c
  receiveKey :: bytes
  receiveEpoch :: u32
  replay :: replay_window
  previousReceive :: "'c option"
  previousReplay :: replay_window
  graceRemaining :: u64
  graceUntil :: time
  graceFrames :: u64
  gracePeriod :: time

type_synonym clock = "nat \<Rightarrow> time"

definition NewSession :: "'c aead \<Rightarrow> clock \<Rightarrow> u8 \<Rightarrow> handshake_secrets \<Rightarrow> 'c session result" where
  "NewSession A now suite' secrets =
     (if suite' \<noteq> CipherChaCha20Poly1305 then Inl ErrUnsupportedCipher
      else if hs_SessionID secrets = replicate 16 0 then Inl ErrInvalidSessionID
      else case NewCodec A suite' (hs_SendKey secrets) of
        Inl err \<Rightarrow> Inl err
      | Inr send' \<Rightarrow>
          (case NewCodec A suite' (hs_ReceiveKey secrets) of
             Inl err \<Rightarrow> Inl err
           | Inr receive' \<Rightarrow>
               Inr \<lparr>sessionID = hs_SessionID secrets, suite = suite', send = send',
                    sendKey = hs_SendKey secrets, sendEpoch = 1, nextSequence = 1, sentInEpoch = 0,
                    epochStarted = now 0, rekeyFrameLimit = DefaultRekeyFrameLimit,
                    rekeyInterval = DefaultRekeyInterval, pendingRekey = None, closed = False,
                    receive = receive', receiveKey = hs_ReceiveKey secrets, receiveEpoch = 1,
                    replay = zero_window, previousReceive = None, previousReplay = zero_window,
                    graceRemaining = 0, graceUntil = 0, graceFrames = DefaultRekeyGraceFrames,
                    gracePeriod = DefaultRekeyGracePeriod\<rparr>))"

definition Session_SessionID :: "'c session option \<Rightarrow> bytes" where
  "Session_SessionID s = (case s of None \<Rightarrow> replicate 16 0 | Some st \<Rightarrow> sessionID st)"

definition Session_Close :: "'c session option \<Rightarrow> 'c session option \<times> dg_error option" where
  "Session_Close s =
     (case s of None \<Rightarrow> (None, Some ErrSessionClosed) | Some st \<Rightarrow> (Some (st\<lparr>closed := True\<rparr>), None))"

definition Session_Closed :: "'c session option \<Rightarrow> bool" where
  "Session_Closed s = (case s of None \<Rightarrow> True | Some st \<Rightarrow> closed st)"

section \<open>session_send.go\<close>

definition encryptLocked ::
  "'c aead \<Rightarrow> bytes \<Rightarrow> 'c session \<Rightarrow> u8 \<Rightarrow> bytes \<Rightarrow> u8 \<Rightarrow> 'c session \<times> frame result" where
  "encryptLocked A reader s messageType plaintext padLength =
     (if nextSequence s = 0 then (s, Inl ErrSequenceExhausted)
      else
        (let sequence = nextSequence s
         in case Codec_Encrypt A (send s) reader messageType (sessionID s) sequence plaintext padLength of
              Inl err \<Rightarrow> (s, Inl err)
            | Inr f \<Rightarrow>
                (let s = (if sequence = - 1 then s\<lparr>nextSequence := 0\<rparr>
                          else s\<lparr>nextSequence := nextSequence s + 1\<rparr>);
                     s = s\<lparr>sentInEpoch := sentInEpoch s + 1\<rparr>
                 in (s, Inr f))))"

definition rekeyDueLocked :: "clock \<Rightarrow> 'c session \<Rightarrow> bool" where
  "rekeyDueLocked now s \<longleftrightarrow>
     (rekeyFrameLimit s \<noteq> 0 \<and> sentInEpoch s \<ge> rekeyFrameLimit s) \<or>
     (rekeyInterval s > 0 \<and> \<not> now 0 < epochStarted s + rekeyInterval s)"

definition startRekeyLocked ::
  "'c aead \<Rightarrow> bytes \<Rightarrow> 'c session \<Rightarrow> u8 \<Rightarrow> 'c session \<times> frame result" where
  "startRekeyLocked A reader s padLength =
     (if sendEpoch s = - 1 then (s, Inl ErrEpochExhausted)
      else
        (let nextEpoch = sendEpoch s + 1
         in case ComputeKeyConfirm (Some \<lparr>rs_Epoch = sendEpoch s\<rparr>) (sendKey s) nextEpoch of
              Inl err \<Rightarrow> (s, Inl err)
            | Inr confirm \<Rightarrow>
                (case RekeyInit_MarshalBinary \<lparr>ri_Epoch = nextEpoch, ri_KeyConfirm = confirm\<rparr> of
                   Inl err \<Rightarrow> (s, Inl err)
                 | Inr payload \<Rightarrow>
                     (case encryptLocked A reader s MessageTypeRekeyInit payload padLength of
                        (s, Inl err) \<Rightarrow> (s, Inl err)
                      | (s, Inr f) \<Rightarrow>
                          (let nextKey = deriveNextTrafficKey (sendKey s)
                           in case NewCodec A (suite s) nextKey of
                                Inl err \<Rightarrow> (s, Inl err)
                              | Inr nextCodec \<Rightarrow>
                                  (s\<lparr>pendingRekey := Some \<lparr>pr_frame = f, pr_key = nextKey,
                                       pr_codec = nextCodec, pr_epoch = nextEpoch\<rparr>\<rparr>, Inr f))))))"

definition sendPayload ::
  "'c aead \<Rightarrow> clock \<Rightarrow> bytes \<Rightarrow> 'c session \<Rightarrow> u8 \<Rightarrow> bytes \<Rightarrow> u8 \<Rightarrow> 'c session \<times> frame result" where
  "sendPayload A now reader s messageType plaintext padLength =
     (if \<not> validSessionMessageType messageType then (s, Inl ErrMessageType)
      else if closed s then (s, Inl ErrSessionClosed)
      else if pendingRekey s \<noteq> None then (s, Inl ErrRekeyPending)
      else if rekeyDueLocked now s then startRekeyLocked A reader s padLength
      else encryptLocked A reader s messageType plaintext padLength)"

definition lift_session ::
  "('c session \<times> 'a result) \<Rightarrow> ('c session option \<times> 'a result)" where
  "lift_session r = (Some (fst r), snd r)"

definition Session_Send ::
  "'c aead \<Rightarrow> clock \<Rightarrow> bytes \<Rightarrow> 'c session option \<Rightarrow> any_message \<Rightarrow> u8 \<Rightarrow> 'c session option \<times> frame result" where
  "Session_Send A now reader s message padLength =
     (case s of
        None \<Rightarrow> (None, Inl ErrSessionClosed)
      | Some st \<Rightarrow>
          (case outboundMessage message of
             Inl err \<Rightarrow> (s, Inl err)
           | Inr (messageType, marshaler) \<Rightarrow>
               (case message_MarshalBinary marshaler of
                  Inl err \<Rightarrow> (s, Inl err)
                | Inr plaintext \<Rightarrow>
                    lift_session (sendPayload A now reader st messageType plaintext padLength))))"

definition Session_SendPayload ::
  "'c aead \<Rightarrow> clock \<Rightarrow> bytes \<Rightarrow> 'c session option \<Rightarrow> u8 \<Rightarrow> bytes \<Rightarrow> u8 \<Rightarrow> 'c session option \<times> frame result" where
  "Session_SendPayload A now reader s messageType plaintext padLength =
     (if messageType = MessageTypeResumptionTicket then (s, Inl ErrMessageType)
      else if messageType = MessageTypeRekeyInit then (s, Inl ErrMessageType)
      else case s of
        None \<Rightarrow> (None, Inl ErrSessionClosed)
      | Some st \<Rightarrow> lift_session (sendPayload A now reader st messageType plaintext padLength))"

definition sameRekeyFrame :: "frame \<Rightarrow> frame \<Rightarrow> bool" where
  "sameRekeyFrame a b \<longleftrightarrow>
     f_Header a = f_Header b \<and> f_Tag a = f_Tag b \<and> f_Payload a = f_Payload b \<and> f_Padding a = f_Padding b"

definition MarkRekeySent ::
  "clock \<Rightarrow> 'c session option \<Rightarrow> frame \<Rightarrow> 'c session option \<times> dg_error option" where
  "MarkRekeySent now s f =
     (case s of
        None \<Rightarrow> (None, Some ErrSessionClosed)
      | Some st \<Rightarrow>
          if closed st then (s, Some ErrSessionClosed)
          else case pendingRekey st of
            None \<Rightarrow> (s, Some ErrRekeyPending)
          | Some pending \<Rightarrow>
              if \<not> sameRekeyFrame (pr_frame pending) f then (s, Some ErrRekeyPending)
              else (Some (st\<lparr>sendKey := pr_key pending, send := pr_codec pending,
                             sendEpoch := pr_epoch pending, nextSequence := 1, sentInEpoch := 0,
                             epochStarted := now 0, pendingRekey := None\<rparr>), None))"

section \<open>session_receive.go\<close>

record receive_candidate =
  rc_plaintext :: bytes
  rc_current :: bool
  rc_token :: replay_token

definition decryptEpochLocked :: "'c aead \<Rightarrow> clock \<Rightarrow> 'c session \<Rightarrow> frame \<Rightarrow> receive_candidate result" where
  "decryptEpochLocked A now s f =
     (if h_Sequence (f_Header f) = 0 then Inl ErrReplayZero
      else case Codec_Decrypt A (receive s) f of
        Inr plaintext \<Rightarrow>
          (case Window_Check (replay s) (h_Sequence (f_Header f)) of
             Inl err \<Rightarrow> Inl err
           | Inr token \<Rightarrow> Inr \<lparr>rc_plaintext = plaintext, rc_current = True, rc_token = token\<rparr>)
      | Inl err \<Rightarrow>
          if err \<noteq> ErrAuthentication then Inl err
          else
            (case previousReceive s of
               Some previous \<Rightarrow>
                 if graceRemaining s > 0 \<and> gracePeriod s > 0 \<and> now 0 < graceUntil s then
                   (case Codec_Decrypt A previous f of
                      Inr plaintext \<Rightarrow>
                        if h_MessageType (f_Header f) = MessageTypeRekeyInit then
                          Inr \<lparr>rc_plaintext = plaintext, rc_current = False,
                               rc_token = \<lparr>tok_sequence = 0, tok_generation = 0\<rparr>\<rparr>
                        else
                          (case Window_Check (previousReplay s) (h_Sequence (f_Header f)) of
                             Inl err \<Rightarrow> Inl err
                           | Inr token \<Rightarrow>
                               Inr \<lparr>rc_plaintext = plaintext, rc_current = False, rc_token = token\<rparr>)
                    | Inl err \<Rightarrow> if err \<noteq> ErrAuthentication then Inl err else Inl ErrAuthentication)
                 else Inl ErrAuthentication
             | None \<Rightarrow> Inl ErrAuthentication))"

definition prepareRekeyLocked :: "'c aead \<Rightarrow> 'c session \<Rightarrow> rekey_init \<Rightarrow> (bytes \<times> 'c) result" where
  "prepareRekeyLocked A s init =
     (if receiveEpoch s = - 1 then Inl ErrEpochExhausted
      else if ri_Epoch init \<noteq> receiveEpoch s + 1 then Inl ErrInvalidEpoch
      else case ComputeKeyConfirm (Some \<lparr>rs_Epoch = receiveEpoch s\<rparr>) (receiveKey s) (ri_Epoch init) of
        Inl err \<Rightarrow> Inl err
      | Inr expected \<Rightarrow>
          if expected \<noteq> ri_KeyConfirm init then Inl ErrKeyConfirmFailed
          else
            (let nextKey = deriveNextTrafficKey (receiveKey s)
             in case NewCodec A (suite s) nextKey of
                  Inl err \<Rightarrow> Inl err
                | Inr nextCodec \<Rightarrow> Inr (nextKey, nextCodec)))"

definition expireGraceLocked :: "time \<Rightarrow> 'c session \<Rightarrow> 'c session" where
  "expireGraceLocked t s =
     (if previousReceive s = None then s
      else if graceRemaining s = 0 \<or> gracePeriod s \<le> 0 \<or> \<not> t < graceUntil s then
        s\<lparr>previousReceive := None, previousReplay := zero_window, graceRemaining := 0, graceUntil := 0\<rparr>
      else s)"

definition receiveLocked :: "'c aead \<Rightarrow> clock \<Rightarrow> 'c session \<Rightarrow> frame \<Rightarrow> 'c session \<times> bytes result" where
  "receiveLocked A now s f =
     (case decryptEpochLocked A now s f of
        Inl err \<Rightarrow> (s, Inl err)
      | Inr candidate \<Rightarrow>
          if \<not> rc_current candidate \<and> h_MessageType (f_Header f) = MessageTypeRekeyInit
          then (s, Inl ErrInvalidEpoch)
          else if rc_current candidate \<and> h_MessageType (f_Header f) = MessageTypeRekeyInit then
            (case RekeyInit_UnmarshalBinary (rc_plaintext candidate) of
               Inl err \<Rightarrow> (s, Inl err)
             | Inr init \<Rightarrow>
                 (case prepareRekeyLocked A s init of
                    Inl err \<Rightarrow> (s, Inl err)
                  | Inr (nextKey, nextCodec) \<Rightarrow>
                      (case Window_Commit (replay s) (rc_token candidate) of
                         Inl err \<Rightarrow> (s, Inl err)
                       | Inr committedReplay \<Rightarrow>
                           (let s = s\<lparr>previousReceive := Some (receive s), previousReplay := committedReplay\<rparr>;
                                s = s\<lparr>receive := nextCodec, receiveKey := nextKey, receiveEpoch := ri_Epoch init\<rparr>;
                                s = s\<lparr>replay := zero_window\<rparr>;
                                s = s\<lparr>graceRemaining := graceFrames s\<rparr>;
                                s = s\<lparr>graceUntil := now 1 + gracePeriod s\<rparr>;
                                s = expireGraceLocked (now 2) s
                            in (s, Inr (rc_plaintext candidate))))))
          else if rc_current candidate then
            (case Window_Commit (replay s) (rc_token candidate) of
               Inl err \<Rightarrow> (s, Inl err)
             | Inr committedReplay \<Rightarrow>
                 (let s = s\<lparr>replay := committedReplay\<rparr>;
                      s = (if previousReceive s \<noteq> None then
                             expireGraceLocked (now 1)
                               (if graceRemaining s > 0 then s\<lparr>graceRemaining := graceRemaining s - 1\<rparr> else s)
                           else s)
                  in (s, Inr (rc_plaintext candidate))))
          else
            (case Window_Commit (previousReplay s) (rc_token candidate) of
               Inl err \<Rightarrow> (s, Inl err)
             | Inr committedReplay \<Rightarrow>
                 (s\<lparr>previousReplay := committedReplay\<rparr>, Inr (rc_plaintext candidate))))"

definition ReceivePayload ::
  "'c aead \<Rightarrow> clock \<Rightarrow> 'c session option \<Rightarrow> frame \<Rightarrow> 'c session option \<times> bytes result" where
  "ReceivePayload A now s f =
     (if h_MessageType (f_Header f) = MessageTypeResumptionTicket then (s, Inl ErrMessageType)
      else case s of
        None \<Rightarrow> (None, Inl ErrSessionClosed)
      | Some st \<Rightarrow>
          if h_SessionID (f_Header f) \<noteq> sessionID st then (s, Inl ErrWrongSession)
          else if \<not> validSessionMessageType (h_MessageType (f_Header f)) then (s, Inl ErrMessageType)
          else if closed st then (s, Inl ErrSessionClosed)
          else lift_session (receiveLocked A now st f))"

definition Session_Receive ::
  "'c aead \<Rightarrow> clock \<Rightarrow> 'c session option \<Rightarrow> frame \<Rightarrow> 'c session option \<times> message result" where
  "Session_Receive A now s f =
     (case ReceivePayload A now s f of
        (s, Inl err) \<Rightarrow> (s, Inl err)
      | (s, Inr plaintext) \<Rightarrow>
          (case newInboundMessage (h_MessageType (f_Header f)) of
             Inl err \<Rightarrow> (s, Inl err)
           | Inr unmarshal \<Rightarrow> (s, unmarshal plaintext)))"

end
