(* ===== verification/Session_Invariants.thy ===== *)
theory Session_Invariants
  imports Session Message_Codecs "HOL-Library.Product_Lexorder"
begin

text \<open>
  The invariant of a session and its preservation by every operation, the effect of each
  operation on its half of the state, and the traces of a session under an arbitrary
  interleaving of calls: what it sends and what it accepts.
\<close>

section \<open>Invariant\<close>

definition send_ok :: "'c aead \<Rightarrow> 'c session \<Rightarrow> bool" where
  "send_ok A s \<longleftrightarrow>
     length (sessionID s) = 16 \<and> sessionID s \<noteq> replicate 16 0 \<and> suite s = 1
     \<and> length (sendKey s) = 32 \<and> aead_New A (sendKey s) = Inr (send s) \<and> sendEpoch s \<noteq> 0
     \<and> (\<forall>p. pendingRekey s = Some p \<longrightarrow>
          sendEpoch s \<noteq> - 1 \<and> pr_epoch p = sendEpoch s + 1
          \<and> pr_key p = deriveNextTrafficKey (sendKey s) \<and> aead_New A (pr_key p) = Inr (pr_codec p))"

definition grace_ok :: "'c session \<Rightarrow> bool" where
  "grace_ok s \<longleftrightarrow> (previousReceive s \<noteq> None \<longrightarrow>
     0 < graceRemaining s \<and> graceRemaining s \<le> graceFrames s \<and> 0 < gracePeriod s)"

definition receive_ok :: "'c aead \<Rightarrow> 'c session \<Rightarrow> bool" where
  "receive_ok A s \<longleftrightarrow>
     length (receiveKey s) = 32 \<and> aead_New A (receiveKey s) = Inr (receive s) \<and> receiveEpoch s \<noteq> 0
     \<and> (\<exists>H. tracks (replay s) H) \<and> (\<exists>H. tracks (previousReplay s) H) \<and> grace_ok s"

definition session_ok :: "'c aead \<Rightarrow> 'c session \<Rightarrow> bool" where
  "session_ok A s \<longleftrightarrow> send_ok A s \<and> receive_ok A s"

text \<open>The fields the two locks protect.\<close>

definition send_half :: "'c session \<Rightarrow> _" where
  "send_half s = (sessionID s, suite s, send s, sendKey s, sendEpoch s, nextSequence s, sentInEpoch s,
     epochStarted s, rekeyFrameLimit s, rekeyInterval s, pendingRekey s)"

definition receive_half :: "'c session \<Rightarrow> _" where
  "receive_half s = (sessionID s, suite s, receive s, receiveKey s, receiveEpoch s, replay s, previousReceive s,
     previousReplay s, graceRemaining s, graceUntil s, graceFrames s, gracePeriod s)"

lemma send_ok_half: "send_half s' = send_half s \<Longrightarrow> send_ok A s' \<longleftrightarrow> send_ok A s"
  by (simp add: send_half_def send_ok_def)

lemma receive_ok_half: "receive_half s' = receive_half s \<Longrightarrow> receive_ok A s' \<longleftrightarrow> receive_ok A s"
  by (simp add: receive_half_def receive_ok_def grace_ok_def)

section \<open>The send half\<close>

lemma encryptLocked_Inr:
  assumes "encryptLocked A reader s mt p pad = (s', Inr f)"
  shows "nextSequence s \<noteq> 0"
    and "Codec_Encrypt A (send s) reader mt (sessionID s) (nextSequence s) p pad = Inr f"
    and "s' = s\<lparr>nextSequence := nextSequence s + 1, sentInEpoch := sentInEpoch s + 1\<rparr>"
  using assms by (auto simp: encryptLocked_def Let_def split: if_splits sum.splits)

lemma encryptLocked_Inl: "encryptLocked A reader s mt p pad = (s', Inl e) \<Longrightarrow> s' = s"
  by (auto simp: encryptLocked_def Let_def split: if_splits sum.splits)

lemma encryptLocked_ok:
  assumes "nextSequence s \<noteq> 0"
    and "Codec_Encrypt A (send s) reader mt (sessionID s) (nextSequence s) p pad = Inr f"
  shows "encryptLocked A reader s mt p pad =
    (s\<lparr>nextSequence := nextSequence s + 1, sentInEpoch := sentInEpoch s + 1\<rparr>, Inr f)"
  using assms by (simp add: encryptLocked_def Let_def)

text \<open>The payload of the announcement of the next epoch under a key.\<close>

definition rekey_message :: "bytes \<Rightarrow> u32 \<Rightarrow> rekey_init" where
  "rekey_message key epoch =
     \<lparr>ri_Epoch = epoch, ri_KeyConfirm = hmac_sha256 key (str ''DGPv1 Rekey Confirm'' @ le_put 4 epoch)\<rparr>"

definition rekey_payload :: "bytes \<Rightarrow> u32 \<Rightarrow> bytes" where
  "rekey_payload key epoch = le_put 4 epoch @ ri_KeyConfirm (rekey_message key epoch)"

lemma wf_rekey_message [simp]: "wf_rekey_init (rekey_message key epoch)"
  by (simp add: rekey_message_def wf_defs)

lemma rekey_message_marshals:
  "epoch \<noteq> 0 \<Longrightarrow> RekeyInit_MarshalBinary (rekey_message key epoch) = Inr (rekey_payload key epoch)"
  using RekeyInit_MarshalBinary_eq [OF wf_rekey_message, of key epoch]
  by (simp add: rekey_payload_def) (simp add: rekey_message_def)

lemma rekey_message_unmarshals:
  "epoch \<noteq> 0 \<Longrightarrow> RekeyInit_UnmarshalBinary (rekey_payload key epoch) = Inr (rekey_message key epoch)"
  by (rule rekey_init.dec_enc [OF wf_rekey_message rekey_message_marshals])

lemma startRekeyLocked_eq:
  assumes ok: "send_ok A s" and A: "aead_ok A"
  shows "startRekeyLocked A reader s pad =
    (if sendEpoch s = - 1 then (s, Inl ErrEpochExhausted)
     else case encryptLocked A reader s 8 (rekey_payload (sendKey s) (sendEpoch s + 1)) pad of
       (s', Inl err) \<Rightarrow> (s', Inl err)
     | (s', Inr f) \<Rightarrow>
         (s'\<lparr>pendingRekey := Some \<lparr>pr_frame = f, pr_key = deriveNextTrafficKey (sendKey s),
              pr_codec = projr (aead_New A (deriveNextTrafficKey (sendKey s))),
              pr_epoch = sendEpoch s + 1\<rparr>\<rparr>, Inr f))"
proof (cases "sendEpoch s = - 1")
  case False
  obtain c where c: "aead_New A (deriveNextTrafficKey (sendKey s)) = Inr c"
    using aead_okD(1) [OF A] by fastforce
  have "ComputeKeyConfirm (Some \<lparr>rs_Epoch = sendEpoch s\<rparr>) (sendKey s) (sendEpoch s + 1) =
      Inr (ri_KeyConfirm (rekey_message (sendKey s) (sendEpoch s + 1)))"
    using False ok by (simp add: ComputeKeyConfirm_Inr send_ok_def rekey_message_def)
  moreover have "RekeyInit_MarshalBinary \<lparr>ri_Epoch = sendEpoch s + 1,
      ri_KeyConfirm = ri_KeyConfirm (rekey_message (sendKey s) (sendEpoch s + 1))\<rparr> =
      Inr (rekey_payload (sendKey s) (sendEpoch s + 1))"
    using rekey_message_marshals [of "sendEpoch s + 1" "sendKey s"] word_successor [OF False]
    by (simp add: rekey_message_def)
  moreover have "sendKey s' = sendKey s \<and> suite s' = 1"
    if "encryptLocked A reader s 8 p pad = (s', Inr f)" for p s' f
    using encryptLocked_Inr(3) [OF that] ok by (simp add: send_ok_def)
  ultimately show ?thesis
    using False c by (auto simp: startRekeyLocked_def Let_def NewCodec_def split: prod.splits sum.splits)
qed (simp add: startRekeyLocked_def)

text \<open>A send either fails and leaves the session as it is, or emits a frame under the current
  key and the next sequence number.\<close>

lemma sendPayload_Inl:
  assumes "send_ok A s" and "aead_ok A" and "sendPayload A now reader s mt p pad = (s', Inl e)"
  shows "s' = s"
  using assms(3) encryptLocked_Inl
  by (fastforce simp: sendPayload_def startRekeyLocked_eq [OF assms(1,2)] split: if_splits prod.splits sum.splits)

lemma sendPayload_Inr:
  assumes ok: "send_ok A s" and A: "aead_ok A"
    and res: "sendPayload A now reader s mt p pad = (s', Inr f)"
  shows "\<not> closed s" and "pendingRekey s = None" and "nextSequence s \<noteq> 0"
    and "Codec_Encrypt A (send s) reader (if rekeyDueLocked now s then 8 else mt) (sessionID s) (nextSequence s)
           (if rekeyDueLocked now s then rekey_payload (sendKey s) (sendEpoch s + 1) else p) pad = Inr f"
    and "rekeyDueLocked now s \<longrightarrow> sendEpoch s \<noteq> - 1"
    and "s' = s\<lparr>nextSequence := nextSequence s + 1, sentInEpoch := sentInEpoch s + 1,
           pendingRekey := (if rekeyDueLocked now s
             then Some \<lparr>pr_frame = f, pr_key = deriveNextTrafficKey (sendKey s),
                    pr_codec = projr (aead_New A (deriveNextTrafficKey (sendKey s))),
                    pr_epoch = sendEpoch s + 1\<rparr>
             else None)\<rparr>"
proof -
  show "\<not> closed s" "pendingRekey s = None" using res by (auto simp: sendPayload_def split: if_splits)
  show "nextSequence s \<noteq> 0"
    and "Codec_Encrypt A (send s) reader (if rekeyDueLocked now s then 8 else mt) (sessionID s) (nextSequence s)
           (if rekeyDueLocked now s then rekey_payload (sendKey s) (sendEpoch s + 1) else p) pad = Inr f"
    and "rekeyDueLocked now s \<longrightarrow> sendEpoch s \<noteq> - 1"
    and "s' = s\<lparr>nextSequence := nextSequence s + 1, sentInEpoch := sentInEpoch s + 1,
           pendingRekey := (if rekeyDueLocked now s
             then Some \<lparr>pr_frame = f, pr_key = deriveNextTrafficKey (sendKey s),
                    pr_codec = projr (aead_New A (deriveNextTrafficKey (sendKey s))),
                    pr_epoch = sendEpoch s + 1\<rparr>
             else None)\<rparr>"
    using res \<open>pendingRekey s = None\<close>
    by (auto simp: sendPayload_def startRekeyLocked_eq [OF ok A] split: if_splits prod.splits sum.splits
        dest: encryptLocked_Inr)
qed

lemma sendPayload_step:
  assumes "send_ok A s" and "aead_ok A"
  shows "send_ok A (fst (sendPayload A now reader s mt p pad))"
proof (cases "sendPayload A now reader s mt p pad")
  case (Pair s' r)
  show ?thesis
  proof (cases r)
    case (Inl e)
    show ?thesis using sendPayload_Inl [OF assms Pair [unfolded Inl]] Pair assms(1) by simp
  next
    case (Inr f)
    have "\<exists>c. aead_New A (deriveNextTrafficKey (sendKey s)) = Inr c" using aead_okD(1) [OF assms(2)] by simp
    then show ?thesis
      using sendPayload_Inr [OF assms Pair [unfolded Inr]] Pair assms(1) by (auto simp: send_ok_def)
  qed
qed

lemma sendPayload_receive_half:
  assumes "send_ok A s" and "aead_ok A"
  shows "receive_half (fst (sendPayload A now reader s mt p pad)) = receive_half s"
    and "closed (fst (sendPayload A now reader s mt p pad)) = closed s"
proof -
  obtain s' r where res: "sendPayload A now reader s mt p pad = (s', r)" by fastforce
  have "receive_half s' = receive_half s \<and> closed s' = closed s"
  proof (cases r)
    case (Inl e)
    then show ?thesis using sendPayload_Inl [OF assms res [unfolded Inl]] by simp
  next
    case (Inr f)
    show ?thesis using sendPayload_Inr(6) [OF assms res [unfolded Inr]] by (simp add: receive_half_def)
  qed
  then show "receive_half (fst (sendPayload A now reader s mt p pad)) = receive_half s"
    and "closed (fst (sendPayload A now reader s mt p pad)) = closed s" using res by simp_all
qed

section \<open>The receive half\<close>

lemma expireGraceLocked_fields [simp]:
  "sessionID (expireGraceLocked t s) = sessionID s" "suite (expireGraceLocked t s) = suite s"
  "send (expireGraceLocked t s) = send s" "sendKey (expireGraceLocked t s) = sendKey s"
  "sendEpoch (expireGraceLocked t s) = sendEpoch s" "nextSequence (expireGraceLocked t s) = nextSequence s"
  "sentInEpoch (expireGraceLocked t s) = sentInEpoch s" "epochStarted (expireGraceLocked t s) = epochStarted s"
  "rekeyFrameLimit (expireGraceLocked t s) = rekeyFrameLimit s"
  "rekeyInterval (expireGraceLocked t s) = rekeyInterval s"
  "pendingRekey (expireGraceLocked t s) = pendingRekey s" "closed (expireGraceLocked t s) = closed s"
  "receive (expireGraceLocked t s) = receive s" "receiveKey (expireGraceLocked t s) = receiveKey s"
  "receiveEpoch (expireGraceLocked t s) = receiveEpoch s" "replay (expireGraceLocked t s) = replay s"
  "graceFrames (expireGraceLocked t s) = graceFrames s" "gracePeriod (expireGraceLocked t s) = gracePeriod s"
  by (simp_all add: expireGraceLocked_def)

lemma expireGraceLocked_kept:
  assumes "previousReceive (expireGraceLocked t s) \<noteq> None"
  shows "expireGraceLocked t s = s" and "0 < graceRemaining s" and "0 < gracePeriod s" and "t < graceUntil s"
proof -
  have "\<not> (graceRemaining s = 0 \<or> gracePeriod s \<le> 0 \<or> \<not> t < graceUntil s)"
    using assms by (auto simp: expireGraceLocked_def split: if_splits)
  then show "expireGraceLocked t s = s" and "0 < graceRemaining s" and "0 < gracePeriod s" and "t < graceUntil s"
    by (simp_all add: expireGraceLocked_def word_gt_0)
qed

lemma expireGraceLocked_keeps:
  "0 < graceRemaining s \<Longrightarrow> 0 < gracePeriod s \<Longrightarrow> t < graceUntil s \<Longrightarrow> expireGraceLocked t s = s"
  by (simp add: expireGraceLocked_def)

lemma expireGraceLocked_previousReplay:
  "previousReplay (expireGraceLocked t s) = previousReplay s \<or> previousReplay (expireGraceLocked t s) = zero_window"
  by (simp add: expireGraceLocked_def)

text \<open>The four ways out of \<^verbatim>\<open>ReceivePayload\<close>'s critical section.\<close>

lemma receiveLocked_cases:
  assumes "receiveLocked A now s f = (s', r)"
  obtains (rejected) e where "r = Inl e" and "s' = s"
  | (rekeyed) p t init key c w where
      "decryptEpochLocked A now s f = Inr \<lparr>rc_plaintext = p, rc_current = True, rc_token = t\<rparr>"
      "h_MessageType (f_Header f) = 8" "RekeyInit_UnmarshalBinary p = Inr init"
      "prepareRekeyLocked A s init = Inr (key, c)" "Window_Commit (replay s) t = Inr w" "r = Inr p"
      "s' = expireGraceLocked (now 2)
         (s\<lparr>previousReceive := Some (receive s), previousReplay := w, receive := c, receiveKey := key,
            receiveEpoch := ri_Epoch init, replay := zero_window, graceRemaining := graceFrames s,
            graceUntil := now 1 + gracePeriod s\<rparr>)"
  | (current) p t w where
      "decryptEpochLocked A now s f = Inr \<lparr>rc_plaintext = p, rc_current = True, rc_token = t\<rparr>"
      "h_MessageType (f_Header f) \<noteq> 8" "Window_Commit (replay s) t = Inr w" "r = Inr p"
      "s' = (if previousReceive s \<noteq> None then
               expireGraceLocked (now 1)
                 (if 0 < graceRemaining s then s\<lparr>replay := w, graceRemaining := graceRemaining s - 1\<rparr>
                  else s\<lparr>replay := w\<rparr>)
             else s\<lparr>replay := w\<rparr>)"
  | (previous) p t w where
      "decryptEpochLocked A now s f = Inr \<lparr>rc_plaintext = p, rc_current = False, rc_token = t\<rparr>"
      "h_MessageType (f_Header f) \<noteq> 8" "Window_Commit (previousReplay s) t = Inr w" "r = Inr p"
      "s' = s\<lparr>previousReplay := w\<rparr>"
proof (cases "decryptEpochLocked A now s f")
  case (Inl e)
  then show ?thesis using assms rejected by (auto simp: receiveLocked_def)
next
  case dec: (Inr cand)
  obtain p cur t where cand: "cand = \<lparr>rc_plaintext = p, rc_current = cur, rc_token = t\<rparr>" by (cases cand)
  consider "cur" "h_MessageType (f_Header f) = 8" | "\<not> cur" "h_MessageType (f_Header f) = 8"
    | "cur" "h_MessageType (f_Header f) \<noteq> 8" | "\<not> cur" "h_MessageType (f_Header f) \<noteq> 8" by blast
  then show ?thesis
  proof cases
    case 1
    consider e where "RekeyInit_UnmarshalBinary p = Inl e"
      | init e where "RekeyInit_UnmarshalBinary p = Inr init" "prepareRekeyLocked A s init = Inl e"
      | init key c e where "RekeyInit_UnmarshalBinary p = Inr init" "prepareRekeyLocked A s init = Inr (key, c)"
          "Window_Commit (replay s) t = Inl e"
      | init key c w where "RekeyInit_UnmarshalBinary p = Inr init" "prepareRekeyLocked A s init = Inr (key, c)"
          "Window_Commit (replay s) t = Inr w"
      by (metis sum.exhaust surj_pair)
    then show ?thesis
    proof cases
      case (4 init key c w)
      have "s' = expireGraceLocked (now 2)
         (s\<lparr>previousReceive := Some (receive s), previousReplay := w, receive := c, receiveKey := key,
            receiveEpoch := ri_Epoch init, replay := zero_window, graceRemaining := graceFrames s,
            graceUntil := now 1 + gracePeriod s\<rparr>)" and "r = Inr p"
        using assms dec cand 1 4 by (simp_all add: receiveLocked_def Let_def)
      with dec cand 1 4 show ?thesis by (intro rekeyed [of p t init key c w]) simp_all
    qed (use assms dec cand 1 rejected in \<open>auto simp: receiveLocked_def\<close>)
  next
    case 2
    then show ?thesis using assms dec cand rejected by (auto simp: receiveLocked_def)
  next
    case 3
    show ?thesis
    proof (cases "Window_Commit (replay s) t")
      case (Inr w)
      have "s' = (if previousReceive s \<noteq> None then
               expireGraceLocked (now 1)
                 (if 0 < graceRemaining s then s\<lparr>replay := w, graceRemaining := graceRemaining s - 1\<rparr>
                  else s\<lparr>replay := w\<rparr>)
             else s\<lparr>replay := w\<rparr>)" and "r = Inr p"
        using assms dec cand 3 Inr by (auto simp: receiveLocked_def Let_def)
      with dec cand 3 Inr show ?thesis by (intro current [of p t w]) simp_all
    qed (use assms dec cand 3 rejected in \<open>auto simp: receiveLocked_def\<close>)
  next
    case 4
    show ?thesis
    proof (cases "Window_Commit (previousReplay s) t")
      case (Inr w)
      with assms dec cand 4 show ?thesis by (intro previous [of p t w]) (simp_all add: receiveLocked_def)
    qed (use assms dec cand 4 rejected in \<open>auto simp: receiveLocked_def\<close>)
  qed
qed

lemma decryptEpochLocked_current:
  assumes "decryptEpochLocked A now s f = Inr \<lparr>rc_plaintext = p, rc_current = True, rc_token = t\<rparr>"
  shows "Codec_Decrypt A (receive s) f = Inr p" and "Window_Check (replay s) (h_Sequence (f_Header f)) = Inr t"
  using assms by (auto simp: decryptEpochLocked_def split: if_splits sum.splits option.splits)

lemma decryptEpochLocked_previous:
  assumes "decryptEpochLocked A now s f = Inr \<lparr>rc_plaintext = p, rc_current = False, rc_token = t\<rparr>"
  shows "Codec_Decrypt A (receive s) f = Inl ErrAuthentication"
    and "\<exists>c. previousReceive s = Some c \<and> Codec_Decrypt A c f = Inr p"
    and "now 0 < graceUntil s"
    and "h_MessageType (f_Header f) \<noteq> 8 \<Longrightarrow> Window_Check (previousReplay s) (h_Sequence (f_Header f)) = Inr t"
  using assms by (auto simp: decryptEpochLocked_def split: if_splits sum.splits option.splits)

lemma prepareRekeyLocked_Inr:
  "prepareRekeyLocked A s init = Inr (key, c) \<longleftrightarrow>
     receiveEpoch s \<noteq> - 1 \<and> receiveEpoch s \<noteq> 0 \<and> init = rekey_message (receiveKey s) (receiveEpoch s + 1)
     \<and> key = deriveNextTrafficKey (receiveKey s) \<and> suite s = 1 \<and> aead_New A key = Inr c"
  by (cases init) (auto simp: prepareRekeyLocked_def Let_def NewCodec_def ComputeKeyConfirm_def copy_at_def
      rekey_message_def split: sum.splits)

lemma tracks_commit:
  "tracks w H \<Longrightarrow> Window_Check w n = Inr t \<Longrightarrow> Window_Commit w t = Inr w' \<Longrightarrow> tracks w' (insert (unat n) H)"
  using Window_Commit_checked by fastforce

lemma grace_ok_expire:
  assumes "graceRemaining s \<le> graceFrames s"
  shows "grace_ok (expireGraceLocked t s)"
  unfolding grace_ok_def
proof
  assume "previousReceive (expireGraceLocked t s) \<noteq> None"
  note kept = expireGraceLocked_kept [OF this]
  show "0 < graceRemaining (expireGraceLocked t s)
      \<and> graceRemaining (expireGraceLocked t s) \<le> graceFrames (expireGraceLocked t s)
      \<and> 0 < gracePeriod (expireGraceLocked t s)"
    unfolding kept(1) using kept(2,3) assms by simp
qed

lemma grace_ok_frame:
  assumes "grace_ok s" and "previousReceive s \<noteq> None"
  shows "grace_ok (expireGraceLocked t (s\<lparr>replay := w, graceRemaining := graceRemaining s - 1\<rparr>))"
proof (rule grace_ok_expire)
  have "0 < graceRemaining s" "graceRemaining s \<le> graceFrames s" using assms by (auto simp: grace_ok_def)
  then show "graceRemaining (s\<lparr>replay := w, graceRemaining := graceRemaining s - 1\<rparr>) \<le>
      graceFrames (s\<lparr>replay := w, graceRemaining := graceRemaining s - 1\<rparr>)"
    by (simp add: word_gt_0 word_le_nat_alt unat_minus_one)
qed

lemma receiveLocked_send_half:
  "send_half (fst (receiveLocked A now s f)) = send_half s \<and> closed (fst (receiveLocked A now s f)) = closed s"
proof (cases "receiveLocked A now s f")
  case (Pair s' r)
  then have "send_half s' = send_half s \<and> closed s' = closed s"
    by (cases rule: receiveLocked_cases) (simp_all add: send_half_def)
  with Pair show ?thesis by simp
qed

lemma tracks_expired:
  "\<exists>K. tracks (previousReplay s) K \<Longrightarrow> \<exists>K. tracks (previousReplay (expireGraceLocked t s)) K"
  using expireGraceLocked_previousReplay [of t s] tracks_zero_window by metis

lemma receiveLocked_step:
  assumes ok: "receive_ok A s"
  shows "receive_ok A (fst (receiveLocked A now s f))"
proof (cases "receiveLocked A now s f")
  case (Pair s' r)
  obtain H H' where H: "tracks (replay s) H" "tracks (previousReplay s) H'" using ok by (auto simp: receive_ok_def)
  from Pair have "receive_ok A s'"
  proof (cases rule: receiveLocked_cases)
    case (rejected e)
    then show ?thesis using ok by simp
  next
    case (rekeyed p t init key c w)
    have prep: "ri_Epoch init \<noteq> 0" "length key = 32" "aead_New A key = Inr c"
      using rekeyed(4) word_successor by (auto simp: prepareRekeyLocked_Inr rekey_message_def)
    have "tracks w (insert (unat (h_Sequence (f_Header f))) H)"
      using tracks_commit [OF H(1) decryptEpochLocked_current(2) [OF rekeyed(1)] rekeyed(5)] .
    then show ?thesis
      unfolding rekeyed(7) receive_ok_def using prep tracks_zero_window
      by (intro conjI tracks_expired grace_ok_expire) auto
  next
    case (current p t w)
    have w: "tracks w (insert (unat (h_Sequence (f_Header f))) H)"
      using tracks_commit [OF H(1) decryptEpochLocked_current(2) [OF current(1)] current(3)] .
    have g: "grace_ok s" using ok by (simp add: receive_ok_def)
    show ?thesis
    proof (cases "previousReceive s = None")
      case True
      with current(5) ok w H show ?thesis by (auto simp: receive_ok_def grace_ok_def)
    next
      case False
      with g have "0 < graceRemaining s" by (simp add: grace_ok_def)
      with False current(5) have "s' = expireGraceLocked (now 1) (s\<lparr>replay := w, graceRemaining := graceRemaining s - 1\<rparr>)"
        by simp
      then show ?thesis
        unfolding receive_ok_def using ok w H(2) grace_ok_frame [OF g False]
        by (auto simp: receive_ok_def intro!: tracks_expired)
    qed
  next
    case (previous p t w)
    have "tracks w (insert (unat (h_Sequence (f_Header f))) H')"
      using tracks_commit [OF H(2) decryptEpochLocked_previous(4) [OF previous(1,2)] previous(3)] .
    then show ?thesis using ok previous(5) by (auto simp: receive_ok_def grace_ok_def)
  qed
  with Pair show ?thesis by simp
qed

section \<open>Operations in any order\<close>

datatype session_op =
  OpSend any_message u8 clock bytes
| OpSendPayload u8 bytes u8 clock bytes
| OpMarkRekeySent frame clock
| OpReceive frame clock
| OpReceivePayload frame clock
| OpClose

fun session_step :: "'c aead \<Rightarrow> session_op \<Rightarrow> 'c session \<Rightarrow> 'c session" where
  "session_step A (OpSend m pad now reader) s = the (fst (Session_Send A now reader (Some s) m pad))"
| "session_step A (OpSendPayload mt p pad now reader) s =
     the (fst (Session_SendPayload A now reader (Some s) mt p pad))"
| "session_step A (OpMarkRekeySent f now) s = the (fst (MarkRekeySent now (Some s) f))"
| "session_step A (OpReceive f now) s = the (fst (Session_Receive A now (Some s) f))"
| "session_step A (OpReceivePayload f now) s = the (fst (ReceivePayload A now (Some s) f))"
| "session_step A OpClose s = the (fst (Session_Close (Some s)))"

text \<open>The frame a call hands out, and the epoch and sequence number a call accepts.\<close>

definition result_option :: "'a result \<Rightarrow> 'a option" where
  "result_option r = (case r of Inl _ \<Rightarrow> None | Inr x \<Rightarrow> Some x)"

fun emitted :: "'c aead \<Rightarrow> session_op \<Rightarrow> 'c session \<Rightarrow> frame option" where
  "emitted A (OpSend m pad now reader) s = result_option (snd (Session_Send A now reader (Some s) m pad))"
| "emitted A (OpSendPayload mt p pad now reader) s =
     result_option (snd (Session_SendPayload A now reader (Some s) mt p pad))"
| "emitted A _ s = None"

definition accepted_pair :: "'c aead \<Rightarrow> clock \<Rightarrow> 'c session \<Rightarrow> frame \<Rightarrow> (nat \<times> nat) option" where
  "accepted_pair A now s f =
     (case snd (ReceivePayload A now (Some s) f) of
        Inl _ \<Rightarrow> None
      | Inr _ \<Rightarrow>
          (case decryptEpochLocked A now s f of
             Inl _ \<Rightarrow> None
           | Inr c \<Rightarrow> Some (unat (if rc_current c then receiveEpoch s else receiveEpoch s - 1),
                           unat (h_Sequence (f_Header f)))))"

fun accepted :: "'c aead \<Rightarrow> session_op \<Rightarrow> 'c session \<Rightarrow> (nat \<times> nat) option" where
  "accepted A (OpReceive f now) s = accepted_pair A now s f"
| "accepted A (OpReceivePayload f now) s = accepted_pair A now s f"
| "accepted A _ s = None"

fun sent_trace :: "'c aead \<Rightarrow> 'c session \<Rightarrow> session_op list \<Rightarrow> (u32 \<times> frame) list" where
  "sent_trace A s [] = []"
| "sent_trace A s (op # ops) =
     (case emitted A op s of None \<Rightarrow> [] | Some f \<Rightarrow> [(sendEpoch s, f)]) @ sent_trace A (session_step A op s) ops"

fun accepted_trace :: "'c aead \<Rightarrow> 'c session \<Rightarrow> session_op list \<Rightarrow> (nat \<times> nat) list" where
  "accepted_trace A s [] = []"
| "accepted_trace A s (op # ops) =
     (case accepted A op s of None \<Rightarrow> [] | Some x \<Rightarrow> [x]) @ accepted_trace A (session_step A op s) ops"

text \<open>Every call is one of: nothing, a locked send, a confirmed rekey, a locked receive, a close.\<close>

lemma ReceivePayload_state:
  "the (fst (ReceivePayload A now (Some s) f)) = s \<or>
   (the (fst (ReceivePayload A now (Some s) f)) = fst (receiveLocked A now s f)
    \<and> snd (ReceivePayload A now (Some s) f) = snd (receiveLocked A now s f))"
  by (simp add: ReceivePayload_def lift_session_def)

lemma Session_Receive_state:
  "the (fst (Session_Receive A now (Some s) f)) = the (fst (ReceivePayload A now (Some s) f))"
  by (simp add: Session_Receive_def split: prod.splits sum.splits)

lemma Session_Send_state:
  "(the (fst (Session_Send A now reader (Some s) m pad)) = s
     \<and> (\<exists>e. snd (Session_Send A now reader (Some s) m pad) = Inl e))
   \<or> (\<exists>mt p. the (fst (Session_Send A now reader (Some s) m pad)) = fst (sendPayload A now reader s mt p pad)
     \<and> snd (Session_Send A now reader (Some s) m pad) = snd (sendPayload A now reader s mt p pad))"
  by (auto simp: Session_Send_def lift_session_def split: sum.splits prod.splits)

lemma Session_SendPayload_state:
  "(the (fst (Session_SendPayload A now reader (Some s) mt p pad)) = s
     \<and> (\<exists>e. snd (Session_SendPayload A now reader (Some s) mt p pad) = Inl e))
   \<or> (the (fst (Session_SendPayload A now reader (Some s) mt p pad)) = fst (sendPayload A now reader s mt p pad)
     \<and> snd (Session_SendPayload A now reader (Some s) mt p pad) = snd (sendPayload A now reader s mt p pad))"
  by (simp add: Session_SendPayload_def lift_session_def)

lemma MarkRekeySent_state:
  "the (fst (MarkRekeySent now (Some s) f)) = s
   \<or> (\<exists>q. pendingRekey s = Some q
        \<and> the (fst (MarkRekeySent now (Some s) f)) =
          s\<lparr>sendKey := pr_key q, send := pr_codec q, sendEpoch := pr_epoch q, nextSequence := 1,
             sentInEpoch := 0, epochStarted := now 0, pendingRekey := None\<rparr>)"
  by (auto simp: MarkRekeySent_def split: option.splits)

lemma session_step_cases:
  obtains (idle) "session_step A op s = s" and "emitted A op s = None"
  | (sent) now reader mt p pad where
      "session_step A op s = fst (sendPayload A now reader s mt p pad)"
      "emitted A op s = result_option (snd (sendPayload A now reader s mt p pad))" "accepted A op s = None"
  | (marked) t q where "pendingRekey s = Some q" "emitted A op s = None" "accepted A op s = None"
      "session_step A op s = s\<lparr>sendKey := pr_key q, send := pr_codec q, sendEpoch := pr_epoch q,
         nextSequence := 1, sentInEpoch := 0, epochStarted := t, pendingRekey := None\<rparr>"
  | (received) now f where
      "session_step A op s = fst (receiveLocked A now s f)" "emitted A op s = None"
  | (shut) "session_step A op s = s\<lparr>closed := True\<rparr>" "emitted A op s = None" "accepted A op s = None"
proof (cases op)
  case (OpSend m pad now reader)
  with Session_Send_state [of A now reader s m pad] idle sent show ?thesis
    by (auto simp: result_option_def)
next
  case (OpSendPayload mt p pad now reader)
  with Session_SendPayload_state [of A now reader s mt p pad] idle sent show ?thesis
    by (auto simp: result_option_def)
next
  case (OpMarkRekeySent f now)
  with MarkRekeySent_state [of now s f] idle marked [of _ "now 0"] show ?thesis by auto
next
  case (OpReceive f now)
  then show ?thesis
    using ReceivePayload_state [of A now s f] idle received [of now f] by (auto simp: Session_Receive_state)
next
  case (OpReceivePayload f now)
  then show ?thesis using ReceivePayload_state [of A now s f] idle received [of now f] by auto
next
  case OpClose
  then show ?thesis using shut by (simp add: Session_Close_def)
qed

theorem session_step_ok:
  assumes A: "aead_ok A" and ok: "session_ok A s"
  shows "session_ok A (session_step A op s)"
proof -
  from ok have ok': "send_ok A s" "receive_ok A s" by (simp_all add: session_ok_def)
  show ?thesis
  proof (cases rule: session_step_cases [of A op s])
    case (sent now reader mt p pad)
    with sendPayload_step [OF ok'(1) A] sendPayload_receive_half(1) [OF ok'(1) A] ok'(2) receive_ok_half
    show ?thesis by (metis session_ok_def)
  next
    case (marked t q)
    have "send_ok A (session_step A op s)"
      using ok'(1) marked(1) word_successor by (auto simp: marked(4) send_ok_def)
    moreover have "receive_half (session_step A op s) = receive_half s"
      by (simp add: marked(4) receive_half_def)
    ultimately show ?thesis using ok'(2) receive_ok_half by (metis session_ok_def)
  next
    case (received now f)
    with receiveLocked_step [OF ok'(2)] receiveLocked_send_half [of A now s f] ok'(1) send_ok_half
    show ?thesis by (metis session_ok_def)
  next
    case shut
    have "send_half (s\<lparr>closed := True\<rparr>) = send_half s" "receive_half (s\<lparr>closed := True\<rparr>) = receive_half s"
      by (simp_all add: send_half_def receive_half_def)
    then show ?thesis using ok' shut(1) send_ok_half receive_ok_half by (metis session_ok_def)
  qed (use ok in simp)
qed

section \<open>What is sent\<close>

text \<open>The position of the sender: epoch, and next sequence number with exhaustion last.\<close>

definition send_position :: "'c session \<Rightarrow> nat \<times> nat" where
  "send_position s = (unat (sendEpoch s), if nextSequence s = 0 then 2 ^ 64 else unat (nextSequence s))"

definition frame_position :: "u32 \<times> frame \<Rightarrow> nat \<times> nat" where
  "frame_position x = (unat (fst x), unat (h_Sequence (f_Header (snd x))))"

definition epoch_key :: "bytes \<Rightarrow> nat \<Rightarrow> bytes" where
  "epoch_key key e = (deriveNextTrafficKey ^^ (e - 1)) key"

lemma sequence_advances:
  assumes "(n :: u64) \<noteq> 0"
  shows "unat n < (if n + 1 = 0 then 2 ^ 64 else unat (n + 1))"
proof (cases "n = - 1")
  case True
  then show ?thesis using unsigned_less [of n, where ?'a = nat] by simp
next
  case False
  then show ?thesis using word_successor [OF False] by simp
qed

lemma emitted_send:
  assumes A: "aead_ok A" and ok: "send_ok A s" and em: "emitted A op s = Some f"
  obtains now reader mt p pad s' where "sendPayload A now reader s mt p pad = (s', Inr f)" "session_step A op s = s'"
proof (cases rule: session_step_cases [of A op s])
  case (sent now reader mt p pad)
  then show ?thesis using em that
    by (cases "sendPayload A now reader s mt p pad") (auto simp: result_option_def split: sum.splits)
qed (use em in simp_all)

lemma emitted_sealed:
  assumes A: "aead_ok A" and ok: "send_ok A s" and em: "emitted A op s = Some f"
  shows "\<exists>mt p padding. f = sealed_frame A (send s) mt (sessionID s) (nextSequence s) p padding"
    and "send_position s = frame_position (sendEpoch s, f)"
    and "send_position s < send_position (session_step A op s)"
proof -
  obtain now reader mt p pad s' where send: "sendPayload A now reader s mt p pad = (s', Inr f)"
    and s': "session_step A op s = s'" using emitted_send [OF A ok em] .
  note r = sendPayload_Inr [OF ok A send]
  have sid: "length (sessionID s) = 16" using ok by (simp add: send_ok_def)
  show sealed: "\<exists>mt p padding. f = sealed_frame A (send s) mt (sessionID s) (nextSequence s) p padding"
    using r(4) unfolding Codec_Encrypt_eq [OF A sid] by (auto split: option.splits if_splits sum.splits)
  then have "h_Sequence (f_Header f) = nextSequence s" by auto
  then show "send_position s = frame_position (sendEpoch s, f)"
    using r(3) by (simp add: send_position_def frame_position_def)
  show "send_position s < send_position (session_step A op s)"
    using sequence_advances [OF r(3)] r(3) by (auto simp: s' r(6) send_position_def split: if_splits)
qed

lemma send_position_mono:
  assumes A: "aead_ok A" and ok: "session_ok A s"
  shows "send_position s \<le> send_position (session_step A op s)"
proof (cases rule: session_step_cases [of A op s])
  case (sent now reader mt p pad)
  have ok': "send_ok A s" using ok by (simp add: session_ok_def)
  show ?thesis
  proof (cases "snd (sendPayload A now reader s mt p pad)")
    case (Inl e)
    then have "fst (sendPayload A now reader s mt p pad) = s"
      using sendPayload_Inl [OF ok' A, of now reader mt p pad] by (metis prod.collapse)
    then show ?thesis using sent by simp
  next
    case (Inr f)
    then show ?thesis
      using emitted_sealed(3) [OF A ok', of op f] sent by (simp add: result_option_def)
  qed
next
  case (marked t q)
  then show ?thesis
    using ok word_successor [of "sendEpoch s"] by (auto simp: send_position_def session_ok_def send_ok_def)
next
  case (received now f)
  then show ?thesis
    using receiveLocked_send_half [of A now s f] by (simp add: send_position_def send_half_def)
qed (simp_all add: send_position_def)

lemma sent_trace_increasing:
  assumes A: "aead_ok A" and ok: "session_ok A s"
  shows "sorted_wrt (<) (map frame_position (sent_trace A s ops))
    \<and> (\<forall>x \<in> set (sent_trace A s ops). send_position s \<le> frame_position x)"
  using ok
proof (induction ops arbitrary: s)
  case (Cons op ops)
  have ok': "send_ok A s" using Cons.prems by (simp add: session_ok_def)
  note IH = Cons.IH [OF session_step_ok [OF A Cons.prems, of op]]
  show ?case
  proof (cases "emitted A op s")
    case None
    then show ?thesis using IH send_position_mono [OF A Cons.prems, of op] by fastforce
  next
    case (Some f)
    then show ?thesis
      using IH emitted_sealed(2,3) [OF A ok' Some] by fastforce
  qed
qed simp

text \<open>The send key is the handshake key ratcheted once per epoch.\<close>

definition ratcheted :: "bytes \<Rightarrow> bytes \<Rightarrow> 'c session \<Rightarrow> bool" where
  "ratcheted sid key s \<longleftrightarrow> sessionID s = sid \<and> sendKey s = epoch_key key (unat (sendEpoch s))"

lemma ratcheted_step:
  assumes A: "aead_ok A" and ok: "session_ok A s" and r: "ratcheted sid key s"
  shows "ratcheted sid key (session_step A op s)"
proof (cases rule: session_step_cases [of A op s])
  case (sent now reader mt p pad)
  have ok': "send_ok A s" using ok by (simp add: session_ok_def)
  obtain s' r' where res: "sendPayload A now reader s mt p pad = (s', r')" by fastforce
  have "sessionID s' = sessionID s \<and> sendKey s' = sendKey s \<and> sendEpoch s' = sendEpoch s"
    using sendPayload_Inl [OF ok' A] sendPayload_Inr(6) [OF ok' A] res by (cases r') fastforce+
  then show ?thesis using r sent(1) res by (simp add: ratcheted_def)
next
  case (marked t q)
  have e: "sendEpoch s \<noteq> - 1" "pr_epoch q = sendEpoch s + 1" "pr_key q = deriveNextTrafficKey (sendKey s)" "sendEpoch s \<noteq> 0"
    using ok marked(1) by (auto simp: session_ok_def send_ok_def)
  then have "unat (pr_epoch q) - 1 = Suc (unat (sendEpoch s) - 1)" "sendEpoch s \<noteq> 0"
    using word_successor [OF e(1)] by (simp_all add: unat_gt_0)
  then show ?thesis using r e(3) by (simp add: marked(4) ratcheted_def epoch_key_def)
next
  case (received now f)
  then show ?thesis
    using r receiveLocked_send_half [of A now s f] by (simp add: ratcheted_def send_half_def)
qed (use r in \<open>simp_all add: ratcheted_def\<close>)

lemma sent_trace_sealed:
  assumes A: "aead_ok A" and ok: "session_ok A s" and r: "ratcheted sid key s"
    and x: "(e, f) \<in> set (sent_trace A s ops)"
  shows "\<exists>c mt p padding. aead_New A (epoch_key key (unat e)) = Inr c
    \<and> f = sealed_frame A c mt sid (h_Sequence (f_Header f)) p padding"
  using ok r x
proof (induction ops arbitrary: s)
  case (Cons op ops)
  have ok': "send_ok A s" using Cons.prems by (simp add: session_ok_def)
  show ?case
  proof (cases "emitted A op s = Some f \<and> e = sendEpoch s")
    case True
    then obtain mt p padding where f: "f = sealed_frame A (send s) mt (sessionID s) (nextSequence s) p padding"
      using emitted_sealed(1) [OF A ok'] by blast
    then have "h_Sequence (f_Header f) = nextSequence s" by simp
    with f Cons.prems(2) ok' True show ?thesis by (auto simp: ratcheted_def send_ok_def)
  next
    case False
    then have "(e, f) \<in> set (sent_trace A (session_step A op s) ops)"
      using Cons.prems(3) by (auto split: option.splits)
    then show ?thesis
      using Cons.IH [OF session_step_ok [OF A Cons.prems(1)] ratcheted_step [OF A Cons.prems(1,2)]] by blast
  qed
qed simp

end
