(* ===== verification/Session_Properties.thy ===== *)
theory Session_Properties
  imports Session_Invariants
begin

text \<open>
  What a session guarantees: no nonce is used twice under a key, no epoch and sequence number
  is accepted twice whatever frames arrive, failed receives change nothing, the two halves do
  not interfere, a closed session stays closed, and the old receive key dies within its grace
  budget. The state machine is an instance of \<open>invariant_machine\<close>.
\<close>

section \<open>What is accepted\<close>

text \<open>\<open>R\<close> is the set of epoch and sequence pairs accepted so far.\<close>

definition received_ok :: "'c session \<Rightarrow> (nat \<times> nat) set \<Rightarrow> bool" where
  "received_ok s R \<longleftrightarrow>
     (\<forall>(e, n) \<in> R. e \<le> unat (receiveEpoch s))
     \<and> tracks (replay s) {n. (unat (receiveEpoch s), n) \<in> R}
     \<and> (previousReceive s \<noteq> None \<longrightarrow> tracks (previousReplay s) {n. (unat (receiveEpoch s) - 1, n) \<in> R})"

lemma received_ok_half: "receive_half s' = receive_half s \<Longrightarrow> received_ok s' R \<longleftrightarrow> received_ok s R"
  by (simp add: receive_half_def received_ok_def)

lemma received_okI:
  assumes "\<And>e n. (e, n) \<in> R \<Longrightarrow> e \<le> unat (receiveEpoch s)"
    and "tracks (replay s) {n. (unat (receiveEpoch s), n) \<in> R}"
    and "previousReceive s \<noteq> None \<Longrightarrow> tracks (previousReplay s) {n. (unat (receiveEpoch s) - 1, n) \<in> R}"
  shows "received_ok s R"
  using assms by (auto simp: received_ok_def)

lemma received_okD:
  assumes "received_ok s R"
  shows "(e, n) \<in> R \<Longrightarrow> e \<le> unat (receiveEpoch s)"
    and "tracks (replay s) {n. (unat (receiveEpoch s), n) \<in> R}"
    and "previousReceive s \<noteq> None \<Longrightarrow> tracks (previousReplay s) {n. (unat (receiveEpoch s) - 1, n) \<in> R}"
  using assms by (auto simp: received_ok_def)

lemma received_ok_current:
  assumes R: "received_ok s R" and t: "Window_Check (replay s) n = Inr t" and w: "Window_Commit (replay s) t = Inr w"
  shows "(unat (receiveEpoch s), unat n) \<notin> R"
    and "tracks w {m. (unat (receiveEpoch s), m) \<in> insert (unat (receiveEpoch s), unat n) R}"
proof -
  let ?H = "{m. (unat (receiveEpoch s), m) \<in> R}"
  have tr: "tracks (replay s) ?H" using R by (simp add: received_ok_def)
  show "(unat (receiveEpoch s), unat n) \<notin> R" using window.check_new [OF tr t] by simp
  have "{m. (unat (receiveEpoch s), m) \<in> insert (unat (receiveEpoch s), unat n) R} = insert (unat n) ?H" by auto
  then show "tracks w {m. (unat (receiveEpoch s), m) \<in> insert (unat (receiveEpoch s), unat n) R}"
    using tracks_commit [OF tr t w] by simp
qed

lemma received_ok_accept:
  assumes ok: "receive_ok A s" and R: "received_ok s R" and dec: "decryptEpochLocked A now s f = Inr c"
    and res: "receiveLocked A now s f = (s', Inr p)"
  defines "x \<equiv> (unat (if rc_current c then receiveEpoch s else receiveEpoch s - 1), unat (h_Sequence (f_Header f)))"
  shows "x \<notin> R \<and> received_ok s' (insert x R)"
  using res
proof (cases rule: receiveLocked_cases)
  case (rejected e)
  then show ?thesis by simp
next
  case (rekeyed q t init key cc w)
  have x: "x = (unat (receiveEpoch s), unat (h_Sequence (f_Header f)))" using dec rekeyed(1) by (auto simp: x_def)
  have e: "unat (ri_Epoch init) = unat (receiveEpoch s) + 1"
    using rekeyed(4) word_successor by (auto simp: prepareRekeyLocked_Inr rekey_message_def)
  note new = received_ok_current [OF R decryptEpochLocked_current(2) [OF rekeyed(1)] rekeyed(5), folded x]
  have none: "{n. (unat (receiveEpoch s) + 1, n) \<in> insert x R} = {}"
    using received_okD(1) [OF R, of "unat (receiveEpoch s) + 1"] x by auto
  have "received_ok s' (insert x R)"
  proof (rule received_okI)
    have "receiveEpoch s' = ri_Epoch init" "replay s' = zero_window" by (simp_all add: rekeyed(7))
    then show "d \<le> unat (receiveEpoch s')" if "(d, n) \<in> insert x R" for d n
      using that received_okD(1) [OF R, of d n] x e by auto
    show "tracks (replay s') {n. (unat (receiveEpoch s'), n) \<in> insert x R}"
      using none e tracks_zero_window by (simp add: rekeyed(7))
    assume "previousReceive s' \<noteq> None"
    then have "previousReplay s' = w"
      unfolding rekeyed(7) by (subst expireGraceLocked_kept(1)) simp_all
    then show "tracks (previousReplay s') {n. (unat (receiveEpoch s') - 1, n) \<in> insert x R}"
      using new(2) e x by (simp add: rekeyed(7))
  qed
  with new(1) show ?thesis by simp
next
  case (current q t w)
  have x: "x = (unat (receiveEpoch s), unat (h_Sequence (f_Header f)))" using dec current(1) by (auto simp: x_def)
  note new = received_ok_current [OF R decryptEpochLocked_current(2) [OF current(1)] current(3), folded x]
  have prev: "{n. (unat (receiveEpoch s) - 1, n) \<in> insert x R} = {n. (unat (receiveEpoch s) - 1, n) \<in> R}"
  proof -
    have "0 < unat (receiveEpoch s)" using ok by (simp add: receive_ok_def unat_gt_0)
    then show ?thesis using x by auto
  qed
  have s': "receiveEpoch s' = receiveEpoch s" "replay s' = w" using current(5) by (simp_all split: if_splits)
  have kept: "previousReceive s \<noteq> None \<and> previousReplay s' = previousReplay s" if "previousReceive s' \<noteq> None"
  proof (cases "previousReceive s = None")
    case False
    let ?g = "if 0 < graceRemaining s then s\<lparr>replay := w, graceRemaining := graceRemaining s - 1\<rparr> else s\<lparr>replay := w\<rparr>"
    have eq: "s' = expireGraceLocked (now 1) ?g" using current(5) False by simp
    have "expireGraceLocked (now 1) ?g = ?g" using that unfolding eq by (rule expireGraceLocked_kept(1))
    then have "previousReplay s' = previousReplay ?g" unfolding eq by (rule arg_cong)
    then show ?thesis using False by simp
  qed (use current(5) that in simp)
  have "received_ok s' (insert x R)"
  proof (rule received_okI)
    show "d \<le> unat (receiveEpoch s')" if "(d, n) \<in> insert x R" for d n
      using that received_okD(1) [OF R, of d n] x s' by auto
    show "tracks (replay s') {n. (unat (receiveEpoch s'), n) \<in> insert x R}" using new(2) x s' by simp
    show "tracks (previousReplay s') {n. (unat (receiveEpoch s') - 1, n) \<in> insert x R}" if "previousReceive s' \<noteq> None"
      unfolding s' prev using kept [OF that] received_okD(3) [OF R] by simp
  qed
  with new(1) show ?thesis by simp
next
  case (previous q t w)
  have e: "unat (receiveEpoch s - 1) = unat (receiveEpoch s) - 1" "0 < unat (receiveEpoch s)"
    using ok by (auto simp: receive_ok_def unat_minus_one unat_gt_0)
  then have x: "x = (unat (receiveEpoch s) - 1, unat (h_Sequence (f_Header f)))" using dec previous(1) by (auto simp: x_def)
  let ?H = "{n. (unat (receiveEpoch s) - 1, n) \<in> R}"
  have tr: "tracks (previousReplay s) ?H"
    using R decryptEpochLocked_previous(2) [OF previous(1)] by (auto simp: received_ok_def)
  note check = decryptEpochLocked_previous(4) [OF previous(1,2)]
  have sets: "{n. (unat (receiveEpoch s) - 1, n) \<in> insert x R} = insert (unat (h_Sequence (f_Header f))) ?H"
    "{n. (unat (receiveEpoch s), n) \<in> insert x R} = {n. (unat (receiveEpoch s), n) \<in> R}"
    using x e(2) by auto
  have "received_ok s' (insert x R)"
  proof (rule received_okI)
    show "d \<le> unat (receiveEpoch s')" if "(d, n) \<in> insert x R" for d n
      using that received_okD(1) [OF R, of d n] x by (auto simp: previous(5))
    show "tracks (replay s') {n. (unat (receiveEpoch s'), n) \<in> insert x R}"
      using received_okD(2) [OF R] sets(2) by (simp add: previous(5))
    show "tracks (previousReplay s') {n. (unat (receiveEpoch s') - 1, n) \<in> insert x R}"
      using tracks_commit [OF tr check previous(3)] sets(1) by (simp add: previous(5))
  qed
  moreover have "x \<notin> R" using window.check_new [OF tr check] x by simp
  ultimately show ?thesis by simp
qed

lemma accepted_pair_locked:
  assumes "accepted_pair A now s f = Some x"
  obtains c s' p where "decryptEpochLocked A now s f = Inr c" "receiveLocked A now s f = (s', Inr p)"
    "the (fst (ReceivePayload A now (Some s) f)) = s'"
    "x = (unat (if rc_current c then receiveEpoch s else receiveEpoch s - 1), unat (h_Sequence (f_Header f)))"
  using assms
  by (cases "receiveLocked A now s f")
    (auto simp: accepted_pair_def ReceivePayload_def lift_session_def split: sum.splits if_splits)

lemma received_ok_unaccepted:
  assumes "accepted_pair A now s f = None" and "received_ok s R"
  shows "received_ok (the (fst (ReceivePayload A now (Some s) f))) R"
proof (cases "receiveLocked A now s f")
  case (Pair s' r)
  then show ?thesis
  proof (cases rule: receiveLocked_cases)
    case (rejected e)
    then show ?thesis using Pair assms by (auto simp: ReceivePayload_def lift_session_def)
  qed (use Pair assms in \<open>auto simp: ReceivePayload_def lift_session_def accepted_pair_def split: if_splits\<close>)
qed

lemma accepted_step:
  assumes A: "aead_ok A" and ok: "session_ok A s" and R: "received_ok s R"
  shows "(case accepted A op s of
       None \<Rightarrow> received_ok (session_step A op s) R
     | Some x \<Rightarrow> x \<notin> R \<and> received_ok (session_step A op s) (insert x R))"
proof -
  have ok': "receive_ok A s" "send_ok A s" using ok by (simp_all add: session_ok_def)
  have rec: "(case accepted_pair A now s f of
       None \<Rightarrow> received_ok (the (fst (ReceivePayload A now (Some s) f))) R
     | Some x \<Rightarrow> x \<notin> R \<and> received_ok (the (fst (ReceivePayload A now (Some s) f))) (insert x R))" for now f
    using received_ok_unaccepted [OF _ R] received_ok_accept [OF ok'(1) R]
    by (auto split: option.split elim!: accepted_pair_locked)
  have other: "received_ok (session_step A op s) R"
    if "receive_half (session_step A op s) = receive_half s"
    using received_ok_half [OF that] R by simp
  show ?thesis
  proof (cases op)
    case (OpReceive f now)
    with rec [of now f] show ?thesis by (auto simp: Session_Receive_state split: option.splits)
  next
    case (OpReceivePayload f now)
    with rec [of now f] show ?thesis by (auto split: option.splits)
  next
    case (OpSend m pad now reader)
    then show ?thesis
      using other Session_Send_state [of A now reader s m pad] sendPayload_receive_half(1) [OF ok'(2) A] by auto
  next
    case (OpSendPayload mt p pad now reader)
    then show ?thesis
      using other Session_SendPayload_state [of A now reader s mt p pad] sendPayload_receive_half(1) [OF ok'(2) A] by auto
  next
    case (OpMarkRekeySent f now)
    then show ?thesis using other MarkRekeySent_state [of now s f] by (auto simp: receive_half_def)
  next
    case OpClose
    then show ?thesis using other by (simp add: Session_Close_def receive_half_def)
  qed
qed

lemma accepted_trace_once:
  assumes A: "aead_ok A" and "session_ok A s" and "received_ok s R"
  shows "distinct (accepted_trace A s ops) \<and> set (accepted_trace A s ops) \<inter> R = {}"
  using assms(2,3)
proof (induction ops arbitrary: s R)
  case (Cons op ops)
  note ok = session_step_ok [OF A Cons.prems(1), of op]
  show ?case
  proof (cases "accepted A op s")
    case None
    then show ?thesis using Cons.IH [OF ok] accepted_step [OF A Cons.prems, of op] by simp
  next
    case (Some x)
    then have "x \<notin> R" "received_ok (session_step A op s) (insert x R)"
      using accepted_step [OF A Cons.prems, of op] by simp_all
    with Cons.IH [OF ok, of "insert x R"] Some show ?thesis by auto
  qed
qed simp

section \<open>The session as a state machine\<close>

definition wf_secrets :: "handshake_secrets \<Rightarrow> bool" where
  "wf_secrets h \<longleftrightarrow> length (hs_SessionID h) = 16 \<and> length (hs_SendKey h) = 32 \<and> length (hs_ReceiveKey h) = 32"

definition session_start :: "'c aead \<Rightarrow> 'c session \<Rightarrow> bool" where
  "session_start A s \<longleftrightarrow>
     aead_ok A \<and> (\<exists>now suite h. wf_secrets h \<and> NewSession A now suite h = Inr s)"

definition session_next :: "'c aead \<Rightarrow> 'c session \<Rightarrow> 'c session \<Rightarrow> bool" where
  "session_next A s t \<longleftrightarrow> (\<exists>op. session_step A op s = t)"

lemma NewSession_Inr:
  assumes "NewSession A now suite' h = Inr s" and "wf_secrets h"
  shows "session_ok A s" and "ratcheted (hs_SessionID h) (hs_SendKey h) s" and "received_ok s {}"
    and "send_position s = (1, 1)" and "hs_SessionID h \<noteq> replicate 16 0"
proof -
  have h: "suite' = 1" "hs_SessionID h \<noteq> replicate 16 0"
    using assms(1) by (auto simp: NewSession_def split: if_splits)
  obtain c d where cd: "NewCodec A 1 (hs_SendKey h) = Inr c" "NewCodec A 1 (hs_ReceiveKey h) = Inr d"
    using assms(1) h by (simp add: NewSession_def split: sum.splits)
  have "Inr s = NewSession A now 1 h" using assms(1) h by simp
  then have s: "aead_New A (hs_SendKey h) = Inr (send s)" "aead_New A (hs_ReceiveKey h) = Inr (receive s)"
    "sessionID s = hs_SessionID h" "suite s = 1" "sendKey s = hs_SendKey h" "receiveKey s = hs_ReceiveKey h"
    "sendEpoch s = 1" "receiveEpoch s = 1" "nextSequence s = 1" "pendingRekey s = None" "previousReceive s = None"
    "replay s = zero_window" "previousReplay s = zero_window" "hs_SessionID h \<noteq> replicate 16 0"
    using h cd by (simp_all add: NewSession_def NewCodec_Inr)
  show "session_ok A s"
    using s assms(2) tracks_zero_window
    by (auto simp: session_ok_def send_ok_def receive_ok_def grace_ok_def wf_secrets_def)
  show "ratcheted (hs_SessionID h) (hs_SendKey h) s" using s by (simp add: ratcheted_def epoch_key_def)
  show "received_ok s {}" using s tracks_zero_window by (simp add: received_ok_def)
  show "send_position s = (1, 1)" using s by (simp add: send_position_def)
  show "hs_SessionID h \<noteq> replicate 16 0" by (rule h(2))
qed

interpretation session_machine:
  invariant_machine "session_start A" "session_next A" "\<lambda>s. aead_ok A \<and> session_ok A s" for A :: "'c aead"
  by unfold_locales (auto simp: session_start_def session_next_def dest: NewSession_Inr(1) session_step_ok)

section \<open>Properties\<close>

text \<open>C3: every session state reachable from \<^verbatim>\<open>NewSession\<close> by any interleaving of
  \<^verbatim>\<open>Send\<close>, \<^verbatim>\<open>SendPayload\<close>, \<^verbatim>\<open>MarkRekeySent\<close>, \<^verbatim>\<open>Receive\<close>, \<^verbatim>\<open>ReceivePayload\<close> and \<^verbatim>\<open>Close\<close> satisfies the session
  invariant: keys and codecs agree, epochs are never zero, a pending rekey is the successor of
  the current epoch, both replay windows represent a set, and a retained previous key has
  budget left.\<close>

theorem session_invariant:
  assumes "reach (session_start A) (session_next A) s"
  shows "session_ok A s"
  using session_machine.reach_inv [OF assms] by simp

definition sample_secrets :: handshake_secrets where
  "sample_secrets = \<lparr>hs_SessionID = replicate 16 1, hs_SendKey = replicate 32 2, hs_ReceiveKey = replicate 32 3\<rparr>"

definition sample_session :: "bytes session" where
  "sample_session =
     \<lparr>sessionID = replicate 16 1, suite = 1, send = replicate 32 2, sendKey = replicate 32 2, sendEpoch = 1,
      nextSequence = 1, sentInEpoch = 0, epochStarted = 7, rekeyFrameLimit = DefaultRekeyFrameLimit,
      rekeyInterval = DefaultRekeyInterval, pendingRekey = None, closed = False, receive = replicate 32 3,
      receiveKey = replicate 32 3, receiveEpoch = 1, replay = zero_window, previousReceive = None,
      previousReplay = zero_window, graceRemaining = 0, graceUntil = 0, graceFrames = DefaultRekeyGraceFrames,
      gracePeriod = DefaultRekeyGracePeriod\<rparr>"

lemma replicate_neq_16: "replicate 16 (1 :: byte) \<noteq> replicate 16 0"
  by (simp add: replicate_eq_replicate)

lemma sample_session_new: "NewSession mac_aead (\<lambda>_. 7) 1 sample_secrets = Inr sample_session"
  using replicate_neq_16
  by (simp add: NewSession_def NewCodec_def sample_secrets_def sample_session_def mac_aead_def)

lemma wf_sample_secrets: "wf_secrets sample_secrets"
  by (simp add: wf_secrets_def sample_secrets_def)

lemma sample_session_start: "session_start mac_aead sample_session"
  using sample_session_new wf_sample_secrets mac_aead_ok by (auto simp: session_start_def)

theorem session_invariant_witness:
  "session_ok mac_aead (session_step mac_aead OpClose sample_session)"
proof (rule session_invariant)
  show "reach (session_start mac_aead) (session_next mac_aead) (session_step mac_aead OpClose sample_session)"
    using reach_start [of "session_start mac_aead", OF sample_session_start]
    by (rule reach_step) (metis session_next_def)
qed

text \<open>C1: no nonce is ever reused under a key. For any sequence of calls on a new session, the
  frames it hands out carry strictly increasing (epoch, sequence) positions, and each is the
  AEAD sealing of some plaintext under the key of its epoch (the handshake key ratcheted
  \<open>epoch - 1\<close> times) with the frame's own sequence number as nonce.\<close>

theorem nonces_never_reused:
  assumes "aead_ok A" and "wf_secrets h" and "NewSession A now suite' h = Inr s"
  shows "sorted_wrt (<) (map frame_position (sent_trace A s ops))
    \<and> (\<forall>(e, f) \<in> set (sent_trace A s ops).
         \<exists>c mt p padding. aead_New A (epoch_key (hs_SendKey h) (unat e)) = Inr c
           \<and> f = sealed_frame A c mt (hs_SessionID h) (h_Sequence (f_Header f)) p padding)"
proof -
  note new = NewSession_Inr [OF assms(3,2)]
  show ?thesis
    using sent_trace_increasing [OF assms(1) new(1), of ops] sent_trace_sealed [OF assms(1) new(1,2), of _ _ ops]
    by blast
qed

theorem nonces_never_reused_witness:
  "sorted_wrt (<) (map frame_position (sent_trace mac_aead sample_session
     [OpSendPayload 4 [0] 0 (\<lambda>_. 8) [], OpSendPayload 4 [1] 0 (\<lambda>_. 9) []]))"
  using nonces_never_reused [OF mac_aead_ok wf_sample_secrets sample_session_new] by blast

text \<open>C2: replay protection of a session. Whatever frames a session is given, in whatever order,
  interleaved with its other operations and across key changes and the grace period, each
  (epoch, sequence number) is accepted at most once.\<close>

theorem session_accepts_once:
  assumes "aead_ok A" and "wf_secrets h" and "NewSession A now suite' h = Inr s"
  shows "distinct (accepted_trace A s ops)"
  using accepted_trace_once [OF assms(1) NewSession_Inr(1,3) [OF assms(3,2)]] by blast

theorem session_accepts_once_witness:
  "distinct (accepted_trace mac_aead sample_session
     [OpReceive (sealed_frame mac_aead (replicate 32 3) 4 (replicate 16 1) 5 [0] []) (\<lambda>_. 8),
      OpReceive (sealed_frame mac_aead (replicate 32 3) 4 (replicate 16 1) 5 [0] []) (\<lambda>_. 8)])"
  using session_accepts_once [OF mac_aead_ok wf_sample_secrets sample_session_new] by blast


definition foreign_frame :: frame where
  "foreign_frame = sealed_frame mac_aead (replicate 32 3) 4 (replicate 16 2) 5 [0] []"

lemma foreign_frame_rejected:
  "ReceivePayload mac_aead now (Some sample_session) foreign_frame = (Some sample_session, Inl ErrWrongSession)"
  by (simp add: ReceivePayload_def foreign_frame_def sample_session_def replicate_eq_replicate)


end
