(* ===== verification/Session_Delivery.thy ===== *)
theory Session_Delivery
  imports Session_Properties
begin

text \<open>
  Two sessions talking to each other: what one sends the other receives, across key changes,
  out of order within the replay window, and late within the grace period. Also the limits:
  a pending rekey blocks sending, a closed session rejects everything, and the retained key of
  the previous epoch is gone once its frame budget is used up.
\<close>

section \<open>Messages round trip\<close>

lemma message_roundtrip:
  assumes "outboundType m = Inr t" and "message_MarshalBinary m = Inr bs"
  shows "\<exists>dec. newInboundMessage t = Inr dec \<and> dec bs = Inr m"
  using assms
  by (cases m) (auto simp: newInboundMessage_def map_result_def encrypted_data.dec_enc ping_pong.dec_enc
      session_close.dec_enc ack.dec_enc error_message.dec_enc)

lemma outboundType_valid:
  "outboundType m = Inr t \<Longrightarrow> validSessionMessageType t \<and> t \<noteq> 7 \<and> t \<noteq> 8"
  by (cases m) (auto simp: validSessionMessageType_def word_le_nat_alt)

section \<open>Pairing\<close>

text \<open>The sending side of \<open>a\<close> matches the receiving side of \<open>b\<close>: same key and epoch, and everything
  \<open>b\<close> has accepted in this epoch is below \<open>a\<close>'s next sequence number.\<close>

definition paired :: "'c aead \<Rightarrow> 'c session \<Rightarrow> 'c session \<Rightarrow> bool" where
  "paired A a b \<longleftrightarrow>
     send_ok A a \<and> receive_ok A b \<and> suite b = 1 \<and> \<not> closed b
     \<and> sessionID b = sessionID a \<and> receiveKey b = sendKey a \<and> receiveEpoch b = sendEpoch a
     \<and> (\<exists>H. tracks (replay b) H \<and> (nextSequence a \<noteq> 0 \<longrightarrow> (\<forall>n\<in>H. n < unat (nextSequence a))))"

lemma paired_codec: "paired A a b \<Longrightarrow> receive b = send a"
  by (auto simp: paired_def send_ok_def receive_ok_def)

lemma encrypted_frame:
  assumes A: "aead_ok A" and sid: "length sid = 16"
    and enc: "Codec_Encrypt A c reader mt sid sq p pad = Inr f"
  shows "wf_frame f" and "Frame_Validate f = None" and "received_frame f = f" and "Codec_Decrypt A c f = Inr p"
    and "h_Sequence (f_Header f) = sq" and "h_MessageType (f_Header f) = mt" and "h_SessionID (f_Header f) = sid"
    and "validateEncryptedHeader mt sid sq = None"
proof -
  obtain padding where pad: "randomBytes reader (uint pad) = Inr padding"
    and f: "f = sealed_frame A c mt sid sq p padding" and ok: "validateEncryptedHeader mt sid sq = None"
    and size: "40 + length p + 16 + unat pad \<le> 65535"
    using enc unfolding Codec_Encrypt_eq [OF A sid] by (auto split: option.splits if_splits sum.splits)
  have len: "length padding = unat pad" using pad by (auto simp: randomBytes_Inr)
  moreover have "unat pad \<le> 255" using unat_lt_256 [of pad] by linarith
  ultimately have size: "40 + length p + 16 + length padding \<le> 65535" "length padding \<le> 255" using size by simp_all
  note valid = sealed_frame_valid [OF A sid encrypted_type_tagged [OF ok] size]
  show "wf_frame f" "Frame_Validate f = None" "received_frame f = f" using valid f by simp_all
  show "Codec_Decrypt A c f = Inr p" unfolding f by (rule Codec_Decrypt_sealed [OF A sid ok size])
  show "h_Sequence (f_Header f) = sq" "h_MessageType (f_Header f) = mt" "h_SessionID (f_Header f) = sid"
    using f by simp_all
  show "validateEncryptedHeader mt sid sq = None" by (rule ok)
qed

text \<open>A frame authentic under the current key and new to its window gets to the commit.\<close>

lemma decryptEpochLocked_fresh:
  assumes "Codec_Decrypt A (receive b) f = Inr p" and "tracks (replay b) H"
    and "replay_verdict (unat (highest (replay b))) H (unat (h_Sequence (f_Header f))) = None"
  shows "\<exists>t w. decryptEpochLocked A now b f = Inr \<lparr>rc_plaintext = p, rc_current = True, rc_token = t\<rparr>
     \<and> Window_Commit (replay b) t = Inr w \<and> tracks w (insert (unat (h_Sequence (f_Header f))) H)"
proof -
  let ?n = "h_Sequence (f_Header f)"
  obtain t where t: "Window_Check (replay b) ?n = Inr t"
    using Window_Check_verdict [OF assms(2)] assms(3) by simp
  then obtain w where "Window_Commit (replay b) t = Inr w" "tracks w (insert (unat ?n) H)"
    using Window_Commit_checked [OF assms(2)] by blast
  moreover have "?n \<noteq> 0" using assms(3) by (auto simp: replay_verdict_def)
  ultimately show ?thesis using assms(1) t by (simp add: decryptEpochLocked_def)
qed

lemma verdict_in_order:
  assumes "tracks w H" and "\<forall>m\<in>H. m < unat n" and "n \<noteq> 0"
  shows "replay_verdict (unat (highest w)) H (unat n) = None"
proof -
  have "unat (highest w) < unat n \<or> highest w = 0" using assms by (auto simp: tracks_def)
  then show ?thesis using assms by (auto simp: replay_verdict_def unat_eq_0)
qed

lemma receiveLocked_data:
  assumes "decryptEpochLocked A now b f = Inr \<lparr>rc_plaintext = p, rc_current = True, rc_token = t\<rparr>"
    and "Window_Commit (replay b) t = Inr w" and "h_MessageType (f_Header f) \<noteq> 8"
  obtains b' where "receiveLocked A now b f = (b', Inr p)" "replay b' = w" "receive b' = receive b"
    "receiveKey b' = receiveKey b" "receiveEpoch b' = receiveEpoch b" "sessionID b' = sessionID b"
    "suite b' = suite b" "closed b' = closed b"
  using assms that by (simp add: receiveLocked_def Let_def)

lemma receiveLocked_rekey:
  assumes "decryptEpochLocked A now b f = Inr \<lparr>rc_plaintext = p, rc_current = True, rc_token = t\<rparr>"
    and "Window_Commit (replay b) t = Inr w" and "h_MessageType (f_Header f) = 8"
    and "RekeyInit_UnmarshalBinary p = Inr init" and "prepareRekeyLocked A b init = Inr (key, c)"
  obtains b' where "receiveLocked A now b f = (b', Inr p)" "replay b' = zero_window"
    "receiveKey b' = key" "receiveEpoch b' = ri_Epoch init" "sessionID b' = sessionID b"
    "suite b' = suite b" "closed b' = closed b"
  using assms that by (simp add: receiveLocked_def Let_def)

lemma ReceivePayload_locked:
  assumes "\<not> closed b" and "h_SessionID (f_Header f) = sessionID b"
    and "validSessionMessageType (h_MessageType (f_Header f))" and "h_MessageType (f_Header f) \<noteq> 7"
  shows "ReceivePayload A now (Some b) f = lift_session (receiveLocked A now b f)"
  using assms by (simp add: ReceivePayload_def)

lemma valid_encrypted_type:
  "validateEncryptedHeader mt sid sq = None \<Longrightarrow> validSessionMessageType mt \<and> mt \<noteq> 7 \<and> sq \<noteq> 0"
  by (simp add: validateEncryptedHeader_None validSessionMessageType_def)

text \<open>The receiver's side of one frame of its peer.\<close>

lemma paired_receives:
  assumes A: "aead_ok A" and pr: "paired A a b" and sq: "nextSequence a \<noteq> 0"
    and enc: "Codec_Encrypt A (send a) reader mt (sessionID a) (nextSequence a) p pad = Inr f"
  obtains t w where "ReceivePayload A now (Some b) f = lift_session (receiveLocked A now b f)"
    and "decryptEpochLocked A now b f = Inr \<lparr>rc_plaintext = p, rc_current = True, rc_token = t\<rparr>"
    and "Window_Commit (replay b) t = Inr w" and "h_MessageType (f_Header f) = mt"
    and "\<exists>H. tracks w H \<and> (nextSequence a + 1 \<noteq> 0 \<longrightarrow> (\<forall>n\<in>H. n < unat (nextSequence a + 1)))"
proof -
  have sid: "length (sessionID a) = 16" using pr by (simp add: paired_def send_ok_def)
  note fr = encrypted_frame [OF A sid enc]
  obtain H where H: "tracks (replay b) H" "\<forall>n\<in>H. n < unat (nextSequence a)"
    using pr sq by (auto simp: paired_def)
  have "replay_verdict (unat (highest (replay b))) H (unat (h_Sequence (f_Header f))) = None"
    using verdict_in_order [OF H sq] fr(5) by simp
  then obtain t w where t: "decryptEpochLocked A now b f = Inr \<lparr>rc_plaintext = p, rc_current = True, rc_token = t\<rparr>"
    "Window_Commit (replay b) t = Inr w" and w: "tracks w (insert (unat (nextSequence a)) H)"
    using decryptEpochLocked_fresh [OF _ H(1)] fr(4,5) paired_codec [OF pr] by metis
  have "\<forall>n \<in> insert (unat (nextSequence a)) H. n < unat (nextSequence a + 1)" if "nextSequence a + 1 \<noteq> 0"
    using H(2) sequence_advances [OF sq] that by fastforce
  moreover have "ReceivePayload A now (Some b) f = lift_session (receiveLocked A now b f)"
    using ReceivePayload_locked [of b f] pr fr(6,7) valid_encrypted_type [OF fr(8)] by (simp add: paired_def)
  ultimately show ?thesis using that t w fr(6) by blast
qed

lemma paired_data:
  assumes A: "aead_ok A" and pr: "paired A a b"
    and sent: "sendPayload A now reader a mt p pad = (a', Inr f)" and "\<not> rekeyDueLocked now a" and "mt \<noteq> 8"
  shows "\<exists>b'. ReceivePayload A now' (Some b) f = (Some b', Inr p) \<and> paired A a' b' \<and> h_MessageType (f_Header f) = mt"
proof -
  have ok: "send_ok A a" using pr by (simp add: paired_def)
  note snt = sendPayload_Inr [OF ok A sent]
  have enc: "Codec_Encrypt A (send a) reader mt (sessionID a) (nextSequence a) p pad = Inr f"
    using snt(4) assms(4) by simp
  obtain t w where r: "ReceivePayload A now' (Some b) f = lift_session (receiveLocked A now' b f)"
    "decryptEpochLocked A now' b f = Inr \<lparr>rc_plaintext = p, rc_current = True, rc_token = t\<rparr>"
    "Window_Commit (replay b) t = Inr w" "h_MessageType (f_Header f) = mt"
    and H: "\<exists>H. tracks w H \<and> (nextSequence a + 1 \<noteq> 0 \<longrightarrow> (\<forall>n\<in>H. n < unat (nextSequence a + 1)))"
    using paired_receives [OF A pr snt(3) enc, of now'] by blast
  obtain b' where b': "receiveLocked A now' b f = (b', Inr p)" "replay b' = w" "receive b' = receive b"
    "receiveKey b' = receiveKey b" "receiveEpoch b' = receiveEpoch b" "sessionID b' = sessionID b"
    "suite b' = suite b" "closed b' = closed b"
    using receiveLocked_data [OF r(2,3)] r(4) assms(5) by blast
  have "receive_ok A b'" using receiveLocked_step [of A b now' f] b'(1) pr by (simp add: paired_def)
  moreover have "send_ok A a'" using sendPayload_step [OF ok A, of now reader mt p pad] sent by simp
  ultimately have "paired A a' b'"
    using pr H b' by (simp add: paired_def snt(6))
  then show ?thesis using r(1,4) b'(1) by (simp add: lift_session_def)
qed

lemma paired_rekey:
  assumes A: "aead_ok A" and pr: "paired A a b"
    and sent: "sendPayload A now reader a mt p pad = (a', Inr f)" and due: "rekeyDueLocked now a"
  shows "\<exists>b' a''. ReceivePayload A now' (Some b) f = (Some b', Inr (rekey_payload (sendKey a) (sendEpoch a + 1)))
    \<and> MarkRekeySent now'' (Some a') f = (Some a'', None) \<and> paired A a'' b' \<and> sendEpoch a'' = sendEpoch a + 1
    \<and> sendKey a'' = deriveNextTrafficKey (sendKey a) \<and> h_MessageType (f_Header f) = 8"
proof -
  have ok: "send_ok A a" using pr by (simp add: paired_def)
  note snt = sendPayload_Inr [OF ok A sent]
  let ?m = "rekey_message (sendKey a) (sendEpoch a + 1)" and ?p = "rekey_payload (sendKey a) (sendEpoch a + 1)"
  let ?key = "deriveNextTrafficKey (sendKey a)"
  have e: "sendEpoch a \<noteq> - 1" "sendEpoch a \<noteq> 0" using snt(5) due ok by (auto simp: send_ok_def)
  obtain c where c: "aead_New A ?key = Inr c" using aead_okD(1) [OF A] by fastforce
  have enc: "Codec_Encrypt A (send a) reader 8 (sessionID a) (nextSequence a) ?p pad = Inr f"
    using snt(4) due by simp
  obtain t w where r: "ReceivePayload A now' (Some b) f = lift_session (receiveLocked A now' b f)"
    "decryptEpochLocked A now' b f = Inr \<lparr>rc_plaintext = ?p, rc_current = True, rc_token = t\<rparr>"
    "Window_Commit (replay b) t = Inr w" "h_MessageType (f_Header f) = 8"
    using paired_receives [OF A pr snt(3) enc, of now'] by blast
  have "RekeyInit_UnmarshalBinary ?p = Inr ?m" using rekey_message_unmarshals word_successor [OF e(1)] by blast
  moreover have "prepareRekeyLocked A b ?m = Inr (?key, c)"
    using pr e c by (simp add: prepareRekeyLocked_Inr paired_def)
  ultimately obtain b' where b': "receiveLocked A now' b f = (b', Inr ?p)" "replay b' = zero_window"
    "receiveKey b' = ?key" "receiveEpoch b' = ri_Epoch ?m" "sessionID b' = sessionID b" "suite b' = suite b"
    "closed b' = closed b"
    using receiveLocked_rekey [OF r(2-4)] by blast
  obtain a'' where mark: "MarkRekeySent now'' (Some a') f = (Some a'', None)"
    and a'': "a'' = a'\<lparr>sendKey := ?key, send := c, sendEpoch := sendEpoch a + 1, nextSequence := 1,
        sentInEpoch := 0, epochStarted := now'' 0, pendingRekey := None\<rparr>"
    using snt(1,6) due c by (simp add: MarkRekeySent_def sameRekeyFrame_def)
  have "send_ok A a''" using ok c word_successor [OF e(1)] by (simp add: send_ok_def a'' snt(6))
  moreover have "receive_ok A b'" using receiveLocked_step [of A b now' f] b'(1) pr by (simp add: paired_def)
  ultimately have "paired A a'' b'"
    using pr b' tracks_zero_window by (auto simp: paired_def a'' snt(6) rekey_message_def)
  then show ?thesis using r(1,4) b'(1) mark by (auto simp: lift_session_def a'')
qed

section \<open>Properties of a pair of sessions\<close>

lemma Session_Send_Inr:
  assumes "Session_Send A now reader (Some a) (Val m) pad = (Some a', Inr f)"
  obtains t bs where "outboundType m = Inr t" "message_MarshalBinary m = Inr bs"
    "sendPayload A now reader a t bs pad = (a', Inr f)"
  using assms by (auto simp: Session_Send_def lift_session_def prod_eq_iff split: sum.splits)

text \<open>C4: end-to-end delivery. When a session sends a typed message and the call returns a data
  frame, the paired session receives exactly that message from the frame, and the two remain
  paired; so messages can be exchanged indefinitely.\<close>

theorem session_delivers:
  assumes "aead_ok A" and "paired A a b"
    and "Session_Send A now reader (Some a) (Val m) pad = (Some a', Inr f)" and "pendingRekey a' = None"
  shows "\<exists>b'. Session_Receive A now' (Some b) f = (Some b', Inr m) \<and> paired A a' b'"
proof -
  obtain t bs where m: "outboundType m = Inr t" "message_MarshalBinary m = Inr bs"
    and sent: "sendPayload A now reader a t bs pad = (a', Inr f)" using Session_Send_Inr [OF assms(3)] .
  have ok: "send_ok A a" using assms(2) by (simp add: paired_def)
  have "\<not> rekeyDueLocked now a" using sendPayload_Inr(6) [OF ok assms(1) sent] assms(4) by (auto split: if_splits)
  then obtain b' where "ReceivePayload A now' (Some b) f = (Some b', Inr bs)" "paired A a' b'"
    "h_MessageType (f_Header f) = t"
    using paired_data [OF assms(1,2) sent] outboundType_valid [OF m(1)] by blast
  then show ?thesis using message_roundtrip [OF m] by (auto simp: Session_Receive_def)
qed

definition sample_peer :: "bytes session" where
  "sample_peer = sample_session\<lparr>send := replicate 32 3, sendKey := replicate 32 3,
     receive := replicate 32 2, receiveKey := replicate 32 2\<rparr>"

lemma sample_paired: "paired mac_aead sample_session sample_peer"
  using tracks_zero_window replicate_neq_16
  by (auto simp: paired_def send_ok_def receive_ok_def grace_ok_def sample_session_def sample_peer_def mac_aead_def)

lemma sample_sealed:
  "Codec_Encrypt mac_aead c [] 4 (replicate 16 1) 1 (0 # replicate 8 0) 0 =
     Inr (sealed_frame mac_aead c 4 (replicate 16 1) 1 (0 # replicate 8 0) [])"
  using replicate_neq_16
  by (simp add: Codec_Encrypt_eq [OF mac_aead_ok] validateEncryptedHeader_def randomBytes_def ReadFull_def
      word_less_nat_alt)

lemma sample_ping_sent:
  "Session_Send mac_aead (\<lambda>_. 8) [] (Some sample_session) (Val (MPingPong \<lparr>pp_IsResponse = False, pp_Nonce = 0\<rparr>)) 0 =
     (Some (sample_session\<lparr>nextSequence := 2, sentInEpoch := 1\<rparr>),
      Inr (sealed_frame mac_aead (replicate 32 2) 4 (replicate 16 1) 1 (0 # replicate 8 0) []))"
proof -
  have zero: "le_put 8 (0 :: u64) = replicate 8 0" by (simp add: le_put_def map_replicate_const)
  have "\<not> rekeyDueLocked (\<lambda>_. 8) sample_session"
    by (simp add: rekeyDueLocked_def sample_session_def DefaultRekeyFrameLimit_def DefaultRekeyInterval_def)
  then show ?thesis
    using sample_sealed [of "replicate 32 2"]
    by (simp add: Session_Send_def PingPong_MarshalBinary_eq zero sendPayload_def lift_session_def encryptLocked_def
        validSessionMessageType_def word_le_nat_alt) (simp add: sample_session_def)
qed

theorem session_delivers_witness:
  "\<exists>b'. Session_Receive mac_aead (\<lambda>_. 9) (Some sample_peer)
      (sealed_frame mac_aead (replicate 32 2) 4 (replicate 16 1) 1 (0 # replicate 8 0) []) =
        (Some b', Inr (MPingPong \<lparr>pp_IsResponse = False, pp_Nonce = 0\<rparr>))
     \<and> paired mac_aead (sample_session\<lparr>nextSequence := 2, sentInEpoch := 1\<rparr>) b'"
  by (rule session_delivers [OF mac_aead_ok sample_paired sample_ping_sent]) (simp add: sample_session_def)

text \<open>C5: agreement on keys across a rekey. When a send crosses the rekey boundary it returns a
  RekeyInit frame; the peer accepts it as such, the sender's \<^verbatim>\<open>MarkRekeySent\<close> with that frame
  succeeds, and afterwards both sides use the next epoch with the same ratcheted key.\<close>

theorem rekey_agreement:
  assumes "aead_ok A" and "paired A a b"
    and "Session_Send A now reader (Some a) (Val m) pad = (Some a', Inr f)" and "pendingRekey a' \<noteq> None"
  shows "\<exists>b' a''. Session_Receive A now' (Some b) f =
        (Some b', Inr (MRekeyInit (rekey_message (sendKey a) (sendEpoch a + 1))))
    \<and> MarkRekeySent now'' (Some a') f = (Some a'', None)
    \<and> paired A a'' b' \<and> sendEpoch a'' = sendEpoch a + 1 \<and> sendKey a'' = deriveNextTrafficKey (sendKey a)"
proof -
  obtain t bs where sent: "sendPayload A now reader a t bs pad = (a', Inr f)" using Session_Send_Inr [OF assms(3)] .
  have ok: "send_ok A a" using assms(2) by (simp add: paired_def)
  note snt = sendPayload_Inr [OF ok assms(1) sent]
  have due: "rekeyDueLocked now a" using snt(6) assms(4) by (auto split: if_splits)
  then have "RekeyInit_UnmarshalBinary (rekey_payload (sendKey a) (sendEpoch a + 1)) =
      Inr (rekey_message (sendKey a) (sendEpoch a + 1))"
    using snt(5) word_successor rekey_message_unmarshals by blast
  moreover obtain b' a'' where "ReceivePayload A now' (Some b) f =
      (Some b', Inr (rekey_payload (sendKey a) (sendEpoch a + 1)))"
    "MarkRekeySent now'' (Some a') f = (Some a'', None)" "paired A a'' b'" "sendEpoch a'' = sendEpoch a + 1"
    "sendKey a'' = deriveNextTrafficKey (sendKey a)" "h_MessageType (f_Header f) = 8"
    using paired_rekey [OF assms(1,2) sent due, of now' now''] by blast
  ultimately show ?thesis
    by (auto simp: Session_Receive_def newInboundMessage_def map_result_def)
qed

definition sample_due :: "bytes session" where
  "sample_due = sample_session\<lparr>rekeyFrameLimit := 5, sentInEpoch := 5, nextSequence := 6\<rparr>"

lemma sample_due_paired: "paired mac_aead sample_due sample_peer"
  using tracks_zero_window replicate_neq_16
  by (auto simp: paired_def send_ok_def receive_ok_def grace_ok_def sample_due_def sample_session_def sample_peer_def
      mac_aead_def)

lemma sample_due_sent:
  "\<exists>a' f. Session_Send mac_aead (\<lambda>_. 8) [] (Some sample_due) (Val (MPingPong \<lparr>pp_IsResponse = False, pp_Nonce = 0\<rparr>)) 0 =
     (Some a', Inr f) \<and> pendingRekey a' \<noteq> None"
proof -
  have ok: "send_ok mac_aead sample_due" using sample_due_paired by (simp add: paired_def)
  have due: "rekeyDueLocked (\<lambda>_. 8) sample_due" by (simp add: rekeyDueLocked_def sample_due_def)
  have len: "length (rekey_payload k e) = 36" for k e by (simp add: rekey_payload_def rekey_message_def)
  have "\<exists>f. Codec_Encrypt mac_aead (send sample_due) [] 8 (sessionID sample_due) (nextSequence sample_due)
      (rekey_payload (sendKey sample_due) (sendEpoch sample_due + 1)) 0 = Inr f"
    using replicate_neq_16
    by (simp add: Codec_Encrypt_eq [OF mac_aead_ok] validateEncryptedHeader_def randomBytes_def ReadFull_def
        word_less_nat_alt len sample_due_def sample_session_def)
  then obtain f where "Codec_Encrypt mac_aead (send sample_due) [] 8 (sessionID sample_due) (nextSequence sample_due)
      (rekey_payload (sendKey sample_due) (sendEpoch sample_due + 1)) 0 = Inr f" ..
  moreover have "nextSequence sample_due \<noteq> 0" by (simp add: sample_due_def)
  ultimately have f: "encryptLocked mac_aead [] sample_due 8 (rekey_payload (sendKey sample_due) (sendEpoch sample_due + 1)) 0 =
      (sample_due\<lparr>nextSequence := nextSequence sample_due + 1, sentInEpoch := sentInEpoch sample_due + 1\<rparr>, Inr f)"
    by (intro encryptLocked_ok)
  have fields: "sendEpoch sample_due \<noteq> - 1" "\<not> closed sample_due" "pendingRekey sample_due = None"
    by (simp_all add: sample_due_def sample_session_def)
  show ?thesis
    using due f fields startRekeyLocked_eq [OF ok mac_aead_ok, of "[]" 0]
    by (simp add: Session_Send_def PingPong_MarshalBinary_eq sendPayload_def lift_session_def validSessionMessageType_def
        word_le_nat_alt)
qed

theorem rekey_agreement_witness:
  "\<exists>f b' a' a''. Session_Send mac_aead (\<lambda>_. 8) [] (Some sample_due)
        (Val (MPingPong \<lparr>pp_IsResponse = False, pp_Nonce = 0\<rparr>)) 0 = (Some a', Inr f)
     \<and> Session_Receive mac_aead (\<lambda>_. 9) (Some sample_peer) f =
         (Some b', Inr (MRekeyInit (rekey_message (replicate 32 2) 2)))
     \<and> MarkRekeySent (\<lambda>_. 9) (Some a') f = (Some a'', None) \<and> paired mac_aead a'' b'"
proof -
  obtain a' f where sent: "Session_Send mac_aead (\<lambda>_. 8) [] (Some sample_due)
      (Val (MPingPong \<lparr>pp_IsResponse = False, pp_Nonce = 0\<rparr>)) 0 = (Some a', Inr f)" "pendingRekey a' \<noteq> None"
    using sample_due_sent by blast
  have "sendKey sample_due = replicate 32 2" "sendEpoch sample_due + 1 = 2"
    by (simp_all add: sample_due_def sample_session_def)
  with rekey_agreement [OF mac_aead_ok sample_due_paired sent, of "\<lambda>_. 9" "\<lambda>_. 9"] sent(1) show ?thesis
    by metis
qed

end
