(* ===== verification/Session_Limits.thy ===== *)
theory Session_Limits
  imports Session_Delivery
begin

text \<open>
  Reordering and late frames, the limits of the retained key, and the two states in which a
  session refuses to work: a pending rekey and closure.
\<close>

section \<open>Out-of-order delivery\<close>

fun receive_all :: "'c aead \<Rightarrow> clock \<Rightarrow> 'c session option \<Rightarrow> frame list \<Rightarrow> bytes result list" where
  "receive_all A now s [] = []"
| "receive_all A now s (f # fs) =
     (case ReceivePayload A now s f of (s', r) \<Rightarrow> r # receive_all A now s' fs)"

text \<open>A data frame of the peer, by its fields.\<close>

definition data_frame :: "'c aead \<Rightarrow> 'c session \<Rightarrow> u8 \<times> u64 \<times> bytes \<times> bytes \<Rightarrow> frame" where
  "data_frame A b x = (case x of (mt, n, p, padding) \<Rightarrow> sealed_frame A (receive b) mt (sessionID b) n p padding)"

definition data_frame_ok :: "u8 \<times> u64 \<times> bytes \<times> bytes \<Rightarrow> bool" where
  "data_frame_ok x \<longleftrightarrow>
     (case x of (mt, n, p, padding) \<Rightarrow>
        3 \<le> mt \<and> mt \<le> 9 \<and> mt \<noteq> 7 \<and> mt \<noteq> 8 \<and> n \<noteq> 0 \<and> length padding \<le> 255
        \<and> 40 + length p + 16 + length padding \<le> 65535)"

definition data_sequence :: "u8 \<times> u64 \<times> bytes \<times> bytes \<Rightarrow> nat" where
  "data_sequence x = unat (fst (snd x))"

lemma receive_data_frame:
  assumes A: "aead_ok A" and sid: "length (sessionID b) = 16" "sessionID b \<noteq> replicate 16 0"
    and ok: "receive_ok A b" "\<not> closed b" and H: "tracks (replay b) H"
    and x: "data_frame_ok (mt, n, p, padding)" and new: "unat n \<notin> H" and win: "\<forall>m\<in>H. m < unat n + 2048"
  obtains b' where "ReceivePayload A now (Some b) (data_frame A b (mt, n, p, padding)) = (Some b', Inr p)"
    "tracks (replay b') (insert (unat n) H)" "receive_ok A b'" "\<not> closed b'" "sessionID b' = sessionID b"
    "receive b' = receive b"
proof -
  let ?f = "data_frame A b (mt, n, p, padding)"
  have head: "validateEncryptedHeader mt (sessionID b) n = None"
    using x sid by (simp add: data_frame_ok_def validateEncryptedHeader_None)
  have dec: "Codec_Decrypt A (receive b) ?f = Inr p"
    using Codec_Decrypt_sealed [OF A sid(1) head] x by (simp add: data_frame_def data_frame_ok_def)
  have fields: "h_Sequence (f_Header ?f) = n" "h_MessageType (f_Header ?f) = mt" "h_SessionID (f_Header ?f) = sessionID b"
    by (simp_all add: data_frame_def)
  have "unat (highest (replay b)) < unat n + 2048 \<or> highest (replay b) = 0" using H win by (auto simp: tracks_def)
  then have "replay_verdict (unat (highest (replay b))) H (unat n) = None"
    using new x by (auto simp: replay_verdict_def data_frame_ok_def unat_eq_0)
  then obtain t w where t: "decryptEpochLocked A now b ?f = Inr \<lparr>rc_plaintext = p, rc_current = True, rc_token = t\<rparr>"
    "Window_Commit (replay b) t = Inr w" and w: "tracks w (insert (unat n) H)"
    using decryptEpochLocked_fresh [OF dec H] fields(1) by metis
  have "mt \<noteq> 8" using x by (simp add: data_frame_ok_def)
  then obtain b' where b': "receiveLocked A now b ?f = (b', Inr p)" "replay b' = w" "receive b' = receive b"
    "sessionID b' = sessionID b" "closed b' = closed b"
    using receiveLocked_data [OF t] fields(2) by metis
  have "receive_ok A b'" using receiveLocked_step [OF ok(1), of now ?f] b'(1) by simp
  moreover have "ReceivePayload A now (Some b) ?f = (Some b', Inr p)"
    using ReceivePayload_locked [of b ?f A now] ok(2) fields valid_encrypted_type [OF head] b'(1)
    by (simp add: lift_session_def)
  ultimately show ?thesis using that b' w ok(2) by simp
qed

lemma receive_all_data:
  assumes A: "aead_ok A" and "length (sessionID b) = 16" and "sessionID b \<noteq> replicate 16 0"
    and "receive_ok A b" and "\<not> closed b" and "tracks (replay b) H"
    and "\<forall>x \<in> set xs. data_frame_ok x" and "distinct (map data_sequence xs)"
    and "\<forall>x \<in> set xs. data_sequence x \<notin> H"
    and "\<forall>x \<in> set xs. \<forall>m \<in> H \<union> data_sequence ` set xs. m < data_sequence x + 2048"
  shows "receive_all A now (Some b) (map (data_frame A b) xs) = map (\<lambda>x. Inr (fst (snd (snd x)))) xs"
  using assms(2-)
proof (induction xs arbitrary: b H)
  case (Cons x xs)
  obtain mt n p padding where x: "x = (mt, n, p, padding)" by (cases x)
  obtain b' where b': "ReceivePayload A now (Some b) (data_frame A b x) = (Some b', Inr p)"
    "tracks (replay b') (insert (unat n) H)" "receive_ok A b'" "\<not> closed b'" "sessionID b' = sessionID b"
    "receive b' = receive b"
    using receive_data_frame [OF A Cons.prems(1-5), of mt n p padding now] Cons.prems(6,8,9)
    unfolding x by (auto simp: data_sequence_def)
  have "data_frame A b' = data_frame A b" by (simp add: data_frame_def b' fun_eq_iff)
  moreover have "receive_all A now (Some b') (map (data_frame A b') xs) = map (\<lambda>x. Inr (fst (snd (snd x)))) xs"
  proof (rule Cons.IH [of b' "insert (unat n) H"])
    have n: "data_sequence x = unat n" by (simp add: x data_sequence_def)
    show "\<forall>y \<in> set xs. data_sequence y \<notin> insert (unat n) H"
      using Cons.prems(7,8) n by (metis insert_iff list.set_intros(2) distinct.simps(2) list.simps(9) image_eqI list.set_map)
    show "\<forall>y \<in> set xs. \<forall>m \<in> insert (unat n) H \<union> data_sequence ` set xs. m < data_sequence y + 2048"
      using Cons.prems(9) n by auto
  qed (use Cons.prems b' in auto)
  ultimately show ?case using b'(1) by (simp add: x)
qed simp

text \<open>C29: tolerance of reordering. Any batch of authentic data frames of the current epoch with
  pairwise different, not yet accepted sequence numbers that lie within 2048 of each other and of
  everything accepted before is received completely, in whatever order it arrives.\<close>

theorem reordered_frames_delivered:
  assumes "aead_ok A" and "session_ok A b" and "\<not> closed b" and "tracks (replay b) H"
    and "\<forall>x \<in> set xs. data_frame_ok x" and "distinct (map data_sequence xs)"
    and "\<forall>x \<in> set xs. data_sequence x \<notin> H"
    and "\<forall>x \<in> set xs. \<forall>m \<in> H \<union> data_sequence ` set xs. m < data_sequence x + 2048"
  shows "receive_all A now (Some b) (map (data_frame A b) xs) = map (\<lambda>x. Inr (fst (snd (snd x)))) xs"
  using assms by (intro receive_all_data) (auto simp: session_ok_def send_ok_def)

lemma sample_session_ok: "session_ok mac_aead sample_session"
  by (rule NewSession_Inr(1) [OF sample_session_new wf_sample_secrets])

theorem reordered_frames_delivered_witness:
  "receive_all mac_aead (\<lambda>_. 8) (Some sample_session)
     (map (data_frame mac_aead sample_session) [(4, 7, [1], []), (4, 3, [2], []), (4, 2000, [3], [])]) =
   [Inr [1], Inr [2], Inr [3]]"
  using reordered_frames_delivered [OF mac_aead_ok sample_session_ok,
      of "{}" "[(4, 7, [1], []), (4, 3, [2], []), (4, 2000, [3], [])]" "\<lambda>_. 8"]
  by (simp add: sample_session_def tracks_zero_window data_frame_ok_def data_sequence_def word_le_nat_alt)

section \<open>Late frames and the grace budget\<close>

text \<open>C30: a frame of the previous epoch that is still in flight when the receive key changes is
  accepted while the grace period lasts, if its sequence number is new to that epoch; it
  moves only the previous epoch's window and leaves key, epoch and current window alone.\<close>

theorem late_frame_accepted:
  assumes "aead_ok A" and "session_ok A b" and "\<not> closed b"
    and "previousReceive b = Some c" and "now 0 < graceUntil b" and "tracks (previousReplay b) H"
    and "h_SessionID (f_Header f) = sessionID b" and "h_MessageType (f_Header f) \<noteq> 8"
    and "Codec_Decrypt A c f = Inr p" and "Codec_Decrypt A (receive b) f = Inl ErrAuthentication"
    and "validSessionMessageType (h_MessageType (f_Header f))" and "h_MessageType (f_Header f) \<noteq> 7"
    and "replay_verdict (unat (highest (previousReplay b))) H (unat (h_Sequence (f_Header f))) = None"
  shows "\<exists>w. ReceivePayload A now (Some b) f = (Some (b\<lparr>previousReplay := w\<rparr>), Inr p)
    \<and> tracks w (insert (unat (h_Sequence (f_Header f))) H)"
proof -
  let ?n = "h_Sequence (f_Header f)"
  obtain t where t: "Window_Check (previousReplay b) ?n = Inr t"
    using Window_Check_verdict [OF assms(6)] assms(13) by simp
  then obtain w where w: "Window_Commit (previousReplay b) t = Inr w" "tracks w (insert (unat ?n) H)"
    using Window_Commit_checked [OF assms(6)] by blast
  have "?n \<noteq> 0" using assms(13) by (auto simp: replay_verdict_def)
  moreover have "0 < graceRemaining b" "0 < gracePeriod b"
    using assms(2,4) by (auto simp: session_ok_def receive_ok_def grace_ok_def)
  ultimately have "decryptEpochLocked A now b f = Inr \<lparr>rc_plaintext = p, rc_current = False, rc_token = t\<rparr>"
    using assms t by (simp add: decryptEpochLocked_def)
  then have "receiveLocked A now b f = (b\<lparr>previousReplay := w\<rparr>, Inr p)"
    using assms(8) w(1) by (simp add: receiveLocked_def)
  then show ?thesis
    using ReceivePayload_locked [OF assms(3,7,11,12)] w(2) by (auto simp: lift_session_def)
qed

definition sample_rekeyed :: "bytes session" where
  "sample_rekeyed = sample_session\<lparr>receiveEpoch := 2, previousReceive := Some (replicate 32 5),
     graceRemaining := 10, graceUntil := 100\<rparr>"

definition sample_late :: frame where
  "sample_late = sealed_frame key_tag_aead (replicate 32 5) 4 (replicate 16 1) 9 [1] []"

lemma sample_rekeyed_ok: "session_ok key_tag_aead sample_rekeyed"
  using tracks_zero_window replicate_neq_16
  by (auto simp: session_ok_def send_ok_def receive_ok_def grace_ok_def sample_rekeyed_def sample_session_def
      key_tag_aead_def DefaultRekeyGraceFrames_def DefaultRekeyGracePeriod_def word_le_nat_alt)

lemma sample_late_keys:
  "Codec_Decrypt key_tag_aead (replicate 32 5) sample_late = Inr [1]"
  "Codec_Decrypt key_tag_aead (replicate 32 3) sample_late = Inl ErrAuthentication"
proof -
  have head: "validateEncryptedHeader 4 (replicate 16 1) 9 = None"
    using replicate_neq_16 by (simp add: validateEncryptedHeader_None word_le_nat_alt)
  show dec: "Codec_Decrypt key_tag_aead (replicate 32 5) sample_late = Inr [1]"
    unfolding sample_late_def by (rule Codec_Decrypt_sealed [OF key_tag_aead_ok _ head]) simp_all
  have valid: "wf_frame sample_late" "Frame_ValidateReceive sample_late = None"
    unfolding sample_late_def
    using sealed_frame_valid(1,2) [OF key_tag_aead_ok, of "replicate 16 1" 4 "[1]" "[]" "replicate 32 5" 9]
      Frame_Validate_receive by simp_all
  have "marshalBinary (f_Header sample_late) False = Inr (header_bytes (f_Header sample_late))"
    using valid by (auto simp: marshalBinary_eq wf_frame_def Header_ValidateReceive_def Frame_ValidateReceive_None)
  then show "Codec_Decrypt key_tag_aead (replicate 32 3) sample_late = Inl ErrAuthentication"
    using valid(2) head
    by (simp add: Codec_Decrypt_def Let_def) (simp add: sample_late_def sealed_frame_def key_tag_aead_def Let_def)
qed

theorem late_frame_accepted_witness:
  "\<exists>w. ReceivePayload key_tag_aead (\<lambda>_. 50) (Some sample_rekeyed) sample_late =
        (Some (sample_rekeyed\<lparr>previousReplay := w\<rparr>), Inr [1]) \<and> tracks w {9}"
proof -
  have "sample_late = sample_late" ..
  then show ?thesis
    using late_frame_accepted [OF key_tag_aead_ok sample_rekeyed_ok, of "replicate 32 5" "\<lambda>_. 50" "{}" sample_late "[1]"]
      sample_late_keys tracks_zero_window
    by (simp add: sample_rekeyed_def sample_session_def validSessionMessageType_def word_le_nat_alt replay_verdict_def
        zero_window_def) (simp add: sample_late_def)
qed

definition session_run :: "'c aead \<Rightarrow> session_op list \<Rightarrow> 'c session \<Rightarrow> 'c session" where
  "session_run A ops s = fold (session_step A) ops s"

lemma accepted_pair_current:
  assumes "accepted_pair A now s f = Some (unat (receiveEpoch s), n)" and "receive_ok A s"
  shows "\<exists>p t. decryptEpochLocked A now s f = Inr \<lparr>rc_plaintext = p, rc_current = True, rc_token = t\<rparr>"
proof -
  obtain c where c: "decryptEpochLocked A now s f = Inr c"
    and e: "unat (receiveEpoch s) = unat (if rc_current c then receiveEpoch s else receiveEpoch s - 1)"
    using accepted_pair_locked [OF assms(1)] by (metis prod.inject)
  have "rc_current c"
  proof (rule ccontr)
    assume "\<not> rc_current c"
    then have "unat (receiveEpoch s) = unat (receiveEpoch s - 1)" using e by simp
    moreover have "0 < unat (receiveEpoch s)" using assms(2) by (simp add: receive_ok_def unat_gt_0)
    ultimately show False using assms(2) by (simp add: receive_ok_def unat_minus_one)
  qed
  then show ?thesis using c by (cases c) auto
qed

text \<open>The effect of one receive on the budget of the previous key.\<close>

lemma receive_budget:
  assumes ok: "receive_ok A s" and res: "receiveLocked A now s f = (s', r)"
    and keep: "receiveEpoch s' = receiveEpoch s" "previousReceive s' \<noteq> None"
  shows "previousReceive s \<noteq> None"
    and "unat (graceRemaining s') + (if \<exists>n. accepted_pair A now s f = Some (unat (receiveEpoch s), n)
           \<and> (\<exists>x. r = Inr x) then 1 else 0) \<le> unat (graceRemaining s)"
proof -
  have g: "grace_ok s" using ok by (simp add: receive_ok_def)
  from res have "previousReceive s \<noteq> None \<and>
    unat (graceRemaining s') + (if \<exists>n. accepted_pair A now s f = Some (unat (receiveEpoch s), n)
           \<and> (\<exists>x. r = Inr x) then 1 else 0) \<le> unat (graceRemaining s)"
  proof (cases rule: receiveLocked_cases)
    case (rejected e)
    then show ?thesis using keep by simp
  next
    case (rekeyed p t init key c w)
    have "receiveEpoch s \<noteq> - 1" "ri_Epoch init = receiveEpoch s + 1"
      using rekeyed(4) by (auto simp: prepareRekeyLocked_Inr rekey_message_def)
    moreover from this have "ri_Epoch init \<noteq> receiveEpoch s" by simp
    ultimately show ?thesis using keep(1) by (simp add: rekeyed(7))
  next
    case (current p t w)
    have prev: "previousReceive s \<noteq> None" using current(5) keep(2) by (auto split: if_splits)
    then have pos: "0 < graceRemaining s" using g by (simp add: grace_ok_def)
    let ?g = "s\<lparr>replay := w, graceRemaining := graceRemaining s - 1\<rparr>"
    have eq: "s' = expireGraceLocked (now 1) ?g" using current(5) prev pos by simp
    have "expireGraceLocked (now 1) ?g = ?g" using keep(2) unfolding eq by (rule expireGraceLocked_kept(1))
    then have "graceRemaining s' = graceRemaining ?g" unfolding eq by (rule arg_cong)
    then have "unat (graceRemaining s') + 1 = unat (graceRemaining s)"
      using pos by (simp add: word_gt_0 unat_minus_one) (simp add: unat_gt_0 Suc_leI)
    then show ?thesis using prev by simp
  next
    case (previous p t w)
    have "\<not> (\<exists>n. accepted_pair A now s f = Some (unat (receiveEpoch s), n))"
      using accepted_pair_current [OF _ ok] previous(1) by fastforce
    then show ?thesis using previous(5) keep(2) by simp
  qed
  then show "previousReceive s \<noteq> None"
    and "unat (graceRemaining s') + (if \<exists>n. accepted_pair A now s f = Some (unat (receiveEpoch s), n)
           \<and> (\<exists>x. r = Inr x) then 1 else 0) \<le> unat (graceRemaining s)" by simp_all
qed

lemma receiveEpoch_mono_receive:
  assumes "receiveLocked A now s f = (s', r)"
  shows "unat (receiveEpoch s) \<le> unat (receiveEpoch s')"
  using assms
proof (cases rule: receiveLocked_cases)
  case (rekeyed p t init key c w)
  then show ?thesis
    using word_successor [of "receiveEpoch s"] by (auto simp: prepareRekeyLocked_Inr rekey_message_def)
qed auto

lemma session_step_budget:
  assumes A: "aead_ok A" and ok: "session_ok A s"
  shows "unat (receiveEpoch s) \<le> unat (receiveEpoch (session_step A op s))"
    and "receiveEpoch (session_step A op s) = receiveEpoch s \<Longrightarrow> previousReceive (session_step A op s) \<noteq> None \<Longrightarrow>
      previousReceive s \<noteq> None
      \<and> unat (graceRemaining (session_step A op s))
          + (if \<exists>n. accepted A op s = Some (unat (receiveEpoch s), n) then 1 else 0) \<le> unat (graceRemaining s)"
proof -
  have ok': "receive_ok A s" "send_ok A s" using ok by (simp_all add: session_ok_def)
  define s' where "s' = session_step A op s"
  have "unat (receiveEpoch s) \<le> unat (receiveEpoch s') \<and>
    (receiveEpoch s' = receiveEpoch s \<longrightarrow> previousReceive s' \<noteq> None \<longrightarrow>
      previousReceive s \<noteq> None
      \<and> unat (graceRemaining s') + (if \<exists>n. accepted A op s = Some (unat (receiveEpoch s), n) then 1 else 0)
          \<le> unat (graceRemaining s))" (is "?goal s' (accepted A op s)")
  proof -
    have same: "?goal s' (accepted A op s)" if "receive_half s' = receive_half s" "accepted A op s = None"
      using that by (simp add: receive_half_def)
    have rec: "?goal (the (fst (ReceivePayload A now (Some s) f))) (accepted_pair A now s f)" for now f
    proof (cases "accepted_pair A now s f")
      case None
      obtain t r where tr: "receiveLocked A now s f = (t, r)" by fastforce
      from ReceivePayload_state [of A now s f] tr
      consider "the (fst (ReceivePayload A now (Some s) f)) = s" | "the (fst (ReceivePayload A now (Some s) f)) = t"
        by auto
      then show ?thesis
        using None receive_budget [OF ok'(1) tr] receiveEpoch_mono_receive [OF tr] by cases simp_all
    next
      case (Some x)
      then obtain t p where "receiveLocked A now s f = (t, Inr p)" "the (fst (ReceivePayload A now (Some s) f)) = t"
        using accepted_pair_locked by metis
      then show ?thesis
        using receive_budget [OF ok'(1), of now f t "Inr p"] receiveEpoch_mono_receive [of A now s f t] by auto
    qed
    show ?thesis
    proof (cases op)
      case (OpReceive f now)
      then show ?thesis using rec [of now f] by (simp add: s'_def Session_Receive_state)
    next
      case (OpReceivePayload f now)
      then show ?thesis using rec [of now f] by (simp add: s'_def)
    next
      case (OpSend m pad now reader)
      have "receive_half s' = receive_half s"
        using Session_Send_state [of A now reader s m pad] sendPayload_receive_half(1) [OF ok'(2) A] OpSend
        by (auto simp: s'_def)
      then show ?thesis using same OpSend by simp
    next
      case (OpSendPayload mt p pad now reader)
      have "receive_half s' = receive_half s"
        using Session_SendPayload_state [of A now reader s mt p pad] sendPayload_receive_half(1) [OF ok'(2) A]
          OpSendPayload by (auto simp: s'_def)
      then show ?thesis using same OpSendPayload by simp
    next
      case (OpMarkRekeySent f now)
      then have "receive_half s' = receive_half s"
        using MarkRekeySent_state [of now s f] by (auto simp: s'_def receive_half_def)
      then show ?thesis using same OpMarkRekeySent by simp
    next
      case OpClose
      then show ?thesis by (intro same) (simp_all add: s'_def Session_Close_def receive_half_def)
    qed
  qed
  then show "unat (receiveEpoch s) \<le> unat (receiveEpoch (session_step A op s))"
    and "receiveEpoch (session_step A op s) = receiveEpoch s \<Longrightarrow> previousReceive (session_step A op s) \<noteq> None \<Longrightarrow>
      previousReceive s \<noteq> None
      \<and> unat (graceRemaining (session_step A op s))
          + (if \<exists>n. accepted A op s = Some (unat (receiveEpoch s), n) then 1 else 0) \<le> unat (graceRemaining s)"
    by (simp_all add: s'_def)
qed

lemma session_run_epoch:
  "aead_ok A \<Longrightarrow> session_ok A s \<Longrightarrow> unat (receiveEpoch s) \<le> unat (receiveEpoch (session_run A ops s))"
proof (induction ops arbitrary: s)
  case (Cons op ops)
  then show ?case
    using session_step_budget(1) [OF Cons.prems, of op] session_step_ok [OF Cons.prems, of op]
    by (fastforce simp: session_run_def)
qed (simp add: session_run_def)

lemma grace_budget_run:
  assumes A: "aead_ok A" and "session_ok A s"
    and "receiveEpoch (session_run A ops s) = receiveEpoch s" and "previousReceive (session_run A ops s) \<noteq> None"
  shows "previousReceive s \<noteq> None
    \<and> unat (graceRemaining (session_run A ops s))
      + length (filter (\<lambda>x. fst x = unat (receiveEpoch s)) (accepted_trace A s ops)) \<le> unat (graceRemaining s)"
  using assms(2-)
proof (induction ops arbitrary: s)
  case (Cons op ops)
  let ?s = "session_step A op s"
  have run: "session_run A (op # ops) s = session_run A ops ?s" by (simp add: session_run_def)
  have ok: "session_ok A ?s" by (rule session_step_ok [OF A Cons.prems(1)])
  have e: "receiveEpoch ?s = receiveEpoch s"
    using session_step_budget(1) [OF A Cons.prems(1), of op] session_run_epoch [OF A ok, of ops] Cons.prems(2)
    by (simp add: run word_unat_eq_iff)
  have IH: "previousReceive ?s \<noteq> None \<and> unat (graceRemaining (session_run A ops ?s))
      + length (filter (\<lambda>x. fst x = unat (receiveEpoch ?s)) (accepted_trace A ?s ops)) \<le> unat (graceRemaining ?s)"
    using Cons.IH [OF ok] Cons.prems(2,3) by (simp add: run e)
  then have st: "previousReceive s \<noteq> None \<and> unat (graceRemaining ?s)
      + (if \<exists>n. accepted A op s = Some (unat (receiveEpoch s), n) then 1 else 0) \<le> unat (graceRemaining s)"
    using session_step_budget(2) [OF A Cons.prems(1) e] by blast
  show ?case
  proof (cases "accepted A op s")
    case None
    then show ?thesis using IH st by (simp add: run e)
  next
    case (Some x)
    then show ?thesis using IH st by (cases x) (auto simp: run e split: if_splits)
  qed
qed (simp add: session_run_def)

text \<open>C31: the previous receive key is dropped in time. As long as it is still held, fewer than
  \<^verbatim>\<open>graceFrames\<close> frames of the current epoch have been accepted since the key change, whatever
  else the session did.\<close>

theorem previous_key_expires:
  assumes "aead_ok A" and "session_ok A s"
    and "receiveEpoch (session_run A ops s) = receiveEpoch s" and "previousReceive (session_run A ops s) \<noteq> None"
  shows "length (filter (\<lambda>x. fst x = unat (receiveEpoch s)) (accepted_trace A s ops)) < unat (graceFrames s)"
proof -
  have "session_ok A (session_run A ops s)"
    using assms(1,2) by (induction ops arbitrary: s) (auto simp: session_run_def session_step_ok)
  then have "0 < unat (graceRemaining (session_run A ops s))"
    using assms(4) by (auto simp: session_ok_def receive_ok_def grace_ok_def unat_gt_0)
  moreover have "unat (graceRemaining s) \<le> unat (graceFrames s)"
    using grace_budget_run [OF assms] assms(2)
    by (auto simp: session_ok_def receive_ok_def grace_ok_def word_le_nat_alt)
  ultimately show ?thesis using grace_budget_run [OF assms] by linarith
qed

theorem previous_key_expires_witness:
  "length (filter (\<lambda>x. fst x = 2) (accepted_trace key_tag_aead sample_rekeyed [OpClose])) < 2048"
  using previous_key_expires [OF key_tag_aead_ok sample_rekeyed_ok, of "[OpClose]"]
  by (simp add: session_run_def Session_Close_def sample_rekeyed_def sample_session_def DefaultRekeyGraceFrames_def)

section \<open>Refusals\<close>

text \<open>C32: while a rekey is pending no call hands out a frame, and only \<^verbatim>\<open>MarkRekeySent\<close> with exactly
  the pending frame ends that state; it installs the next epoch and restarts the sequence at 1.\<close>

theorem pending_rekey_blocks:
  assumes "\<not> closed s" and "pendingRekey s = Some q"
  shows "(\<exists>e. Session_Send A now reader (Some s) m pad = (Some s, Inl e))
    \<and> (\<exists>e. Session_SendPayload A now reader (Some s) mt p pad = (Some s, Inl e))
    \<and> (f \<noteq> pr_frame q \<longrightarrow> MarkRekeySent now (Some s) f = (Some s, Some ErrRekeyPending))
    \<and> (\<exists>s'. MarkRekeySent now (Some s) (pr_frame q) = (Some s', None) \<and> pendingRekey s' = None
         \<and> sendEpoch s' = pr_epoch q \<and> sendKey s' = pr_key q \<and> nextSequence s' = 1)"
proof -
  have send: "\<exists>e. sendPayload A now reader s mt p pad = (s, Inl e)" for mt p
    using assms by (simp add: sendPayload_def)
  have "sameRekeyFrame (pr_frame q) f \<longleftrightarrow> f = pr_frame q"
    by (auto simp: sameRekeyFrame_def)
  moreover have "\<exists>e. Session_Send A now reader (Some s) m pad = (Some s, Inl e)"
    using send by (auto simp: Session_Send_def lift_session_def split: sum.splits) (metis fst_conv snd_conv)+
  moreover have "\<exists>e. Session_SendPayload A now reader (Some s) mt p pad = (Some s, Inl e)"
    using send by (auto simp: Session_SendPayload_def lift_session_def) (metis fst_conv snd_conv)+
  ultimately show ?thesis
    using assms by (simp add: MarkRekeySent_def) (simp add: sameRekeyFrame_def)
qed

definition sample_pending :: "bytes session" where
  "sample_pending = sample_session\<lparr>pendingRekey := Some \<lparr>pr_frame = foreign_frame, pr_key = replicate 32 4,
     pr_codec = replicate 32 4, pr_epoch = 2\<rparr>\<rparr>"

theorem pending_rekey_blocks_witness:
  "\<exists>s'. MarkRekeySent (\<lambda>_. 8) (Some sample_pending) foreign_frame = (Some s', None) \<and> sendEpoch s' = 2"
  using pending_rekey_blocks [of sample_pending _ mac_aead "\<lambda>_. 8" "[]" NilPtr 0 0 "[]" foreign_frame]
  by (auto simp: sample_pending_def sample_session_def)



end
