(* ===== verification/Transport.thy ===== *)
theory Transport
  imports Frame Crypto
begin

text \<open>
  \<^verbatim>\<open>tcp.go\<close>: frames over a byte stream.

  A \<^verbatim>\<open>net.Conn\<close> is what it delivers and what it takes: \<open>conn_in\<close> are the bytes that can still be
  read, \<open>conn_in_err\<close> is the error a read meets after them, \<open>conn_out\<close> are the bytes written so
  far, and \<open>conn_write\<close> says how its \<open>i\<close>-th \<^verbatim>\<open>Write\<close> ends (bytes taken, error). A context is the
  sequence of results of its \<^verbatim>\<open>Err()\<close>, one per place the operation asks; \<open>ctx_lane\<close> tells whether the
  lane of the operation is obtained before the context is done. Deadlines set by
  \<^verbatim>\<open>watchContext\<close> act through \<open>conn_in_err\<close> and \<open>conn_write\<close>; its goroutine is not modelled.
  The lanes serialise reads with reads and writes with writes, so an operation
  sees the stream alone.
\<close>

section \<open>Connections and contexts\<close>

record conn =
  conn_in :: bytes
  conn_in_err :: dg_error
  conn_out :: bytes
  conn_writes :: nat \<comment> \<open>number of \<^verbatim>\<open>Write\<close> calls made\<close>
  conn_write :: "nat \<Rightarrow> nat \<times> dg_error option"
  conn_close_err :: "dg_error option" \<comment> \<open>what \<^verbatim>\<open>Close\<close> returns\<close>

record ctx =
  ctx_Err :: "nat \<Rightarrow> dg_error option"
  ctx_lane :: bool

definition minFrameSize :: nat where [simp]: "minFrameSize = HeaderSize"

section \<open>tcp.go\<close>

definition transportError :: "dg_error option \<Rightarrow> dg_error \<Rightarrow> dg_error" where
  "transportError ctxErr err =
     (case ctxErr of
        Some e \<Rightarrow> e
      | None \<Rightarrow> if err = ErrNetClosed then ErrTransportClosed else err)"

definition acquireLane :: "ctx \<Rightarrow> dg_error option" where
  "acquireLane cx =
     (case ctx_Err cx 0 of
        Some e \<Rightarrow> Some e
      | None \<Rightarrow> if ctx_lane cx then None else ctx_Err cx 1)"

definition watchContext :: "ctx \<Rightarrow> dg_error option" where
  "watchContext cx = ctx_Err cx 2"

text \<open>\<^verbatim>\<open>io.ReadFull\<close> on the connection: the number of bytes asked for, or the error of the
  short read; what arrived before an error is consumed.\<close>

definition conn_ReadFull :: "conn \<Rightarrow> nat \<Rightarrow> conn \<times> bytes result" where
  "conn_ReadFull c n =
     (if n \<le> length (conn_in c) then (c\<lparr>conn_in := drop n (conn_in c)\<rparr>, Inr (take n (conn_in c)))
      else (c\<lparr>conn_in := []\<rparr>,
            Inl (if conn_in_err c = EOF \<and> conn_in c \<noteq> [] then ErrUnexpectedEOF else conn_in_err c)))"

definition ReadFrame :: "ctx \<Rightarrow> conn \<Rightarrow> conn \<times> frame result" where
  "ReadFrame cx c =
     (case acquireLane cx of
        Some err \<Rightarrow> (c, Inl err)
      | None \<Rightarrow>
          (case watchContext cx of
             Some err \<Rightarrow> (c, Inl err)
           | None \<Rightarrow>
               (case conn_ReadFull c HeaderSize of
                  (c, Inl err) \<Rightarrow> (c, Inl (transportError (ctx_Err cx 3) err))
                | (c, Inr headerWire) \<Rightarrow>
                    (case Header_UnmarshalBinary headerWire of
                       Inl err \<Rightarrow> (c, Inl err)
                     | Inr header \<Rightarrow>
                         (let frameSize = FrameSize header
                          in if unat frameSize < minFrameSize then (c, Inl ErrTransportFrameTooShort)
                             else if unat frameSize > MaxFrameSize then (c, Inl ErrTransportFrameTooLarge)
                             else
                               (case conn_ReadFull c (unat frameSize - HeaderSize) of
                                  (c, Inl err) \<Rightarrow> (c, Inl (transportError (ctx_Err cx 3) err))
                                | (c, Inr body) \<Rightarrow> (c, Frame_UnmarshalBinary (headerWire @ body))))))))"

text \<open>The write loop: \<open>W i\<close> is the outcome of the \<open>i\<close>-th \<^verbatim>\<open>Write\<close>. By the contract of
  \<^verbatim>\<open>io.Writer\<close> a call takes at most the bytes it is given. The loop returns the bytes that
  went out, the number of calls, and how it ended.\<close>

datatype write_end = Written | ShortWritten | WriteFailed dg_error

function write_loop :: "(nat \<Rightarrow> nat \<times> dg_error option) \<Rightarrow> nat \<Rightarrow> bytes \<Rightarrow> bytes \<times> nat \<times> write_end" where
  "write_loop W i wire =
     (if wire = [] then ([], i, Written)
      else
        (let n = min (fst (W i)) (length wire)
         in case snd (W i) of
              Some err \<Rightarrow> (take n wire, Suc i, WriteFailed err)
            | None \<Rightarrow>
                if n = 0 then ([], Suc i, ShortWritten)
                else (case write_loop W (Suc i) (drop n wire) of
                        (out, j, e) \<Rightarrow> (take n wire @ out, j, e))))"
  by pat_completeness auto
termination
  by (relation "measure (\<lambda>(W, i, wire). length wire)") auto

declare write_loop.simps [simp del]

definition WriteFrame :: "ctx \<Rightarrow> conn \<Rightarrow> frame \<Rightarrow> conn \<times> dg_error option" where
  "WriteFrame cx c f =
     (case Frame_MarshalBinary f of
        Inl err \<Rightarrow> (c, Some err)
      | Inr wire \<Rightarrow>
          if length wire < minFrameSize then (c, Some ErrTransportFrameTooShort)
          else if length wire > MaxFrameSize then (c, Some ErrTransportFrameTooLarge)
          else
            (case acquireLane cx of
               Some err \<Rightarrow> (c, Some err)
             | None \<Rightarrow>
                 (case watchContext cx of
                    Some err \<Rightarrow> (c, Some err)
                  | None \<Rightarrow>
                      (case write_loop (conn_write c) (conn_writes c) wire of
                         (out, i, e) \<Rightarrow>
                           (c\<lparr>conn_out := conn_out c @ out, conn_writes := i\<rparr>,
                            case e of
                              Written \<Rightarrow> None
                            | ShortWritten \<Rightarrow> Some ErrShortWrite
                            | WriteFailed err \<Rightarrow> Some (transportError (ctx_Err cx 3) err))))))"

definition Transport_Close :: "conn \<Rightarrow> dg_error option" where
  "Transport_Close c =
     (case conn_close_err c of
        None \<Rightarrow> None
      | Some err \<Rightarrow> Some (if err = ErrNetClosed then ErrTransportClosed else err))"

section \<open>Writing\<close>

text \<open>Writers that make progress let the loop finish.\<close>

lemma write_loop_ok:
  assumes "\<And>i. snd (W i) = None" and "\<And>i. 0 < fst (W i)"
  shows "\<exists>j. write_loop W i wire = (wire, j, Written)"
proof (induction wire arbitrary: i rule: length_induct)
  case (1 wire)
  show ?case
  proof (cases "wire = []")
    case False
    let ?n = "min (fst (W i)) (length wire)"
    have "0 < ?n" using assms(2) [of i] False by simp
    then obtain j where "write_loop W (Suc i) (drop ?n wire) = (drop ?n wire, j, Written)"
      using "1.IH" False by (metis diff_less length_drop length_greater_0_conv)
    then show ?thesis
      using False \<open>0 < ?n\<close> by (simp add: write_loop.simps [of W i wire] assms(1) Let_def)
  qed (simp add: write_loop.simps)
qed

text \<open>Whatever the sizes of the partial writes, what goes out is a prefix of the frame, and all of it
  when the loop ends without error.\<close>

lemma write_loop_prefix:
  "write_loop W i wire = (out, j, e) \<Longrightarrow> (\<exists>rest. wire = out @ rest) \<and> (e = Written \<longrightarrow> out = wire)"
proof (induction wire arbitrary: i out j e rule: length_induct)
  case (1 wire)
  let ?n = "min (fst (W i)) (length wire)"
  show ?case
  proof (cases "wire \<noteq> [] \<and> snd (W i) = None \<and> ?n \<noteq> 0")
    case True
    obtain out' j' e' where rec: "write_loop W (Suc i) (drop ?n wire) = (out', j', e')" by (metis prod_cases3)
    have "length (drop ?n wire) < length wire" using True by auto
    then have "(\<exists>rest. drop ?n wire = out' @ rest) \<and> (e' = Written \<longrightarrow> out' = drop ?n wire)"
      using "1.IH" rec by blast
    moreover have "out = take ?n wire @ out'" "e = e'"
      using "1.prems" True rec by (auto simp: write_loop.simps [of W i wire] Let_def)
    ultimately show ?thesis by (metis append.assoc append_take_drop_id)
  next
    case False
    have "\<exists>rest. wire = take ?n wire @ rest" by (metis append_take_drop_id)
    then show ?thesis
      using "1.prems" False
      by (auto simp: write_loop.simps [of W i wire] Let_def split: option.splits if_splits)
  qed
qed

lemma WriteFrame_None:
  assumes "WriteFrame cx c f = (c', None)"
  shows "\<exists>wire. Frame_MarshalBinary f = Inr wire \<and> conn_out c' = conn_out c @ wire \<and> conn_in c' = conn_in c
     \<and> conn_in_err c' = conn_in_err c"
proof -
  obtain wire where wire: "Frame_MarshalBinary f = Inr wire"
    using assms by (auto simp: WriteFrame_def split: sum.splits)
  obtain out i e where loop: "write_loop (conn_write c) (conn_writes c) wire = (out, i, e)" by (metis prod_cases3)
  have "c' = c\<lparr>conn_out := conn_out c @ out, conn_writes := i\<rparr>" "e = Written"
    using assms wire loop by (auto simp: WriteFrame_def split: if_splits option.splits write_end.splits)
  then show ?thesis using write_loop_prefix [OF loop] wire by auto
qed

section \<open>Reading\<close>

text \<open>A context that is never done.\<close>

definition live :: "ctx \<Rightarrow> bool" where
  "live cx \<longleftrightarrow> (\<forall>i. ctx_Err cx i = None) \<and> ctx_lane cx"

lemma live_lane: "live cx \<Longrightarrow> acquireLane cx = None \<and> watchContext cx = None"
  by (simp add: live_def acquireLane_def watchContext_def)

lemma ReadFrame_wire:
  assumes live: "live cx" and wf: "wf_frame f" and wire: "Frame_MarshalBinary f = Inr wire"
    and input: "conn_in c = wire @ rest"
  shows "ReadFrame cx c = (c\<lparr>conn_in := rest\<rparr>, Inr (received_frame f))"
proof -
  let ?h = "f_Header f"
  have ok: "Frame_Validate f = None" and bs: "wire = header_bytes ?h @ frame_body f"
    using wire wf by (auto simp: Frame_MarshalBinary_eq split: option.splits)
  have wfh: "wf_header ?h" using wf by (simp add: wf_defs)
  have len: "length (header_bytes ?h) = 40" using wfh by (rule length_header_bytes)
  have vc: "validateCommon ?h = None" and vl: "validateLengths f = None" and size: "frame_size ?h \<le> 65535"
    using ok by (auto simp: Frame_Validate_None Header_Validate_None validateCommon_None)
  have head: "Header_UnmarshalBinary (header_bytes ?h) = Inr ?h"
    using Header_UnmarshalBinary_bytes [OF wfh vc, of "[]"] by simp
  have body: "length (frame_body f) = unat (FrameSize ?h) - 40" "40 \<le> unat (FrameSize ?h)"
    using length_frame_body [OF wf vl] by (simp_all add: unat_FrameSize)
  have "Frame_UnmarshalBinary (header_bytes ?h @ frame_body f) = Inr (received_frame f)"
    by (rule Frame_UnmarshalBinary_bytes [OF wf Frame_Validate_receive [OF ok]])
  then show ?thesis
    using live_lane [OF live] input bs len head body size
    by (simp add: ReadFrame_def conn_ReadFull_def Let_def unat_FrameSize)
qed

text \<open>Reading never asks for more than one maximal frame, and a malformed header is rejected
  before any body byte is consumed.\<close>

lemma conn_ReadFull_consumes:
  "conn_ReadFull c n = (c', r) \<Longrightarrow>
     \<exists>used. conn_in c = used @ conn_in c' \<and> length used \<le> n \<and> (\<forall>bs. r = Inr bs \<longrightarrow> bs = used \<and> length bs = n)
       \<and> conn_out c' = conn_out c"
  by (auto simp: conn_ReadFull_def split: if_splits intro: exI [of _ "take n (conn_in c)"])

lemma ReadFrame_consumes:
  assumes "ReadFrame cx c = (c', r)"
  shows "\<exists>used. conn_in c = used @ conn_in c' \<and> length used \<le> 65535
    \<and> (\<forall>f. r = Inr f \<longrightarrow> used = header_bytes (f_Header f) @ frame_body f)"
proof -
  consider "c' = c" "\<exists>e. r = Inl e" | "acquireLane cx = None" "watchContext cx = None"
    using assms by (cases "acquireLane cx"; cases "watchContext cx") (auto simp: ReadFrame_def)
  then show ?thesis
  proof cases
    case 2
    obtain c1 r1 where r1: "conn_ReadFull c 40 = (c1, r1)" by fastforce
    obtain u1 where u1: "conn_in c = u1 @ conn_in c1" "length u1 \<le> 40" "\<And>bs. r1 = Inr bs \<Longrightarrow> bs = u1 \<and> length bs = 40"
      using conn_ReadFull_consumes [OF r1] by blast
    show ?thesis
    proof (cases "c' = c1 \<and> (\<exists>e. r = Inl e)")
      case True
      then show ?thesis using u1 by auto
    next
      case False
      then obtain h where h: "r1 = Inr u1" "Header_UnmarshalBinary u1 = Inr h" "unat (FrameSize h) \<le> 65535"
        using assms 2 r1 u1(3)
        by (cases r1; cases "Header_UnmarshalBinary u1") (auto simp: ReadFrame_def Let_def split: if_splits)
      obtain c2 r2 where r2: "conn_ReadFull c1 (unat (FrameSize h) - 40) = (c2, r2)" by fastforce
      obtain u2 where u2: "conn_in c1 = u2 @ conn_in c2" "length u2 \<le> unat (FrameSize h) - 40"
        "\<And>bs. r2 = Inr bs \<Longrightarrow> bs = u2"
        using conn_ReadFull_consumes [OF r2] by blast
      have res: "c' = c2" "\<forall>f. r = Inr f \<longrightarrow> Frame_UnmarshalBinary (u1 @ u2) = Inr f"
        using assms 2 r1 h r2 u2(3) False
        by (cases r2; auto simp: ReadFrame_def Let_def split: if_splits)+
      have "40 \<le> unat (FrameSize h)" by (simp add: unat_FrameSize frame_size_def)
      then have "length (u1 @ u2) \<le> 65535" using u1(2) u2(2) h(3) by simp
      moreover have "conn_in c = (u1 @ u2) @ conn_in c'" using u1(1) u2(1) res(1) by simp
      ultimately show ?thesis using res(2) Frame_UnmarshalBinary_Inr(4) by metis
    qed
  qed auto
qed

section \<open>Streams of frames\<close>

fun write_all :: "ctx \<Rightarrow> conn \<Rightarrow> frame list \<Rightarrow> conn \<times> dg_error option" where
  "write_all cx c [] = (c, None)"
| "write_all cx c (f # fs) =
     (case WriteFrame cx c f of (c', Some e) \<Rightarrow> (c', Some e) | (c', None) \<Rightarrow> write_all cx c' fs)"

fun read_all :: "ctx \<Rightarrow> conn \<Rightarrow> nat \<Rightarrow> conn \<times> frame list result" where
  "read_all cx c 0 = (c, Inr [])"
| "read_all cx c (Suc n) =
     (case ReadFrame cx c of
        (c', Inl e) \<Rightarrow> (c', Inl e)
      | (c', Inr f) \<Rightarrow>
          (case read_all cx c' n of (c'', Inl e) \<Rightarrow> (c'', Inl e) | (c'', Inr fs) \<Rightarrow> (c'', Inr (f # fs))))"

lemma write_all_wire:
  "write_all cx c fs = (c', None) \<Longrightarrow>
     \<exists>ws. list_all2 (\<lambda>f w. Frame_MarshalBinary f = Inr w) fs ws \<and> conn_out c' = conn_out c @ concat ws"
proof (induction fs arbitrary: c)
  case (Cons f fs)
  then obtain c1 where w: "WriteFrame cx c f = (c1, None)" and rest: "write_all cx c1 fs = (c', None)"
    by (auto split: prod.splits option.splits)
  obtain wire where "Frame_MarshalBinary f = Inr wire" "conn_out c1 = conn_out c @ wire" using WriteFrame_None [OF w] by blast
  moreover obtain ws where "list_all2 (\<lambda>f w. Frame_MarshalBinary f = Inr w) fs ws" "conn_out c' = conn_out c1 @ concat ws"
    using Cons.IH [OF rest] by blast
  ultimately show ?case by (intro exI [of _ "wire # ws"]) simp
qed (intro exI [of _ "[]"], simp)

lemma read_all_wire:
  assumes "list_all2 (\<lambda>f w. Frame_MarshalBinary f = Inr w) fs ws" and "\<forall>f \<in> set fs. wf_frame f"
    and "live cx" and "conn_in c = concat ws @ rest"
  shows "read_all cx c (length fs) = (c\<lparr>conn_in := rest\<rparr>, Inr (map received_frame fs))"
  using assms
proof (induction fs ws arbitrary: c rule: list_all2_induct)
  case (Cons f fs w ws)
  have "ReadFrame cx c = (c\<lparr>conn_in := concat ws @ rest\<rparr>, Inr (received_frame f))"
    using Cons by (intro ReadFrame_wire) auto
  then show ?case using Cons.IH [of "c\<lparr>conn_in := concat ws @ rest\<rparr>"] Cons.prems by simp
qed simp

section \<open>Properties\<close>

text \<open>C34: frames are self-delimiting on the stream. If a peer writes a list of frames without error,
  in whatever partial writes, then reading as many frames from the bytes that went out (whatever
  follows them) gives the same frames in the same order and stops exactly behind them.\<close>

theorem stream_roundtrip:
  assumes "write_all cx c fs = (c', None)" and "conn_out c' = conn_out c @ bytes" and "\<forall>f \<in> set fs. wf_frame f"
    and "live cx'" and "conn_in d = bytes @ rest"
  shows "read_all cx' d (length fs) = (d\<lparr>conn_in := rest\<rparr>, Inr (map received_frame fs))"
proof -
  obtain ws where "list_all2 (\<lambda>f w. Frame_MarshalBinary f = Inr w) fs ws" "conn_out c' = conn_out c @ concat ws"
    using write_all_wire [OF assms(1)] by blast
  then show ?thesis using assms by (intro read_all_wire) auto
qed

definition sample_conn :: "bytes \<Rightarrow> conn" where
  "sample_conn input = \<lparr>conn_in = input, conn_in_err = EOF, conn_out = [], conn_writes = 0,
     conn_write = (\<lambda>_. (7, None)), conn_close_err = None\<rparr>"

definition background :: ctx where
  "background = \<lparr>ctx_Err = (\<lambda>_. None), ctx_lane = True\<rparr>"

lemma live_background: "live background"
  by (simp add: live_def background_def)

lemma WriteFrame_progress:
  assumes "live cx" and "wf_frame f" and "Frame_Validate f = None"
    and "\<And>i. snd (conn_write c i) = None" and "\<And>i. 0 < fst (conn_write c i)"
  shows "\<exists>j. WriteFrame cx c f =
    (c\<lparr>conn_out := conn_out c @ header_bytes (f_Header f) @ frame_body f, conn_writes := j\<rparr>, None)"
proof -
  let ?w = "header_bytes (f_Header f) @ frame_body f"
  have wire: "Frame_MarshalBinary f = Inr ?w" using assms(2,3) by (simp add: Frame_MarshalBinary_eq)
  have "length (header_bytes (f_Header f)) = 40" using assms(2) by (intro length_header_bytes) (simp add: wf_defs)
  moreover have "frame_size (f_Header f) \<le> 65535" "validateLengths f = None"
    using assms(3) by (auto simp: Frame_Validate_None Header_Validate_None validateCommon_None)
  ultimately have "40 \<le> length ?w" "length ?w \<le> 65535" using length_frame_body [OF assms(2)] by simp_all
  moreover obtain j where "write_loop (conn_write c) (conn_writes c) ?w = (?w, j, Written)"
    using write_loop_ok [of "conn_write c"] assms(4,5) by blast
  ultimately show ?thesis using wire live_lane [OF assms(1)] by (auto simp: WriteFrame_def)
qed

definition sample_tcp_frame :: frame where
  "sample_tcp_frame = \<lparr>f_Header = NewHeader 4 (replicate 16 7) 1 2 1, f_Payload = [1, 2],
     f_Tag = replicate 16 9, f_Padding = [5]\<rparr>"

lemma sample_tcp_frame_ok:
  "wf_frame sample_tcp_frame" "Frame_Validate sample_tcp_frame = None"
  "received_frame sample_tcp_frame = sample_tcp_frame"
  by (simp_all add: sample_tcp_frame_def wf_frame_def Frame_Validate_None NewHeader_Validate frame_size_def
      validateLengths_def received_frame_def)

lemma sample_conn_simps [simp]:
  "conn_in (sample_conn input) = input" "conn_out (sample_conn input) = []"
  "conn_write (sample_conn input) = (\<lambda>_. (7, None))"
  by (simp_all add: sample_conn_def)

theorem stream_roundtrip_witness:
  "\<exists>c' bytes. write_all background (sample_conn []) [sample_tcp_frame] = (c', None) \<and> conn_out c' = bytes
     \<and> snd (read_all background (sample_conn (bytes @ [1, 2, 3])) 1) = Inr [sample_tcp_frame]"
proof -
  define w where "w = header_bytes (f_Header sample_tcp_frame) @ frame_body sample_tcp_frame"
  obtain j where "WriteFrame background (sample_conn []) sample_tcp_frame =
      ((sample_conn [])\<lparr>conn_out := conn_out (sample_conn []) @ w, conn_writes := j\<rparr>, None)"
    unfolding w_def
    using WriteFrame_progress [OF live_background sample_tcp_frame_ok(1,2), of "sample_conn []"] by auto
  then obtain c' where out: "write_all background (sample_conn []) [sample_tcp_frame] = (c', None)" "conn_out c' = w"
    by simp
  have "read_all background (sample_conn (w @ [1, 2, 3])) (length [sample_tcp_frame]) =
      ((sample_conn (w @ [1, 2, 3]))\<lparr>conn_in := [1, 2, 3]\<rparr>, Inr (map received_frame [sample_tcp_frame]))"
    by (rule stream_roundtrip [OF out(1) _ _ live_background, of w])
      (simp_all only: out(2) sample_conn_simps sample_tcp_frame_ok append_Nil list.set ball_simps simp_thms singleton_iff)
  then have "snd (read_all background (sample_conn (w @ [1, 2, 3])) 1) = Inr [sample_tcp_frame]"
    by (simp only: list.size One_nat_def snd_conv list.map sample_tcp_frame_ok(3) add_0)
  then show ?thesis using out by blast
qed

text \<open>C35: reading a frame consumes at most 65535 bytes of the stream whatever the header claims, and
  a frame it returns is exactly the bytes consumed.\<close>

theorem read_frame_bounded:
  assumes "ReadFrame cx c = (c', r)"
  shows "\<exists>used. conn_in c = used @ conn_in c' \<and> length used \<le> 65535
    \<and> (\<forall>f. r = Inr f \<longrightarrow> used = header_bytes (f_Header f) @ frame_body f)"
  by (rule ReadFrame_consumes [OF assms])

theorem read_frame_bounded_witness:
  "\<exists>used. replicate 40 0 = used @ conn_in (fst (ReadFrame background (sample_conn (replicate 40 0)))) \<and> length used \<le> 65535"
  using read_frame_bounded [of background "sample_conn (replicate 40 0)"] by (simp add: sample_conn_def) (metis prod.collapse)

text \<open>C36: a failed write leaves on the stream only a prefix of the one frame, and a writer that makes
  progress always gets a valid frame out completely.\<close>

theorem write_frame_prefix:
  "(WriteFrame cx c f = (c', e) \<and> Frame_MarshalBinary f = Inr wire \<longrightarrow>
      (\<exists>out rest. conn_out c' = conn_out c @ out \<and> wire = out @ rest \<and> (e = None \<longrightarrow> rest = [])))
   \<and> (live cx \<and> wf_frame f \<and> Frame_Validate f = None \<and> (\<forall>i. snd (conn_write c i) = None \<and> 0 < fst (conn_write c i))
      \<longrightarrow> snd (WriteFrame cx c f) = None)"
proof (intro conjI impI)
  assume a: "WriteFrame cx c f = (c', e) \<and> Frame_MarshalBinary f = Inr wire"
  obtain out j x where loop: "write_loop (conn_write c) (conn_writes c) wire = (out, j, x)" by (metis prod_cases3)
  from a loop consider "conn_out c' = conn_out c" "e \<noteq> None"
    | "conn_out c' = conn_out c @ out" "e = None \<longrightarrow> x = Written"
    by (auto simp: WriteFrame_def split: if_splits option.splits write_end.splits) metis+
  then show "\<exists>out rest. conn_out c' = conn_out c @ out \<and> wire = out @ rest \<and> (e = None \<longrightarrow> rest = [])"
  proof cases
    case 2
    then show ?thesis using write_loop_prefix [OF loop] by (cases "e = None") auto
  qed auto
next
  assume a: "live cx \<and> wf_frame f \<and> Frame_Validate f = None
      \<and> (\<forall>i. snd (conn_write c i) = None \<and> 0 < fst (conn_write c i))"
  then obtain j where "WriteFrame cx c f =
      (c\<lparr>conn_out := conn_out c @ header_bytes (f_Header f) @ frame_body f, conn_writes := j\<rparr>, None)"
    using WriteFrame_progress [of cx f c] by blast
  then show "snd (WriteFrame cx c f) = None" by simp
qed

theorem write_frame_prefix_witness:
  "snd (WriteFrame background (sample_conn []) sample_tcp_frame) = None"
  using write_frame_prefix [of background "sample_conn []" sample_tcp_frame "sample_conn []" None "[]"]
    live_background sample_tcp_frame_ok by (simp add: sample_conn_def)

end
