(* ===== verification/Handshake.thy ===== *)
theory Handshake
  imports Message_Codecs Session_Delivery
begin

text \<open>
  \<^verbatim>\<open>static_key.go\<close> and \<^verbatim>\<open>handshake.go\<close>: static identities and the three-flight handshake.

  The Noise protocol itself is \<^verbatim>\<open>github.com/flynn/noise\<close>, a third-party package, so it is a
  parameter: the record \<open>noise\<close> has the calls the code makes, over an unspecified type
  \<open>'n\<close> of \<^verbatim>\<open>noise.HandshakeState\<close> values. Calls that update the state in place return it.
  A \<^verbatim>\<open>*noise.CipherState\<close> is used only for nil tests and \<^verbatim>\<open>UnsafeKey\<close>; it is an \<open>option\<close>
  of the key. \<open>keypair_ok\<close> and \<open>noise_xx_ok\<close> state the documented behaviour relied upon.
  A reader is the list of bytes it delivers; \<^verbatim>\<open>rand.Reader\<close> is such a list, given by the caller.
  \<^verbatim>\<open>*Handshake\<close> is an \<open>option\<close>, whose \<open>None\<close> is the nil receiver.
\<close>

section \<open>The Noise parameter\<close>

record 'n noise =
  GenerateKeypair :: "bytes \<Rightarrow> (bytes \<times> bytes) result" \<comment> \<open>private and public key\<close>
  NewHandshakeState :: "bytes \<Rightarrow> bool \<Rightarrow> bytes \<Rightarrow> bytes \<times> bytes \<Rightarrow> 'n result"
    \<comment> \<open>random source, initiator, prologue, static key pair; suite and pattern XX are fixed\<close>
  WriteMessage :: "'n \<Rightarrow> 'n \<times> (bytes \<times> bytes option \<times> bytes option) result"
  ReadMessage :: "'n \<Rightarrow> bytes \<Rightarrow> 'n \<times> (bytes option \<times> bytes option) result"
  PeerStatic :: "'n \<Rightarrow> bytes"
  ChannelBinding :: "'n \<Rightarrow> bytes"

section \<open>static_key.go\<close>

definition noiseKeySize :: nat where [simp]: "noiseKeySize = 32"

record static_key =
  sk_private :: bytes
  sk_public :: bytes

text \<open>\<^verbatim>\<open>subtle.ConstantTimeCompare\<close>.\<close>

definition ConstantTimeCompare :: "bytes \<Rightarrow> bytes \<Rightarrow> int" where
  "ConstantTimeCompare x y = (if x = y then 1 else 0)"

text \<open>One \<^verbatim>\<open>Read\<close> into a buffer of \<open>n\<close> bytes: the remaining data, what was read, the error.\<close>

definition fixedReader_Read :: "bytes \<Rightarrow> nat \<Rightarrow> bytes \<times> bytes \<times> dg_error option" where
  "fixedReader_Read data n =
     (if length data = 0 then (data, [], Some EOF) else (drop n data, take n data, None))"

definition staticKeyFromPair :: "bytes \<times> bytes \<Rightarrow> static_key result" where
  "staticKeyFromPair pair =
     (if length (fst pair) \<noteq> noiseKeySize \<or> length (snd pair) \<noteq> noiseKeySize then Inl ErrHandshake
      else Inr \<lparr>sk_private = copy_at (replicate noiseKeySize 0) 0 (fst pair),
                sk_public = copy_at (replicate noiseKeySize 0) 0 (snd pair)\<rparr>)"

definition generateStaticKey :: "'n noise \<Rightarrow> bytes \<Rightarrow> static_key result" where
  "generateStaticKey N random =
     (case GenerateKeypair N random of Inl _ \<Rightarrow> Inl ErrHandshake | Inr pair \<Rightarrow> staticKeyFromPair pair)"

definition LoadStaticKey :: "'n noise \<Rightarrow> bytes \<Rightarrow> static_key result" where
  "LoadStaticKey N private =
     (if length private \<noteq> noiseKeySize then Inl ErrHandshake
      else case GenerateKeypair N ([] @ private) of
        Inl _ \<Rightarrow> Inl ErrHandshake
      | Inr pair \<Rightarrow> staticKeyFromPair pair)"

definition StaticKey_Public :: "static_key \<Rightarrow> bytes" where
  "StaticKey_Public k = [] @ sk_public k"

definition StaticKey_validate :: "'n noise \<Rightarrow> static_key \<Rightarrow> dg_error option" where
  "StaticKey_validate N k =
     (if sk_private k = replicate noiseKeySize 0 \<or> sk_public k = replicate noiseKeySize 0
      then Some ErrInvalidStaticKey
      else case LoadStaticKey N (sk_private k) of
        Inl _ \<Rightarrow> Some ErrInvalidStaticKey
      | Inr derived \<Rightarrow>
          if ConstantTimeCompare (sk_public derived) (sk_public k) \<noteq> 1 then Some ErrInvalidStaticKey
          else None)"

definition noiseKey :: "static_key \<Rightarrow> bytes \<times> bytes" where
  "noiseKey k = ([] @ sk_private k, [] @ sk_public k)"

section \<open>handshake.go\<close>

record handshake_result =
  res_SessionID :: bytes
  res_SendKey :: bytes
  res_ReceiveKey :: bytes
  res_PeerStatic :: bytes

datatype handshakeRole = roleInitiator | roleResponder

datatype handshakeStep =
  stepInitiatorWrite1 | stepInitiatorRead2 | stepInitiatorWrite3
| stepResponderRead1 | stepResponderWrite2 | stepResponderRead3
| stepComplete | stepFailed

record 'n handshake =
  hs_state :: "'n option"
  hs_role :: handshakeRole
  hs_step :: handshakeStep
  hs_expectedPeer :: bytes
  hs_result :: "handshake_result option"

definition newHandshake ::
  "'n noise \<Rightarrow> handshakeRole \<Rightarrow> static_key \<Rightarrow> bytes \<Rightarrow> bytes \<Rightarrow> bytes \<Rightarrow> 'n handshake result" where
  "newHandshake N role static expectedPeer random prologue =
     (case StaticKey_validate N static of
        Some err \<Rightarrow> Inl err
      | None \<Rightarrow>
          if length expectedPeer \<noteq> 0 \<and> length expectedPeer \<noteq> noiseKeySize then Inl ErrHandshake
          else case NewHandshakeState N random (role = roleInitiator) ([] @ prologue) (noiseKey static) of
            Inl _ \<Rightarrow> Inl ErrHandshake
          | Inr state \<Rightarrow>
              (let step = stepResponderRead1;
                   step = (if role = roleInitiator then stepInitiatorWrite1 else step)
               in Inr \<lparr>hs_state = Some state, hs_role = role, hs_step = step,
                       hs_expectedPeer = [] @ expectedPeer, hs_result = None\<rparr>))"

definition NewInitiatorHandshake :: "'n noise \<Rightarrow> bytes \<Rightarrow> static_key \<Rightarrow> bytes \<Rightarrow> 'n handshake result" where
  "NewInitiatorHandshake N random static expectedResponderStatic =
     newHandshake N roleInitiator static expectedResponderStatic random (str ''DGPv1'')"

definition NewResponderHandshake :: "'n noise \<Rightarrow> bytes \<Rightarrow> static_key \<Rightarrow> bytes \<Rightarrow> 'n handshake result" where
  "NewResponderHandshake N random static expectedInitiatorStatic =
     newHandshake N roleResponder static expectedInitiatorStatic random (str ''DGPv1'')"

definition transcriptSessionID :: "bytes \<Rightarrow> bytes" where
  "transcriptSessionID binding =
     copy_at (replicate 16 0) 0 (slice 0 16 (Sum256 (str ''DGPv1 SessionID'' @ binding)))"

definition Handshake_fail :: "'n handshake \<Rightarrow> 'n handshake \<times> dg_error" where
  "Handshake_fail h = (h\<lparr>hs_step := stepFailed, hs_state := None, hs_result := None\<rparr>, ErrHandshake)"

text \<open>A method that ends with \<^verbatim>\<open>return nil, h.fail()\<close> or \<^verbatim>\<open>return h.fail()\<close>.\<close>

definition fail_with :: "'n handshake \<Rightarrow> 'n handshake option \<times> 'a result" where
  "fail_with h = (case Handshake_fail h of (h, err) \<Rightarrow> (Some h, Inl err))"

definition complete :: "'n noise \<Rightarrow> 'n handshake \<Rightarrow> bytes \<Rightarrow> bytes \<Rightarrow> 'n handshake \<times> dg_error option" where
  "complete N h first second =
     (case hs_state h of
        None \<Rightarrow> (h, Some Panic)
      | Some state \<Rightarrow>
          (let peer = PeerStatic N state
           in if length peer \<noteq> noiseKeySize \<or>
                 (length (hs_expectedPeer h) \<noteq> 0 \<and> ConstantTimeCompare peer (hs_expectedPeer h) \<noteq> 1)
              then (h, Some ErrHandshake)
              else
                (let binding = ChannelBinding N state
                 in if length binding = 0 then (h, Some ErrHandshake)
                    else
                      (let result = \<lparr>res_SessionID = transcriptSessionID binding,
                                     res_SendKey = replicate KeySize 0, res_ReceiveKey = replicate KeySize 0,
                                     res_PeerStatic = copy_at (replicate noiseKeySize 0) 0 peer\<rparr>;
                           result = (if hs_role h = roleInitiator
                                     then result\<lparr>res_SendKey := copy_at (res_SendKey result) 0 first,
                                                 res_ReceiveKey := copy_at (res_ReceiveKey result) 0 second\<rparr>
                                     else result\<lparr>res_SendKey := copy_at (res_SendKey result) 0 second,
                                                 res_ReceiveKey := copy_at (res_ReceiveKey result) 0 first\<rparr>)
                       in (h\<lparr>hs_result := Some result, hs_step := stepComplete, hs_state := None\<rparr>, None)))))"

definition WriteFlight :: "'n noise \<Rightarrow> 'n handshake option \<Rightarrow> 'n handshake option \<times> bytes result" where
  "WriteFlight N hp =
     (case hp of
        None \<Rightarrow> (None, Inl ErrHandshake)
      | Some h \<Rightarrow>
          (case hs_state h of
             None \<Rightarrow> (Some h, Inl ErrHandshake)
           | Some state \<Rightarrow>
               (case hs_step h of
                  stepInitiatorWrite1 \<Rightarrow>
                    (case WriteMessage N state of
                       (state', Inl _) \<Rightarrow> fail_with (h\<lparr>hs_state := Some state'\<rparr>)
                     | (state', Inr (message, _, _)) \<Rightarrow>
                         (let h = h\<lparr>hs_state := Some state'\<rparr>
                          in if length message \<noteq> 32 then fail_with h
                             else
                               (let ephemeral = copy_at (replicate 32 0) 0 message
                                in case HandshakeInit_MarshalBinary
                                          \<lparr>hi_Pattern = NoisePatternXX, hi_ClientEphemeral = ephemeral,
                                           hi_NoisePayload = []\<rparr> of
                                     Inl _ \<Rightarrow> fail_with h
                                   | Inr wire \<Rightarrow> (Some (h\<lparr>hs_step := stepInitiatorRead2\<rparr>), Inr wire))))
                | stepResponderWrite2 \<Rightarrow>
                    (case WriteMessage N state of
                       (state', Inl _) \<Rightarrow> fail_with (h\<lparr>hs_state := Some state'\<rparr>)
                     | (state', Inr (message, _, _)) \<Rightarrow>
                         (let h = h\<lparr>hs_state := Some state'\<rparr>
                          in if length message \<noteq> 96 then fail_with h
                             else
                               (let ephemeral = copy_at (replicate 32 0) 0 (slice 0 32 message)
                                in case HandshakeResponse_MarshalBinary
                                          \<lparr>hr_ServerEphemeral = ephemeral, hr_NoisePayload = drop 32 message\<rparr> of
                                     Inl _ \<Rightarrow> fail_with h
                                   | Inr wire \<Rightarrow> (Some (h\<lparr>hs_step := stepResponderRead3\<rparr>), Inr wire))))
                | stepInitiatorWrite3 \<Rightarrow>
                    (case WriteMessage N state of
                       (state', Inl _) \<Rightarrow> fail_with (h\<lparr>hs_state := Some state'\<rparr>)
                     | (state', Inr (message, send', receive')) \<Rightarrow>
                         (let h = h\<lparr>hs_state := Some state'\<rparr>
                          in if length message \<noteq> 64 then fail_with h
                             else case (send', receive') of
                               (Some send', Some receive') \<Rightarrow>
                                 (case HandshakeFinish_MarshalBinary \<lparr>hf_NoisePayload = message\<rparr> of
                                    Inl _ \<Rightarrow> fail_with h
                                  | Inr wire \<Rightarrow>
                                      (case complete N h send' receive' of
                                         (h, Some _) \<Rightarrow> fail_with h
                                       | (h, None) \<Rightarrow> (Some h, Inr wire)))
                             | _ \<Rightarrow> fail_with h))
                | _ \<Rightarrow> (Some h, Inl ErrHandshake))))"

text \<open>The first switch of \<^verbatim>\<open>ReadFlight\<close>: the Noise message in the flight. \<open>None\<close> is the default
  case, \<open>Some (Inl _)\<close> a flight that is rejected.\<close>

definition flight_message :: "handshakeStep \<Rightarrow> bytes \<Rightarrow> bytes result option" where
  "flight_message step wire =
     (case step of
        stepResponderRead1 \<Rightarrow>
          Some (case HandshakeInit_UnmarshalBinary wire of
                  Inl err \<Rightarrow> Inl err
                | Inr flight \<Rightarrow>
                    if hi_Pattern flight \<noteq> NoisePatternXX then Inl ErrHandshake
                    else Inr ([] @ hi_ClientEphemeral flight))
      | stepInitiatorRead2 \<Rightarrow>
          Some (case HandshakeResponse_UnmarshalBinary wire of
                  Inl err \<Rightarrow> Inl err
                | Inr flight \<Rightarrow>
                    if length (hr_NoisePayload flight) \<noteq> 64 then Inl ErrHandshake
                    else Inr ([] @ hr_ServerEphemeral flight @ hr_NoisePayload flight))
      | stepResponderRead3 \<Rightarrow>
          Some (case HandshakeFinish_UnmarshalBinary wire of
                  Inl err \<Rightarrow> Inl err
                | Inr flight \<Rightarrow>
                    if length (hf_NoisePayload flight) \<noteq> 64 then Inl ErrHandshake
                    else Inr ([] @ hf_NoisePayload flight))
      | _ \<Rightarrow> None)"

definition ReadFlight :: "'n noise \<Rightarrow> 'n handshake option \<Rightarrow> bytes \<Rightarrow> 'n handshake option \<times> unit result" where
  "ReadFlight N hp wire =
     (case hp of
        None \<Rightarrow> (None, Inl ErrHandshake)
      | Some h \<Rightarrow>
          (case hs_state h of
             None \<Rightarrow> (Some h, Inl ErrHandshake)
           | Some state \<Rightarrow>
               (case flight_message (hs_step h) wire of
                  None \<Rightarrow> (Some h, Inl ErrHandshake)
                | Some (Inl _) \<Rightarrow> fail_with h
                | Some (Inr message) \<Rightarrow>
                    (case ReadMessage N state message of
                       (state', Inl _) \<Rightarrow> fail_with (h\<lparr>hs_state := Some state'\<rparr>)
                     | (state', Inr (send', receive')) \<Rightarrow>
                         (let h = h\<lparr>hs_state := Some state'\<rparr>
                          in case hs_step h of
                               stepResponderRead1 \<Rightarrow> (Some (h\<lparr>hs_step := stepResponderWrite2\<rparr>), Inr ())
                             | stepInitiatorRead2 \<Rightarrow> (Some (h\<lparr>hs_step := stepInitiatorWrite3\<rparr>), Inr ())
                             | stepResponderRead3 \<Rightarrow>
                                 (case (send', receive') of
                                    (Some send', Some receive') \<Rightarrow>
                                      (case complete N h send' receive' of
                                         (h, Some _) \<Rightarrow> fail_with h
                                       | (h, None) \<Rightarrow> (Some h, Inr ()))
                                  | _ \<Rightarrow> fail_with h)
                             | _ \<Rightarrow> (Some h, Inr ()))))))"

definition Handshake_Complete :: "'n handshake option \<Rightarrow> bool" where
  "Handshake_Complete hp \<longleftrightarrow> (case hp of None \<Rightarrow> False | Some h \<Rightarrow> hs_step h = stepComplete)"

definition Handshake_Result :: "'n handshake option \<Rightarrow> handshake_result result" where
  "Handshake_Result hp =
     (case hp of
        None \<Rightarrow> Inl ErrHandshake
      | Some h \<Rightarrow>
          if \<not> Handshake_Complete hp then Inl ErrHandshake
          else case hs_result h of None \<Rightarrow> Inl ErrHandshake | Some r \<Rightarrow> Inr r)"

section \<open>Sessions from handshakes, session.go\<close>

definition Secrets :: "handshake_result \<Rightarrow> handshake_secrets" where
  "Secrets r = \<lparr>hs_SessionID = res_SessionID r, hs_SendKey = res_SendKey r, hs_ReceiveKey = res_ReceiveKey r\<rparr>"

definition NewSessionFromHandshake :: "'c aead \<Rightarrow> clock \<Rightarrow> u8 \<Rightarrow> handshake_result \<Rightarrow> 'c session result" where
  "NewSessionFromHandshake A now suite' result = NewSession A now suite' (Secrets result)"

end
