(* ===== verification/Handshake_Properties.thy ===== *)
theory Handshake_Properties
  imports Handshake
begin

text \<open>
  Correctness of the handshake: the state machine invariant, the order of flights, the pin, and the
  agreement of the two sides on identities, session identifier and traffic keys, up to paired
  sessions.
\<close>

section \<open>What is relied upon of Noise\<close>

text \<open>X25519 key generation reads 32 bytes, which are the private key.\<close>

definition keypair_ok :: "'n noise \<Rightarrow> bool" where
  "keypair_ok N \<longleftrightarrow>
     (\<forall>r. length r = 32 \<longrightarrow> (\<exists>pub. GenerateKeypair N r = Inr (r, pub) \<and> length pub = 32))"

text \<open>The XX pattern with empty payloads: messages of 32, 96 and 64 bytes; when each is delivered
  unmodified, both sides split into the same two keys in the same order (initiator to
  responder first), know the peer's static key, and have the same channel binding.\<close>

definition xx_run :: "'n noise \<Rightarrow> 'n \<Rightarrow> 'n \<Rightarrow> bytes \<Rightarrow> bytes \<Rightarrow> bool" where
  "xx_run N i0 r0 pubI pubR \<longleftrightarrow>
     (\<exists>i1 m1 r1 r2 m2 i2 i3 m3 k1 k2 r3.
        WriteMessage N i0 = (i1, Inr (m1, None, None)) \<and> length m1 = 32
      \<and> ReadMessage N r0 m1 = (r1, Inr (None, None))
      \<and> WriteMessage N r1 = (r2, Inr (m2, None, None)) \<and> length m2 = 96
      \<and> ReadMessage N i1 m2 = (i2, Inr (None, None))
      \<and> WriteMessage N i2 = (i3, Inr (m3, Some k1, Some k2)) \<and> length m3 = 64
      \<and> ReadMessage N r2 m3 = (r3, Inr (Some k1, Some k2)) \<and> length k1 = 32 \<and> length k2 = 32
      \<and> PeerStatic N i3 = pubR \<and> PeerStatic N r3 = pubI
      \<and> ChannelBinding N i3 = ChannelBinding N r3 \<and> ChannelBinding N i3 \<noteq> [])"

definition noise_xx_ok :: "'n noise \<Rightarrow> bool" where
  "noise_xx_ok N \<longleftrightarrow> keypair_ok N \<and>
     (\<forall>ri rr prologue ki kr i0 r0.
        32 \<le> length ri \<and> 32 \<le> length rr
        \<and> GenerateKeypair N (fst ki) = Inr ki \<and> GenerateKeypair N (fst kr) = Inr kr
        \<and> length (snd ki) = 32 \<and> length (snd kr) = 32
        \<and> NewHandshakeState N ri True prologue ki = Inr i0 \<and> NewHandshakeState N rr False prologue kr = Inr r0
        \<longrightarrow> xx_run N i0 r0 (snd ki) (snd kr))"

lemma noise_keypair: "noise_xx_ok N \<Longrightarrow> keypair_ok N"
  by (simp add: noise_xx_ok_def)

text \<open>A concrete exchange that satisfies the contract: it sends keys in the clear and splits into
  the two ephemeral keys.\<close>

record plain_state =
  pl_initiator :: bool
  pl_static :: "bytes \<times> bytes"
  pl_e :: bytes
  pl_re :: bytes
  pl_rs :: bytes
  pl_turn :: nat

definition plain_write :: "plain_state \<Rightarrow> plain_state \<times> (bytes \<times> bytes option \<times> bytes option) result" where
  "plain_write s =
     (let s' = s\<lparr>pl_turn := pl_turn s + 1\<rparr>
      in if pl_initiator s \<and> pl_turn s = 0 then (s', Inr (pl_e s, None, None))
         else if \<not> pl_initiator s \<and> pl_turn s = 1
           then (s', Inr (pl_e s @ snd (pl_static s) @ replicate 32 0, None, None))
         else if pl_initiator s \<and> pl_turn s = 2
           then (s', Inr (snd (pl_static s) @ replicate 32 0, Some (pl_e s), Some (pl_re s)))
         else (s, Inl (ErrExternal 1)))"

definition plain_read :: "plain_state \<Rightarrow> bytes \<Rightarrow> plain_state \<times> (bytes option \<times> bytes option) result" where
  "plain_read s m =
     (let s' = s\<lparr>pl_turn := pl_turn s + 1\<rparr>
      in if \<not> pl_initiator s \<and> pl_turn s = 0 then (s'\<lparr>pl_re := m\<rparr>, Inr (None, None))
         else if pl_initiator s \<and> pl_turn s = 1
           then (s'\<lparr>pl_re := take 32 m, pl_rs := slice 32 64 m\<rparr>, Inr (None, None))
         else if \<not> pl_initiator s \<and> pl_turn s = 2
           then (s'\<lparr>pl_rs := take 32 m\<rparr>, Inr (Some (pl_re s), Some (pl_e s)))
         else (s, Inl (ErrExternal 1)))"

definition plain_noise :: "plain_state noise" where
  "plain_noise =
     \<lparr>GenerateKeypair = (\<lambda>r. if length r < 32 then Inl ErrUnexpectedEOF
                            else Inr (take 32 r, map (\<lambda>b. b XOR 255) (take 32 r))),
      NewHandshakeState = (\<lambda>r initiator prologue static.
        Inr \<lparr>pl_initiator = initiator, pl_static = static, pl_e = take 32 r, pl_re = [], pl_rs = [], pl_turn = 0\<rparr>),
      WriteMessage = plain_write,
      ReadMessage = plain_read,
      PeerStatic = pl_rs,
      ChannelBinding = (\<lambda>s. if pl_initiator s then pl_e s else pl_re s)\<rparr>"

lemma plain_noise_ok: "noise_xx_ok plain_noise"
  unfolding noise_xx_ok_def keypair_ok_def xx_run_def
  by (auto simp: plain_noise_def plain_write_def plain_read_def Let_def slice_def)

section \<open>Static keys\<close>

definition wf_static_key :: "static_key \<Rightarrow> bool" where
  [wf_defs]: "wf_static_key k \<longleftrightarrow> length (sk_private k) = 32 \<and> length (sk_public k) = 32"

lemma copy_at_full: "length src = n \<Longrightarrow> copy_at (replicate n 0) 0 src = src"
  by (simp add: copy_at_def)

lemma LoadStaticKey_eq:
  assumes "keypair_ok N"
  shows "LoadStaticKey N priv = Inr k \<longleftrightarrow>
    length priv = 32 \<and> sk_private k = priv \<and> length (sk_public k) = 32 \<and> GenerateKeypair N priv = Inr (priv, sk_public k)"
proof (cases "length priv = 32")
  case True
  then obtain pub where "GenerateKeypair N priv = Inr (priv, pub)" "length pub = 32"
    using assms by (auto simp: keypair_ok_def)
  then show ?thesis using True by (cases k) (auto simp: LoadStaticKey_def staticKeyFromPair_def copy_at_full)
qed (simp add: LoadStaticKey_def)

lemma StaticKey_validate_None:
  assumes "keypair_ok N" and "wf_static_key k"
  shows "StaticKey_validate N k = None \<longleftrightarrow>
    sk_private k \<noteq> replicate 32 0 \<and> sk_public k \<noteq> replicate 32 0
    \<and> GenerateKeypair N (sk_private k) = Inr (sk_private k, sk_public k)"
proof -
  obtain pub where "GenerateKeypair N (sk_private k) = Inr (sk_private k, pub)" "length pub = 32"
    using assms by (auto simp: keypair_ok_def wf_defs)
  moreover have "length (sk_private k) = 32" using assms(2) by (simp add: wf_defs)
  ultimately have "LoadStaticKey N (sk_private k) = Inr \<lparr>sk_private = sk_private k, sk_public = pub\<rparr>"
    using LoadStaticKey_eq [OF assms(1)] by simp
  then show ?thesis using \<open>GenerateKeypair _ _ = _\<close>
    by (auto simp: StaticKey_validate_def ConstantTimeCompare_def)
qed

text \<open>Reading a \<^verbatim>\<open>fixedReader\<close> to the end in reads of any positive sizes delivers its data.\<close>

fun drain :: "bytes \<Rightarrow> nat list \<Rightarrow> bytes" where
  "drain data [] = []"
| "drain data (n # ns) = (case fixedReader_Read data n of (rest, got, _) \<Rightarrow> got @ drain rest ns)"

lemma drain_prefix: "drain data ns = take (sum_list ns) data"
  by (induction ns arbitrary: data) (auto simp: fixedReader_Read_def take_add)

section \<open>The state machine\<close>

datatype flight = Write | Read

text \<open>The flights a step still has to go through.\<close>

fun remaining :: "handshakeStep \<Rightarrow> flight list" where
  "remaining stepInitiatorWrite1 = [Write, Read, Write]"
| "remaining stepInitiatorRead2 = [Read, Write]"
| "remaining stepInitiatorWrite3 = [Write]"
| "remaining stepResponderRead1 = [Read, Write, Read]"
| "remaining stepResponderWrite2 = [Write, Read]"
| "remaining stepResponderRead3 = [Read]"
| "remaining stepComplete = []"
| "remaining stepFailed = []"

fun flights :: "handshakeRole \<Rightarrow> flight list" where
  "flights roleInitiator = [Write, Read, Write]"
| "flights roleResponder = [Read, Write, Read]"

definition result_ok :: "bytes \<Rightarrow> handshake_result \<Rightarrow> bool" where
  "result_ok pin r \<longleftrightarrow> wf_secrets (Secrets r) \<and> length (res_PeerStatic r) = 32
     \<and> (pin \<noteq> [] \<longrightarrow> res_PeerStatic r = pin)"

definition handshake_ok :: "'n handshake \<Rightarrow> bool" where
  "handshake_ok h \<longleftrightarrow>
     (hs_state h = None \<longleftrightarrow> remaining (hs_step h) = [])
     \<and> (hs_result h = None \<longleftrightarrow> hs_step h \<noteq> stepComplete)
     \<and> (\<exists>before. remaining (hs_step h) \<noteq> [] \<longrightarrow> flights (hs_role h) = before @ remaining (hs_step h))
     \<and> (\<forall>r. hs_result h = Some r \<longrightarrow> result_ok (hs_expectedPeer h) r)"

datatype handshake_op = WriteOp | ReadOp bytes

fun flight_of :: "handshake_op \<Rightarrow> flight" where
  "flight_of WriteOp = Write"
| "flight_of (ReadOp _) = Read"

definition handshake_step :: "'n noise \<Rightarrow> handshake_op \<Rightarrow> 'n handshake \<Rightarrow> 'n handshake \<times> bool" where
  "handshake_step N op h =
     (case op of
        WriteOp \<Rightarrow> (case WriteFlight N (Some h) of (h', r) \<Rightarrow> (the h', r \<noteq> Inl ErrHandshake))
      | ReadOp wire \<Rightarrow> (case ReadFlight N (Some h) wire of (h', r) \<Rightarrow> (the h', r \<noteq> Inl ErrHandshake)))"

lemma fail_with_eq [simp]:
  "fail_with h = (Some (h\<lparr>hs_step := stepFailed, hs_state := None, hs_result := None\<rparr>), Inl ErrHandshake)"
  by (simp add: fail_with_def Handshake_fail_def)

lemma length_transcriptSessionID [simp]: "length (transcriptSessionID b) = 16"
  by (simp add: transcriptSessionID_def)

lemma complete_None:
  assumes "complete N h k1 k2 = (h', None)"
  shows "\<exists>r. h' = h\<lparr>hs_result := Some r, hs_step := stepComplete, hs_state := None\<rparr> \<and> result_ok (hs_expectedPeer h) r"
  using assms
  by (auto simp: complete_def result_ok_def wf_secrets_def Secrets_def Let_def ConstantTimeCompare_def copy_at_full
      split: option.splits if_splits)

lemma complete_Some: "complete N h k1 k2 = (h', Some e) \<Longrightarrow> h' = h"
  by (auto simp: complete_def Let_def split: option.splits if_splits)

text \<open>How a call can end: refused because it is not its turn, failed, advanced, or completed.\<close>

definition failed_from :: "'n handshake \<Rightarrow> 'n handshake \<Rightarrow> bool" where
  "failed_from h h' \<longleftrightarrow> hs_step h' = stepFailed \<and> hs_state h' = None \<and> hs_result h' = None
     \<and> hs_role h' = hs_role h \<and> hs_expectedPeer h' = hs_expectedPeer h"

definition advanced_from :: "flight \<Rightarrow> 'n handshake \<Rightarrow> 'n handshake \<Rightarrow> bool" where
  "advanced_from d h h' \<longleftrightarrow> remaining (hs_step h) = d # remaining (hs_step h') \<and> hs_step h' \<noteq> stepFailed
     \<and> hs_role h' = hs_role h \<and> hs_expectedPeer h' = hs_expectedPeer h
     \<and> (if hs_step h' = stepComplete
        then hs_state h' = None \<and> (\<exists>r. hs_result h' = Some r \<and> result_ok (hs_expectedPeer h) r)
        else hs_state h' \<noteq> None \<and> hs_result h' = hs_result h)"

lemma advanced_from_step:
  "st \<noteq> stepComplete \<Longrightarrow> advanced_from d h (h\<lparr>hs_state := Some s, hs_step := st\<rparr>) \<longleftrightarrow>
     remaining (hs_step h) = d # remaining st \<and> st \<noteq> stepFailed"
  by (auto simp: advanced_from_def)

lemma failed_from_reset:
  "failed_from h (h\<lparr>hs_step := stepFailed, hs_state := None, hs_result := None\<rparr>)"
  by (simp add: failed_from_def)

lemma WriteFlight_cases:
  obtains (refused) "WriteFlight N (Some h) = (Some h, Inl ErrHandshake)"
      "hs_state h = None \<or> (\<forall>ds. remaining (hs_step h) \<noteq> Write # ds)"
    | (failed) h' where "WriteFlight N (Some h) = (Some h', Inl ErrHandshake)" "failed_from h h'"
      "\<exists>ds. remaining (hs_step h) = Write # ds" "hs_state h \<noteq> None"
    | (advanced) h' wire where "WriteFlight N (Some h) = (Some h', Inr wire)" "advanced_from Write h h'"
      "hs_state h \<noteq> None"
proof (cases "hs_state h")
  case None
  then show ?thesis using that(1) by (simp add: WriteFlight_def)
next
  case (Some s)
  obtain s' r where w: "WriteMessage N s = (s', r)" by fastforce
  show ?thesis
  proof (cases "hs_step h = stepInitiatorWrite3")
    case True
    show ?thesis
    proof (cases "\<exists>m k1 k2 wire h'. r = Inr (m, Some k1, Some k2) \<and> length m = 64
        \<and> HandshakeFinish_MarshalBinary \<lparr>hf_NoisePayload = m\<rparr> = Inr wire
        \<and> complete N (h\<lparr>hs_state := Some s'\<rparr>) k1 k2 = (h', None)")
      case True
      then obtain m k1 k2 wire h' where t: "r = Inr (m, Some k1, Some k2)" "length m = 64"
        "HandshakeFinish_MarshalBinary \<lparr>hf_NoisePayload = m\<rparr> = Inr wire"
        "complete N (h\<lparr>hs_state := Some s'\<rparr>) k1 k2 = (h', None)" by blast
      then have "advanced_from Write h h'" using complete_None [OF t(4)] \<open>hs_step h = _\<close>
        by (auto simp: advanced_from_def)
      then show ?thesis using that(3) Some w t \<open>hs_step h = _\<close> by (simp add: WriteFlight_def)
    next
      case False
      then have "\<exists>h'. WriteFlight N (Some h) = (Some h', Inl ErrHandshake) \<and> failed_from h h'"
        using Some w True
        by (auto simp: WriteFlight_def failed_from_def Let_def
            split: sum.splits prod.splits option.splits dest: complete_Some)
      then show ?thesis using that(2) True Some by auto
    qed
  next
    case False
    have "(WriteFlight N (Some h) = (Some h, Inl ErrHandshake) \<and> (\<forall>ds. remaining (hs_step h) \<noteq> Write # ds))
      \<or> ((\<exists>h'. WriteFlight N (Some h) = (Some h', Inl ErrHandshake) \<and> failed_from h h')
          \<and> (\<exists>ds. remaining (hs_step h) = Write # ds))
      \<or> (\<exists>h' wire. WriteFlight N (Some h) = (Some h', Inr wire) \<and> advanced_from Write h h')"
      using Some w False
      by (cases "hs_step h"; cases r)
        (auto simp: WriteFlight_def failed_from_reset advanced_from_step Let_def split: sum.splits)
    then show ?thesis using that Some by blast
  qed
qed

lemma ReadFlight_cases:
  obtains (refused) "ReadFlight N (Some h) wire = (Some h, Inl ErrHandshake)"
      "hs_state h = None \<or> (\<forall>ds. remaining (hs_step h) \<noteq> Read # ds)"
    | (failed) h' where "ReadFlight N (Some h) wire = (Some h', Inl ErrHandshake)" "failed_from h h'"
      "\<exists>ds. remaining (hs_step h) = Read # ds" "hs_state h \<noteq> None"
    | (advanced) h' where "ReadFlight N (Some h) wire = (Some h', Inr ())" "advanced_from Read h h'"
      "hs_state h \<noteq> None"
proof (cases "hs_state h")
  case None
  then show ?thesis using that(1) by (simp add: ReadFlight_def)
next
  case (Some s)
  have turn: "flight_message (hs_step h) wire = None \<longleftrightarrow> (\<forall>ds. remaining (hs_step h) \<noteq> Read # ds)"
    by (cases "hs_step h") (auto simp: flight_message_def)
  consider (out) "flight_message (hs_step h) wire = None" "\<forall>ds. remaining (hs_step h) \<noteq> Read # ds"
    | (bad) e where "flight_message (hs_step h) wire = Some (Inl e)" "\<exists>ds. remaining (hs_step h) = Read # ds"
    | (good) m where "flight_message (hs_step h) wire = Some (Inr m)" "\<exists>ds. remaining (hs_step h) = Read # ds"
    using turn by (metis option.exhaust sum.exhaust)
  then show ?thesis
  proof cases
    case out
    then show ?thesis using that(1) Some by (simp add: ReadFlight_def)
  next
    case bad
    then show ?thesis using that(2) [OF _ failed_from_reset [of h]] Some by (simp add: ReadFlight_def)
  next
    case good
    obtain s' r where r: "ReadMessage N s m = (s', r)" by fastforce
    show ?thesis
    proof (cases "hs_step h = stepResponderRead3")
      case True
      show ?thesis
      proof (cases "\<exists>k1 k2 h'. r = Inr (Some k1, Some k2) \<and> complete N (h\<lparr>hs_state := Some s'\<rparr>) k1 k2 = (h', None)")
        case True
        then obtain k1 k2 h' where t: "r = Inr (Some k1, Some k2)"
          "complete N (h\<lparr>hs_state := Some s'\<rparr>) k1 k2 = (h', None)" by blast
        then have "advanced_from Read h h'" using complete_None [OF t(2)] \<open>hs_step h = _\<close>
          by (auto simp: advanced_from_def)
        then show ?thesis using that(3) Some good r t \<open>hs_step h = _\<close> by (simp add: ReadFlight_def)
      next
        case False
        then have "\<exists>h'. ReadFlight N (Some h) wire = (Some h', Inl ErrHandshake) \<and> failed_from h h'"
          using Some good r True
          by (auto simp: ReadFlight_def failed_from_def Let_def
              split: sum.splits prod.splits option.splits dest: complete_Some)
        then show ?thesis using that(2) True Some by auto
      qed
    next
      case False
      have "(\<exists>h'. ReadFlight N (Some h) wire = (Some h', Inl ErrHandshake) \<and> failed_from h h')
        \<or> (\<exists>h'. ReadFlight N (Some h) wire = (Some h', Inr ()) \<and> advanced_from Read h h')"
        using Some good r False
        by (cases "hs_step h"; cases r)
          (auto simp: ReadFlight_def failed_from_reset advanced_from_step Let_def)
      then show ?thesis using that Some good(2) by blast
    qed
  qed
qed

lemma handshake_step_cases:
  obtains (refused) "handshake_step N op h = (h, False)"
      "hs_state h = None \<or> (\<forall>ds. remaining (hs_step h) \<noteq> flight_of op # ds)"
    | (failed) h' where "handshake_step N op h = (h', False)" "failed_from h h'"
      "\<exists>ds. remaining (hs_step h) = flight_of op # ds" "hs_state h \<noteq> None"
    | (advanced) h' where "handshake_step N op h = (h', True)" "advanced_from (flight_of op) h h'" "hs_state h \<noteq> None"
proof (cases op)
  case WriteOp
  show ?thesis by (cases rule: WriteFlight_cases [of N h]) (auto simp: handshake_step_def WriteOp intro: that)
next
  case (ReadOp wire)
  show ?thesis by (cases rule: ReadFlight_cases [of N h wire]) (auto simp: handshake_step_def ReadOp intro: that)
qed

definition handshake_start :: "'n noise \<Rightarrow> 'n handshake \<Rightarrow> bool" where
  "handshake_start N h \<longleftrightarrow>
     (\<exists>role static pin random prologue. newHandshake N role static pin random prologue = Inr h)"

definition handshake_next :: "'n noise \<Rightarrow> 'n handshake \<Rightarrow> 'n handshake \<Rightarrow> bool" where
  "handshake_next N h h' \<longleftrightarrow> (\<exists>op. h' = fst (handshake_step N op h))"

lemma newHandshake_Inr:
  assumes "newHandshake N role static pin random prologue = Inr h"
  obtains n where "StaticKey_validate N static = None" "pin = [] \<or> length pin = 32"
    "NewHandshakeState N random (role = roleInitiator) prologue (sk_private static, sk_public static) = Inr n"
    "h = \<lparr>hs_state = Some n, hs_role = role,
          hs_step = (if role = roleInitiator then stepInitiatorWrite1 else stepResponderRead1),
          hs_expectedPeer = pin, hs_result = None\<rparr>"
  using assms by (auto simp: newHandshake_def noiseKey_def split: option.splits if_splits sum.splits)

lemma newHandshake_ok: "newHandshake N role static pin random prologue = Inr h \<Longrightarrow> handshake_ok h"
  by (erule newHandshake_Inr, cases role) (auto simp: handshake_ok_def)

lemma handshake_step_ok:
  assumes "handshake_ok h"
  shows "handshake_ok (fst (handshake_step N op h))"
proof (cases rule: handshake_step_cases [of N op h])
  case (failed h')
  then show ?thesis by (simp add: handshake_ok_def failed_from_def)
next
  case (advanced h')
  obtain before where "flights (hs_role h) = before @ remaining (hs_step h)"
    using assms advanced(2) by (auto simp: handshake_ok_def advanced_from_def)
  then have "\<exists>before. flights (hs_role h') = before @ remaining (hs_step h')"
    using advanced(2) by (intro exI [of _ "before @ [flight_of op]"]) (simp add: advanced_from_def)
  moreover have "hs_result h = None" "hs_step h' \<noteq> stepFailed"
    using assms advanced(2) by (auto simp: handshake_ok_def advanced_from_def)
  moreover have "hs_step h' \<noteq> stepComplete \<Longrightarrow> remaining (hs_step h') \<noteq> []"
    using calculation(3) by (cases "hs_step h'") auto
  ultimately show ?thesis
    using advanced(1,2) unfolding handshake_ok_def advanced_from_def by (auto split: if_splits)
qed (simp add: assms)

interpretation handshake_machine:
  invariant_machine "handshake_start N" "handshake_next N" handshake_ok
  by unfold_locales (auto simp: handshake_start_def handshake_next_def newHandshake_ok handshake_step_ok)

fun handshake_run :: "'n noise \<Rightarrow> handshake_op list \<Rightarrow> 'n handshake \<Rightarrow> 'n handshake" where
  "handshake_run N [] h = h"
| "handshake_run N (op # ops) h = handshake_run N ops (fst (handshake_step N op h))"

text \<open>The flights that succeeded in a run.\<close>

fun successes :: "'n noise \<Rightarrow> handshake_op list \<Rightarrow> 'n handshake \<Rightarrow> flight list" where
  "successes N [] h = []"
| "successes N (op # ops) h =
     (case handshake_step N op h of (h', ok) \<Rightarrow> (if ok then [flight_of op] else []) @ successes N ops h')"

lemma handshake_run_reach:
  "reach (handshake_start N) (handshake_next N) h \<Longrightarrow> reach (handshake_start N) (handshake_next N) (handshake_run N ops h)"
  by (induction ops arbitrary: h) (simp, metis handshake_next_def handshake_run.simps(2) reach_step)

lemma handshake_run_ok:
  assumes "newHandshake N role static pin random prologue = Inr h"
  shows "handshake_ok (handshake_run N ops h)"
proof -
  have "reach (handshake_start N) (handshake_next N) h"
    using assms unfolding handshake_start_def by (intro reach_start exI)
  then show ?thesis by (rule handshake_machine.reach_inv [OF handshake_run_reach])
qed

lemma handshake_run_pin: "hs_expectedPeer (handshake_run N ops h) = hs_expectedPeer h"
proof (induction ops arbitrary: h)
  case (Cons op ops)
  have "hs_expectedPeer (fst (handshake_step N op h)) = hs_expectedPeer h"
    by (cases rule: handshake_step_cases [of N op h]) (auto simp: failed_from_def advanced_from_def)
  then show ?case using Cons by simp
qed simp

lemma finished_stays:
  assumes "hs_state h = None"
  shows "handshake_run N ops h = h \<and> successes N ops h = []"
proof (induction ops)
  case (Cons op ops)
  have "handshake_step N op h = (h, False)"
    using assms by (cases rule: handshake_step_cases [of N op h]) auto
  then show ?case using Cons by simp
qed simp

lemma successes_prefix:
  assumes "handshake_ok h" and "hs_step h \<noteq> stepFailed"
  shows "\<exists>rest. remaining (hs_step h) = successes N ops h @ rest
    \<and> (hs_step (handshake_run N ops h) = stepComplete \<longleftrightarrow> rest = [])"
  using assms
proof (induction ops arbitrary: h)
  case Nil
  then show ?case by (cases "hs_step h") auto
next
  case (Cons op ops)
  show ?case
  proof (cases rule: handshake_step_cases [of N op h])
    case refused
    then show ?thesis using Cons by simp
  next
    case (failed h')
    then have "handshake_run N ops h' = h'" "successes N ops h' = []" "hs_step h' = stepFailed"
      using finished_stays [of h' N ops] by (simp_all add: failed_from_def)
    then show ?thesis using failed(1,3) by auto
  next
    case (advanced h')
    have "handshake_ok h'" using handshake_step_ok [OF Cons.prems(1), of N op] advanced(1) by simp
    then obtain rest where "remaining (hs_step h') = successes N ops h' @ rest"
      "hs_step (handshake_run N ops h') = stepComplete \<longleftrightarrow> rest = []"
      using Cons.IH [of h'] advanced(2) by (auto simp: advanced_from_def)
    then show ?thesis using advanced(1,2) by (auto simp: advanced_from_def)
  qed
qed

section \<open>The flights of an undisturbed run\<close>

lemma flight1_write:
  assumes "hs_state h = Some n" and "hs_step h = stepInitiatorWrite1"
    and "WriteMessage N n = (n', Inr (m, a, b))" and "length m = 32"
  shows "WriteFlight N (Some h) = (Some (h\<lparr>hs_state := Some n', hs_step := stepInitiatorRead2\<rparr>), Inr ([1, 0, 0, 0] @ m))"
proof -
  have "copy_at ((replicate 36 0)[0 := 1]) 4 m = [1, 0, 0, 0] @ m"
    using assms(4) by (simp add: copy_at_def numeral_eq_Suc)
  then show ?thesis
    using assms by (simp add: WriteFlight_def Let_def HandshakeInit_MarshalBinary_def MaxHandshakePayloadSize_def copy_at_full)
qed

lemma flight1_read:
  assumes "hs_state h = Some n" and "hs_step h = stepResponderRead1"
    and "ReadMessage N n m = (n', Inr (a, b))" and "length m = 32"
  shows "ReadFlight N (Some h) ([1, 0, 0, 0] @ m) = (Some (h\<lparr>hs_state := Some n', hs_step := stepResponderWrite2\<rparr>), Inr ())"
  using assms
  by (simp add: ReadFlight_def Let_def flight_message_def HandshakeInit_UnmarshalBinary_def MaxHandshakePayloadSize_def slice_def)

lemma flight2_write:
  assumes "hs_state h = Some n" and "hs_step h = stepResponderWrite2"
    and "WriteMessage N n = (n', Inr (m, a, b))" and "length m = 96"
  shows "WriteFlight N (Some h) = (Some (h\<lparr>hs_state := Some n', hs_step := stepResponderRead3\<rparr>), Inr m)"
  using assms
  by (simp add: WriteFlight_def Let_def HandshakeResponse_MarshalBinary_def copy_at_def slice_def)

lemma flight2_read:
  assumes "hs_state h = Some n" and "hs_step h = stepInitiatorRead2"
    and "ReadMessage N n m = (n', Inr (a, b))" and "length m = 96"
  shows "ReadFlight N (Some h) m = (Some (h\<lparr>hs_state := Some n', hs_step := stepInitiatorWrite3\<rparr>), Inr ())"
  using assms
  by (simp add: ReadFlight_def Let_def flight_message_def HandshakeResponse_UnmarshalBinary_def slice_def)

text \<open>The result of a side whose Noise state ends in \<open>n\<close> with the split keys \<open>k1\<close> and \<open>k2\<close>.\<close>

definition side_result :: "'n noise \<Rightarrow> handshakeRole \<Rightarrow> 'n \<Rightarrow> bytes \<Rightarrow> bytes \<Rightarrow> handshake_result" where
  "side_result N role n k1 k2 =
     \<lparr>res_SessionID = transcriptSessionID (ChannelBinding N n),
      res_SendKey = (if role = roleInitiator then k1 else k2),
      res_ReceiveKey = (if role = roleInitiator then k2 else k1), res_PeerStatic = PeerStatic N n\<rparr>"

lemma complete_eq:
  assumes "hs_state h = Some n" and "length k1 = 32" and "length k2 = 32" and "length (PeerStatic N n) = 32"
    and "ChannelBinding N n \<noteq> []"
  shows "complete N h k1 k2 =
    (if hs_expectedPeer h \<noteq> [] \<and> hs_expectedPeer h \<noteq> PeerStatic N n then (h, Some ErrHandshake)
     else (h\<lparr>hs_result := Some (side_result N (hs_role h) n k1 k2), hs_step := stepComplete, hs_state := None\<rparr>, None))"
  using assms by (auto simp: complete_def Let_def ConstantTimeCompare_def side_result_def copy_at_full)

lemma flight3_write:
  assumes "hs_state h = Some n" and "hs_step h = stepInitiatorWrite3" and "hs_role h = roleInitiator"
    and "WriteMessage N n = (n', Inr (m, Some k1, Some k2))" and "length m = 64" and "length k1 = 32"
    and "length k2 = 32" and "length (PeerStatic N n') = 32" and "ChannelBinding N n' \<noteq> []"
  shows "WriteFlight N (Some h) =
    (if hs_expectedPeer h \<noteq> [] \<and> hs_expectedPeer h \<noteq> PeerStatic N n'
     then (Some (h\<lparr>hs_step := stepFailed, hs_state := None, hs_result := None\<rparr>), Inl ErrHandshake)
     else (Some (h\<lparr>hs_result := Some (side_result N roleInitiator n' k1 k2), hs_step := stepComplete, hs_state := None\<rparr>), Inr m))"
  using assms complete_eq [of "h\<lparr>hs_state := Some n'\<rparr>" n' k1 k2 N]
  by (auto simp: WriteFlight_def Let_def HandshakeFinish_MarshalBinary_def)

lemma flight3_read:
  assumes "hs_state h = Some n" and "hs_step h = stepResponderRead3" and "hs_role h = roleResponder"
    and "ReadMessage N n m = (n', Inr (Some k1, Some k2))" and "length m = 64" and "length k1 = 32"
    and "length k2 = 32" and "length (PeerStatic N n') = 32" and "ChannelBinding N n' \<noteq> []"
  shows "ReadFlight N (Some h) m =
    (if hs_expectedPeer h \<noteq> [] \<and> hs_expectedPeer h \<noteq> PeerStatic N n'
     then (Some (h\<lparr>hs_step := stepFailed, hs_state := None, hs_result := None\<rparr>), Inl ErrHandshake)
     else (Some (h\<lparr>hs_result := Some (side_result N roleResponder n' k1 k2), hs_step := stepComplete, hs_state := None\<rparr>), Inr ()))"
  using assms complete_eq [of "h\<lparr>hs_state := Some n'\<rparr>" n' k1 k2 N]
  by (auto simp: ReadFlight_def Let_def flight_message_def HandshakeFinish_UnmarshalBinary_def)

text \<open>Both state machines with the flights delivered as they were written.\<close>

definition exchange ::
  "'n noise \<Rightarrow> 'n handshake \<Rightarrow> 'n handshake \<Rightarrow> (handshake_result \<times> handshake_result) result" where
  "exchange N i0 r0 =
     (case WriteFlight N (Some i0) of
        (_, Inl err) \<Rightarrow> Inl err
      | (i, Inr flight1) \<Rightarrow>
          (case ReadFlight N (Some r0) flight1 of
             (_, Inl err) \<Rightarrow> Inl err
           | (r, Inr _) \<Rightarrow>
               (case WriteFlight N r of
                  (_, Inl err) \<Rightarrow> Inl err
                | (r, Inr flight2) \<Rightarrow>
                    (case ReadFlight N i flight2 of
                       (_, Inl err) \<Rightarrow> Inl err
                     | (i, Inr _) \<Rightarrow>
                         (case WriteFlight N i of
                            (_, Inl err) \<Rightarrow> Inl err
                          | (i, Inr flight3) \<Rightarrow>
                              (case ReadFlight N r flight3 of
                                 (_, Inl err) \<Rightarrow> Inl err
                               | (r, Inr _) \<Rightarrow>
                                   (case (Handshake_Result i, Handshake_Result r) of
                                      (Inr ri, Inr rr) \<Rightarrow> Inr (ri, rr)
                                    | _ \<Rightarrow> Inl ErrHandshake)))))))"

text \<open>Two sides set up with each other's key and matching prologue, ready to run.\<close>

definition handshake_pair ::
  "'n noise \<Rightarrow> static_key \<Rightarrow> bytes \<Rightarrow> 'n handshake \<Rightarrow> static_key \<Rightarrow> bytes \<Rightarrow> 'n handshake \<Rightarrow> bool" where
  "handshake_pair N ki pinR i0 kr pinI r0 \<longleftrightarrow>
     noise_xx_ok N \<and> wf_static_key ki \<and> wf_static_key kr
     \<and> (\<exists>ri. 32 \<le> length ri \<and> NewInitiatorHandshake N ri ki pinR = Inr i0)
     \<and> (\<exists>rr. 32 \<le> length rr \<and> NewResponderHandshake N rr kr pinI = Inr r0)"

lemma handshake_pair_run:
  assumes "handshake_pair N ki pinR i0 kr pinI r0"
  obtains n m where "i0 = \<lparr>hs_state = Some n, hs_role = roleInitiator, hs_step = stepInitiatorWrite1,
      hs_expectedPeer = pinR, hs_result = None\<rparr>"
    "r0 = \<lparr>hs_state = Some m, hs_role = roleResponder, hs_step = stepResponderRead1,
      hs_expectedPeer = pinI, hs_result = None\<rparr>"
    "xx_run N n m (sk_public ki) (sk_public kr)" "length (sk_public ki) = 32" "length (sk_public kr) = 32"
proof -
  from assms obtain ri rr where N: "noise_xx_ok N" and wf: "wf_static_key ki" "wf_static_key kr"
    and len: "32 \<le> length ri" "32 \<le> length rr"
    and i: "newHandshake N roleInitiator ki pinR ri (str ''DGPv1'') = Inr i0"
    and r: "newHandshake N roleResponder kr pinI rr (str ''DGPv1'') = Inr r0"
    by (auto simp: handshake_pair_def NewInitiatorHandshake_def NewResponderHandshake_def)
  have kp: "keypair_ok N" using N by (rule noise_keypair)
  obtain n where n: "StaticKey_validate N ki = None"
    "NewHandshakeState N ri True (str ''DGPv1'') (sk_private ki, sk_public ki) = Inr n"
    "i0 = \<lparr>hs_state = Some n, hs_role = roleInitiator, hs_step = stepInitiatorWrite1,
      hs_expectedPeer = pinR, hs_result = None\<rparr>" using i by (elim newHandshake_Inr) simp
  obtain m where m: "StaticKey_validate N kr = None"
    "NewHandshakeState N rr False (str ''DGPv1'') (sk_private kr, sk_public kr) = Inr m"
    "r0 = \<lparr>hs_state = Some m, hs_role = roleResponder, hs_step = stepResponderRead1,
      hs_expectedPeer = pinI, hs_result = None\<rparr>" using r by (elim newHandshake_Inr) simp
  have "GenerateKeypair N (sk_private ki) = Inr (sk_private ki, sk_public ki)"
    "GenerateKeypair N (sk_private kr) = Inr (sk_private kr, sk_public kr)"
    using n(1) m(1) StaticKey_validate_None [OF kp] wf by auto
  then have "xx_run N n m (sk_public ki) (sk_public kr)"
    using N len n(2) m(2) wf unfolding noise_xx_ok_def wf_static_key_def by fastforce
  then show ?thesis using that n(3) m(3) wf by (simp add: wf_defs)
qed

text \<open>The run of a pair, flight by flight.\<close>

definition pair_flights ::
  "'n noise \<Rightarrow> static_key \<Rightarrow> bytes \<Rightarrow> 'n handshake \<Rightarrow> static_key \<Rightarrow> bytes \<Rightarrow> 'n handshake \<Rightarrow>
   bytes \<Rightarrow> bytes \<Rightarrow> bytes \<Rightarrow> handshake_result \<Rightarrow> handshake_result \<Rightarrow> bool" where
  "pair_flights N ki pinR i0 kr pinI r0 m1 m2 m3 rI rR \<longleftrightarrow>
     (\<exists>i1 r1 r2 i2.
        WriteFlight N (Some i0) = (Some i1, Inr ([1, 0, 0, 0] @ m1))
      \<and> ReadFlight N (Some r0) ([1, 0, 0, 0] @ m1) = (Some r1, Inr ())
      \<and> WriteFlight N (Some r1) = (Some r2, Inr m2)
      \<and> ReadFlight N (Some i1) m2 = (Some i2, Inr ())
      \<and> (if pinR = [] \<or> pinR = sk_public kr
         then \<exists>i3. WriteFlight N (Some i2) = (Some i3, Inr m3) \<and> Handshake_Result (Some i3) = Inr rI
         else \<exists>i3. WriteFlight N (Some i2) = (Some i3, Inl ErrHandshake))
      \<and> (if pinI = [] \<or> pinI = sk_public ki
         then \<exists>r3. ReadFlight N (Some r2) m3 = (Some r3, Inr ()) \<and> Handshake_Result (Some r3) = Inr rR
         else \<exists>r3. ReadFlight N (Some r2) m3 = (Some r3, Inl ErrHandshake)))"

definition crossed :: "static_key \<Rightarrow> static_key \<Rightarrow> handshake_result \<Rightarrow> handshake_result \<Rightarrow> bool" where
  "crossed ki kr rI rR \<longleftrightarrow>
     res_SessionID rI = res_SessionID rR \<and> res_SendKey rI = res_ReceiveKey rR \<and> res_ReceiveKey rI = res_SendKey rR
     \<and> res_PeerStatic rI = sk_public kr \<and> res_PeerStatic rR = sk_public ki
     \<and> wf_secrets (Secrets rI) \<and> wf_secrets (Secrets rR)"

lemma handshake_pair_flights:
  assumes "handshake_pair N ki pinR i0 kr pinI r0"
  obtains m1 m2 m3 rI rR where "length m1 = 32" "length m2 = 96" "length m3 = 64"
    "pair_flights N ki pinR i0 kr pinI r0 m1 m2 m3 rI rR" "crossed ki kr rI rR"
proof -
  obtain n m where i0: "i0 = \<lparr>hs_state = Some n, hs_role = roleInitiator, hs_step = stepInitiatorWrite1,
      hs_expectedPeer = pinR, hs_result = None\<rparr>"
    and r0: "r0 = \<lparr>hs_state = Some m, hs_role = roleResponder, hs_step = stepResponderRead1,
      hs_expectedPeer = pinI, hs_result = None\<rparr>"
    and run: "xx_run N n m (sk_public ki) (sk_public kr)"
    and pub: "length (sk_public ki) = 32" "length (sk_public kr) = 32"
    using handshake_pair_run [OF assms] by blast
  from run obtain n1 m1 a1 a2 m2 n2 n3 m3 k1 k2 a3 where
      x: "WriteMessage N n = (n1, Inr (m1, None, None))" "length m1 = 32" "ReadMessage N m m1 = (a1, Inr (None, None))"
      "WriteMessage N a1 = (a2, Inr (m2, None, None))" "length m2 = 96" "ReadMessage N n1 m2 = (n2, Inr (None, None))"
      "WriteMessage N n2 = (n3, Inr (m3, Some k1, Some k2))" "length m3 = 64"
      "ReadMessage N a2 m3 = (a3, Inr (Some k1, Some k2))" "length k1 = 32" "length k2 = 32"
      "PeerStatic N n3 = sk_public kr" "PeerStatic N a3 = sk_public ki"
      "ChannelBinding N n3 = ChannelBinding N a3" "ChannelBinding N n3 \<noteq> []"
    unfolding xx_run_def by blast
  let ?i1 = "i0\<lparr>hs_state := Some n1, hs_step := stepInitiatorRead2\<rparr>"
  let ?i2 = "?i1\<lparr>hs_state := Some n2, hs_step := stepInitiatorWrite3\<rparr>"
  let ?r1 = "r0\<lparr>hs_state := Some a1, hs_step := stepResponderWrite2\<rparr>"
  let ?r2 = "?r1\<lparr>hs_state := Some a2, hs_step := stepResponderRead3\<rparr>"
  let ?rI = "side_result N roleInitiator n3 k1 k2" and ?rR = "side_result N roleResponder a3 k1 k2"
  have w3: "WriteFlight N (Some ?i2) =
    (if pinR \<noteq> [] \<and> pinR \<noteq> sk_public kr
     then (Some (?i2\<lparr>hs_step := stepFailed, hs_state := None, hs_result := None\<rparr>), Inl ErrHandshake)
     else (Some (?i2\<lparr>hs_result := Some ?rI, hs_step := stepComplete, hs_state := None\<rparr>), Inr m3))"
    using flight3_write [of ?i2 n2 N n3 m3 k1 k2] x i0 pub by simp
  have r3: "ReadFlight N (Some ?r2) m3 =
    (if pinI \<noteq> [] \<and> pinI \<noteq> sk_public ki
     then (Some (?r2\<lparr>hs_step := stepFailed, hs_state := None, hs_result := None\<rparr>), Inl ErrHandshake)
     else (Some (?r2\<lparr>hs_result := Some ?rR, hs_step := stepComplete, hs_state := None\<rparr>), Inr ()))"
    using flight3_read [of ?r2 a2 N m3 a3 k1 k2] x r0 pub by simp
  have w1: "WriteFlight N (Some i0) = (Some ?i1, Inr ([1, 0, 0, 0] @ m1))"
    by (rule flight1_write [OF _ _ x(1,2)]) (simp_all add: i0)
  have r1: "ReadFlight N (Some r0) ([1, 0, 0, 0] @ m1) = (Some ?r1, Inr ())"
    by (rule flight1_read [OF _ _ x(3,2)]) (simp_all add: r0)
  have w2: "WriteFlight N (Some ?r1) = (Some ?r2, Inr m2)"
    by (rule flight2_write [OF _ _ x(4,5)]) (simp_all add: r0)
  have r2: "ReadFlight N (Some ?i1) m2 = (Some ?i2, Inr ())"
    by (rule flight2_read [OF _ _ x(6,5)]) (simp_all add: i0)
  have "pair_flights N ki pinR i0 kr pinI r0 m1 m2 m3 ?rI ?rR"
    unfolding pair_flights_def
    by (rule exI [of _ ?i1], rule exI [of _ ?r1], rule exI [of _ ?r2], rule exI [of _ ?i2])
      (use w1 r1 w2 r2 w3 r3 in \<open>simp add: Handshake_Result_def Handshake_Complete_def\<close>)
  moreover have "crossed ki kr ?rI ?rR"
    using x by (simp add: crossed_def side_result_def wf_secrets_def Secrets_def)
  ultimately show ?thesis using that x(2,5,8) by blast
qed

lemma NewSession_paired:
  assumes A: "aead_ok A" and wf: "wf_secrets h" "wf_secrets h'" and id: "hs_SessionID h \<noteq> replicate 16 0"
    and same: "hs_SessionID h' = hs_SessionID h" "hs_SendKey h' = hs_ReceiveKey h" "hs_ReceiveKey h' = hs_SendKey h"
  shows "\<exists>a b. NewSession A now 1 h = Inr a \<and> NewSession A now' 1 h' = Inr b \<and> paired A a b \<and> paired A b a"
proof -
  obtain c d where cd: "aead_New A (hs_SendKey h) = Inr c" "aead_New A (hs_ReceiveKey h) = Inr d"
    using aead_okD(1) [OF A] wf by (metis wf_secrets_def)
  show ?thesis
    using wf id same cd tracks_zero_window
    by (auto simp: NewSession_def NewCodec_def wf_secrets_def paired_def send_ok_def receive_ok_def grace_ok_def intro!: exI [of _ "{}"])
qed

section \<open>Properties\<close>

text \<open>C8: the two sides of a handshake agree. When an initiator and a responder, each unpinned or
  pinned to the other's public key, run the three flights undisturbed, both complete; each has
  authenticated the other's static key, the session identifiers are equal and the traffic keys are
  crossed over; and the sessions opened from the results can deliver to each other in both
  directions, unless the hash gave the identifier zero, which both sides refuse.\<close>

theorem handshake_agreement:
  assumes "handshake_pair N ki pinR i0 kr pinI r0"
    and "pinR = [] \<or> pinR = StaticKey_Public kr" and "pinI = [] \<or> pinI = StaticKey_Public ki"
    and "aead_ok A"
  shows "\<exists>rI rR. exchange N i0 r0 = Inr (rI, rR)
    \<and> res_PeerStatic rI = StaticKey_Public kr \<and> res_PeerStatic rR = StaticKey_Public ki
    \<and> res_SessionID rI = res_SessionID rR
    \<and> res_SendKey rI = res_ReceiveKey rR \<and> res_ReceiveKey rI = res_SendKey rR
    \<and> (if res_SessionID rI = replicate 16 0
       then NewSessionFromHandshake A now CipherChaCha20Poly1305 rI = Inl ErrInvalidSessionID
         \<and> NewSessionFromHandshake A now' CipherChaCha20Poly1305 rR = Inl ErrInvalidSessionID
       else \<exists>a b. NewSessionFromHandshake A now CipherChaCha20Poly1305 rI = Inr a
         \<and> NewSessionFromHandshake A now' CipherChaCha20Poly1305 rR = Inr b \<and> paired A a b \<and> paired A b a)"
proof -
  obtain m1 m2 m3 rI rR where f: "pair_flights N ki pinR i0 kr pinI r0 m1 m2 m3 rI rR" and res: "crossed ki kr rI rR"
    by (rule handshake_pair_flights [OF assms(1)], rule that)
  then obtain i1 r1 r2 i2 i3 r3 where
    "WriteFlight N (Some i0) = (Some i1, Inr ([1, 0, 0, 0] @ m1))"
    "ReadFlight N (Some r0) ([1, 0, 0, 0] @ m1) = (Some r1, Inr ())"
    "WriteFlight N (Some r1) = (Some r2, Inr m2)" "ReadFlight N (Some i1) m2 = (Some i2, Inr ())"
    "WriteFlight N (Some i2) = (Some i3, Inr m3)" "Handshake_Result (Some i3) = Inr rI"
    "ReadFlight N (Some r2) m3 = (Some r3, Inr ())" "Handshake_Result (Some r3) = Inr rR"
    using assms(2,3) unfolding pair_flights_def StaticKey_Public_def append_Nil by metis
  then have "exchange N i0 r0 = Inr (rI, rR)"
    by (simp add: exchange_def)
  moreover have "\<exists>a b. NewSessionFromHandshake A now CipherChaCha20Poly1305 rI = Inr a
           \<and> NewSessionFromHandshake A now' CipherChaCha20Poly1305 rR = Inr b \<and> paired A a b \<and> paired A b a"
    if "res_SessionID rI \<noteq> replicate 16 0"
    unfolding NewSessionFromHandshake_def CipherChaCha20Poly1305_def
    by (rule NewSession_paired [OF assms(4)]) (use that res in \<open>simp_all add: Secrets_def crossed_def wf_secrets_def\<close>)
  moreover have "NewSessionFromHandshake A t CipherChaCha20Poly1305 r = Inl ErrInvalidSessionID"
    if "res_SessionID r = replicate 16 0" for r t
    using that by (simp add: NewSessionFromHandshake_def NewSession_def Secrets_def)
  ultimately show ?thesis using res unfolding StaticKey_Public_def crossed_def append_Nil by metis
qed

definition sample_key :: "byte \<Rightarrow> static_key" where
  "sample_key b = \<lparr>sk_private = replicate 32 b, sk_public = replicate 32 (b XOR 255)\<rparr>"

definition sample_initiator :: "bytes \<Rightarrow> plain_state handshake" where
  "sample_initiator pin = \<lparr>hs_state = Some \<lparr>pl_initiator = True, pl_static = noiseKey (sample_key 1),
       pl_e = replicate 32 7, pl_re = [], pl_rs = [], pl_turn = 0\<rparr>,
     hs_role = roleInitiator, hs_step = stepInitiatorWrite1, hs_expectedPeer = pin, hs_result = None\<rparr>"

definition sample_responder :: "plain_state handshake" where
  "sample_responder = \<lparr>hs_state = Some \<lparr>pl_initiator = False, pl_static = noiseKey (sample_key 2),
       pl_e = replicate 32 9, pl_re = [], pl_rs = [], pl_turn = 0\<rparr>,
     hs_role = roleResponder, hs_step = stepResponderRead1, hs_expectedPeer = [], hs_result = None\<rparr>"

lemma sample_key_valid:
  assumes "b \<noteq> 0" and "b \<noteq> 255"
  shows "wf_static_key (sample_key b)" and "StaticKey_validate plain_noise (sample_key b) = None"
proof -
  show wf: "wf_static_key (sample_key b)" by (simp add: wf_defs sample_key_def)
  have "b XOR 255 \<noteq> 0"
  proof
    assume "b XOR 255 = 0"
    then have "(b XOR 255) XOR 255 = 255" by simp
    then show False using assms(2) by (simp only: xor.assoc xor_self_eq xor.right_neutral)
  qed
  moreover have "replicate 32 x \<noteq> replicate 32 0" if "x \<noteq> (0 :: byte)" for x
    using that by (metis nth_replicate zero_less_numeral)
  ultimately have "sk_private (sample_key b) \<noteq> replicate 32 0" "sk_public (sample_key b) \<noteq> replicate 32 0"
    using assms(1) by (simp_all only: sample_key_def static_key.simps) blast+
  moreover have "GenerateKeypair plain_noise (sk_private (sample_key b)) = Inr (sk_private (sample_key b), sk_public (sample_key b))"
    by (simp add: plain_noise_def sample_key_def)
  ultimately show "StaticKey_validate plain_noise (sample_key b) = None"
    by (simp add: StaticKey_validate_None [OF noise_keypair [OF plain_noise_ok] wf])
qed

lemma sample_new:
  assumes "pin = [] \<or> length pin = 32"
  shows "NewInitiatorHandshake plain_noise (replicate 32 7) (sample_key 1) pin = Inr (sample_initiator pin)"
    and "NewResponderHandshake plain_noise (replicate 32 9) (sample_key 2) [] = Inr sample_responder"
  using assms sample_key_valid(2) [of 1] sample_key_valid(2) [of 2]
  by (auto simp: NewInitiatorHandshake_def NewResponderHandshake_def newHandshake_def sample_initiator_def
      sample_responder_def plain_noise_def)

lemma sample_pair:
  assumes "pin = [] \<or> length pin = 32"
  shows "handshake_pair plain_noise (sample_key 1) pin (sample_initiator pin) (sample_key 2) [] sample_responder"
  unfolding handshake_pair_def
proof (intro conjI)
  show "\<exists>ri. 32 \<le> length ri \<and> NewInitiatorHandshake plain_noise ri (sample_key 1) pin = Inr (sample_initiator pin)"
    using sample_new(1) [OF assms] by (intro exI [of _ "replicate 32 7"]) simp
  show "\<exists>rr. 32 \<le> length rr \<and> NewResponderHandshake plain_noise rr (sample_key 2) [] = Inr sample_responder"
    using sample_new(2) [OF assms] by (intro exI [of _ "replicate 32 9"]) simp
qed (simp_all add: sample_key_valid plain_noise_ok)

theorem handshake_agreement_witness:
  "\<exists>rI rR. exchange plain_noise (sample_initiator (StaticKey_Public (sample_key 2))) sample_responder = Inr (rI, rR)
     \<and> res_SessionID rI = res_SessionID rR \<and> res_SendKey rI = res_ReceiveKey rR"
proof -
  have pin: "length (StaticKey_Public (sample_key 2)) = 32" by (simp add: StaticKey_Public_def sample_key_def)
  show ?thesis using handshake_agreement [OF sample_pair [OF disjI2 [OF pin]] _ _ mac_aead_ok] by blast
qed

text \<open>C9: no result without the pinned peer. Whatever calls are made on a handshake and whatever bytes
  they are given, its result is available exactly when it is complete, and then the
  peer's static key has 32 bytes and equals the pin if there is one.\<close>

theorem handshake_pinned:
  assumes "newHandshake N role static pin random prologue = Inr h" and "h' = handshake_run N ops h"
  shows "(Handshake_Complete (Some h') \<longleftrightarrow> (\<exists>r. Handshake_Result (Some h') = Inr r))
    \<and> (\<forall>r. Handshake_Result (Some h') = Inr r \<longrightarrow>
         length (res_PeerStatic r) = 32 \<and> length (res_SessionID r) = 16 \<and> (pin \<noteq> [] \<longrightarrow> res_PeerStatic r = pin))"
proof -
  have "handshake_ok h'" using handshake_run_ok [OF assms(1)] assms(2) by simp
  moreover have "hs_expectedPeer h' = pin"
    using assms by (auto simp: handshake_run_pin elim: newHandshake_Inr)
  ultimately show ?thesis
    by (auto simp: handshake_ok_def Handshake_Complete_def Handshake_Result_def result_ok_def wf_secrets_def Secrets_def
        split: option.splits)
qed

theorem handshake_pinned_witness:
  "\<exists>flight2 r. Handshake_Result (Some (handshake_run plain_noise [WriteOp, ReadOp flight2, WriteOp]
       (sample_initiator (StaticKey_Public (sample_key 2))))) = Inr r
     \<and> res_PeerStatic r = StaticKey_Public (sample_key 2)"
proof -
  let ?pin = "StaticKey_Public (sample_key 2)"
  have pin: "length ?pin = 32" by (simp add: StaticKey_Public_def sample_key_def)
  obtain m1 m2 m3 rI rR where "pair_flights plain_noise (sample_key 1) ?pin (sample_initiator ?pin) (sample_key 2) []
      sample_responder m1 m2 m3 rI rR"
    by (rule handshake_pair_flights [OF sample_pair [OF disjI2 [OF pin]]], rule that)
  then obtain i1 i2 i3 where i: "WriteFlight plain_noise (Some (sample_initiator ?pin)) = (Some i1, Inr ([1, 0, 0, 0] @ m1))"
    "ReadFlight plain_noise (Some i1) m2 = (Some i2, Inr ())" "WriteFlight plain_noise (Some i2) = (Some i3, Inr m3)"
    "Handshake_Result (Some i3) = Inr rI"
    unfolding pair_flights_def StaticKey_Public_def append_Nil by metis
  then have run: "handshake_run plain_noise [WriteOp, ReadOp m2, WriteOp] (sample_initiator ?pin) = i3"
    by (simp add: handshake_step_def)
  have "?pin \<noteq> []" using pin by auto
  then have "res_PeerStatic rI = ?pin"
    using handshake_pinned [OF sample_new(1) [OF disjI2 [OF pin], unfolded NewInitiatorHandshake_def]
        run [symmetric]] i(4) by blast
  then show ?thesis using run i(4) by blast
qed

text \<open>C37: the flights happen once and in order. In any run the calls that succeed are an initial segment
  of write, read, write for an initiator and of read, write, read for a responder, and the handshake is
  complete exactly when that sequence is exhausted.\<close>

theorem handshake_flight_order:
  assumes "newHandshake N role static pin random prologue = Inr h"
  shows "\<exists>rest. flights role = successes N ops h @ rest
    \<and> (Handshake_Complete (Some (handshake_run N ops h)) \<longleftrightarrow> rest = [])"
proof -
  have "remaining (hs_step h) = flights role" "hs_step h \<noteq> stepFailed"
    using assms by (auto elim!: newHandshake_Inr; cases role; auto)+
  then show ?thesis using successes_prefix [OF newHandshake_ok [OF assms], of N ops] by (auto simp: Handshake_Complete_def)
qed

theorem handshake_flight_order_witness:
  "\<exists>rest. flights roleInitiator = successes plain_noise [WriteOp, WriteOp] (sample_initiator []) @ rest \<and> rest \<noteq> []"
proof -
  let ?ok = "successes plain_noise [WriteOp, WriteOp] (sample_initiator [])"
  obtain rest where rest: "flights roleInitiator = ?ok @ rest"
    using handshake_flight_order [OF sample_new(1) [unfolded NewInitiatorHandshake_def], of "[]" "[WriteOp, WriteOp]"] by blast
  have "length ?ok \<le> 2" by (simp split: prod.splits)
  then have "rest \<noteq> []" using arg_cong [OF rest, of length] by auto
  then show ?thesis using rest by blast
qed

text \<open>C38: errors of the handshake. Every failing call returns \<^verbatim>\<open>ErrHandshake\<close>. A call out of turn, or on
  a finished handshake, changes nothing; a call in turn that fails leaves no Noise state and no
  result, and then every further call fails too.\<close>

theorem handshake_errors:
  assumes "handshake_step N op h = (h', False)"
  shows "(h' = h \<and> (hs_state h = None \<or> (\<forall>ds. remaining (hs_step h) \<noteq> flight_of op # ds)))
    \<or> (hs_state h' = None \<and> hs_result h' = None \<and> hs_step h' = stepFailed
       \<and> handshake_run N ops h' = h' \<and> successes N ops h' = []
       \<and> Handshake_Result (Some h') = Inl ErrHandshake)"
  using assms finished_stays [of h' N ops]
  by (cases rule: handshake_step_cases [of N op h])
    (auto simp: failed_from_def Handshake_Result_def Handshake_Complete_def)

theorem handshake_errors_witness:
  "handshake_step plain_noise (ReadOp [1]) sample_responder =
     (sample_responder\<lparr>hs_step := stepFailed, hs_state := None, hs_result := None\<rparr>, False)
   \<and> successes plain_noise [WriteOp] (sample_responder\<lparr>hs_step := stepFailed, hs_state := None, hs_result := None\<rparr>) = []"
proof -
  let ?h = "sample_responder\<lparr>hs_step := stepFailed, hs_state := None, hs_result := None\<rparr>"
  have "handshake_step plain_noise (ReadOp [1]) sample_responder = (?h, False)"
    by (simp add: handshake_step_def ReadFlight_def sample_responder_def flight_message_def HandshakeInit_UnmarshalBinary_def)
  moreover have "?h \<noteq> sample_responder" by (simp add: sample_responder_def)
  ultimately show ?thesis using handshake_errors [of plain_noise "ReadOp [1]" sample_responder ?h "[WriteOp]"] by simp
qed

text \<open>A static key passes validation exactly when neither half is zero and loading its private half
  gives the key back; loading accepts exactly 32 bytes and keeps them as the private half.\<close>

theorem static_key_validation:
  assumes "keypair_ok N" and "wf_static_key k"
  shows "(StaticKey_validate N k = None \<longleftrightarrow>
      sk_private k \<noteq> replicate 32 0 \<and> sk_public k \<noteq> replicate 32 0 \<and> LoadStaticKey N (sk_private k) = Inr k)
    \<and> (\<forall>priv. (\<exists>k'. LoadStaticKey N priv = Inr k') \<longleftrightarrow> length priv = 32)
    \<and> (\<forall>priv k'. LoadStaticKey N priv = Inr k' \<longrightarrow> sk_private k' = priv \<and> wf_static_key k')"
proof (intro conjI)
  show "StaticKey_validate N k = None \<longleftrightarrow>
      sk_private k \<noteq> replicate 32 0 \<and> sk_public k \<noteq> replicate 32 0 \<and> LoadStaticKey N (sk_private k) = Inr k"
    using assms by (auto simp: StaticKey_validate_None LoadStaticKey_eq wf_defs)
  show "\<forall>priv. (\<exists>k'. LoadStaticKey N priv = Inr k') \<longleftrightarrow> length priv = 32"
  proof (intro allI iffI)
    fix priv :: bytes
    assume len: "length priv = 32"
    then obtain pub where "GenerateKeypair N priv = Inr (priv, pub)" "length pub = 32"
      using assms(1) by (auto simp: keypair_ok_def)
    then show "\<exists>k'. LoadStaticKey N priv = Inr k'"
      using len LoadStaticKey_eq [OF assms(1), of priv "\<lparr>sk_private = priv, sk_public = pub\<rparr>"] by auto
  qed (auto simp: LoadStaticKey_eq [OF assms(1)])
  show "\<forall>priv k'. LoadStaticKey N priv = Inr k' \<longrightarrow> sk_private k' = priv \<and> wf_static_key k'"
    using LoadStaticKey_eq [OF assms(1)] by (auto simp: wf_defs)
qed

theorem static_key_validation_witness:
  "LoadStaticKey plain_noise (replicate 32 1) = Inr (sample_key 1)"
proof -
  have "keypair_ok plain_noise" using plain_noise_ok by (rule noise_keypair)
  then show ?thesis
    using static_key_validation [of plain_noise "sample_key 1"] sample_key_valid [of 1] by (simp add: sample_key_def)
qed

end
