(* ===== verification/Config.thy ===== *)
theory Config
  imports Handshake_Properties
begin

text \<open>
  The configuration records of \<^verbatim>\<open>connection.go\<close>, \<^verbatim>\<open>client_config.go\<close> and \<^verbatim>\<open>server_config.go\<close> and the
  functions that check them and fill in defaults.

  A \<^verbatim>\<open>time.Duration\<close> is a number of nanoseconds; where the code adds or doubles durations the
  result is taken through \<open>int64\<close>, so that an overflow would show. A Go \<^verbatim>\<open>int\<close> is an \<open>int\<close>.
  A callback field is whether it is set: what a callback does is part of the environment.
\<close>

section \<open>Durations\<close>

definition MaxInt64 :: int where "MaxInt64 = 9223372036854775807"

text \<open>The value of a 64-bit signed computation.\<close>

definition int64 :: "int \<Rightarrow> int" where
  "int64 x = (x + 9223372036854775808) mod 18446744073709551616 - 9223372036854775808"

definition is_int64 :: "int \<Rightarrow> bool" where
  "is_int64 x \<longleftrightarrow> - 9223372036854775808 \<le> x \<and> x \<le> MaxInt64"

lemma int64_id: "is_int64 x \<Longrightarrow> int64 x = x"
  by (simp add: is_int64_def int64_def MaxInt64_def mod_pos_pos_trivial)

definition Millisecond :: time where "Millisecond = 1000000"
definition Second :: time where "Second = 1000000000"

definition defaultKeepaliveTimeout :: "time \<Rightarrow> time \<times> bool" where
  "defaultKeepaliveTimeout interval =
     (if interval > MaxInt64 div 2 then (MaxInt64, False) else (int64 (2 * interval), True))"

lemma defaultKeepaliveTimeout_eq:
  assumes "0 < interval"
  shows "defaultKeepaliveTimeout interval =
    (if interval \<le> 4611686018427387903 then (2 * interval, True) else (MaxInt64, False))"
proof -
  have "is_int64 (2 * interval)" if "interval \<le> 4611686018427387903"
    using assms that by (simp add: is_int64_def MaxInt64_def)
  then show ?thesis by (simp add: defaultKeepaliveTimeout_def int64_id) (simp add: MaxInt64_def)
qed

section \<open>Configuration records\<close>

record connection_config =
  cc_OutboundQueue :: int
  cc_HandlerQueue :: int
  cc_HandshakeTimeout :: time
  cc_ReadTimeout :: time
  cc_WriteTimeout :: time
  cc_IdleTimeout :: time
  cc_KeepaliveInterval :: time
  cc_KeepaliveTimeout :: time
  cc_Handler :: bool
  cc_HandlerShutdownTimeout :: time

record client_config =
  cl_StaticKey :: static_key
  cl_ServerStatic :: bytes
  cl_Connection :: connection_config

record server_config =
  sc_StaticKey :: static_key
  sc_AllowedClients :: "bytes list"
  sc_CipherSuite :: u8
  sc_HandshakeTimeout :: time
  sc_ReadTimeout :: time
  sc_WriteTimeout :: time
  sc_IdleTimeout :: time
  sc_KeepaliveInterval :: time
  sc_KeepaliveTimeout :: time
  sc_OutboundQueue :: int
  sc_HandlerQueue :: int
  sc_MaxConcurrentHandshakes :: int
  sc_MaxActiveConnections :: int
  sc_Handler :: bool
  sc_HandlerShutdownTimeout :: time
  sc_Admission :: bool
  sc_OnDisconnect :: bool

definition wf_connection_config :: "connection_config \<Rightarrow> bool" where
  [wf_defs]: "wf_connection_config c \<longleftrightarrow>
     is_int64 (cc_OutboundQueue c) \<and> is_int64 (cc_HandlerQueue c) \<and> is_int64 (cc_HandshakeTimeout c)
     \<and> is_int64 (cc_ReadTimeout c) \<and> is_int64 (cc_WriteTimeout c) \<and> is_int64 (cc_IdleTimeout c)
     \<and> is_int64 (cc_KeepaliveInterval c) \<and> is_int64 (cc_KeepaliveTimeout c) \<and> is_int64 (cc_HandlerShutdownTimeout c)"

definition wf_server_config :: "server_config \<Rightarrow> bool" where
  [wf_defs]: "wf_server_config c \<longleftrightarrow>
     wf_static_key (sc_StaticKey c) \<and> is_int64 (sc_HandshakeTimeout c) \<and> is_int64 (sc_ReadTimeout c)
     \<and> is_int64 (sc_WriteTimeout c) \<and> is_int64 (sc_IdleTimeout c) \<and> is_int64 (sc_KeepaliveInterval c)
     \<and> is_int64 (sc_KeepaliveTimeout c)"

section \<open>client_config.go\<close>

definition fillClientKeepalive :: "connection_config \<Rightarrow> connection_config result" where
  "fillClientKeepalive c =
     (if cc_KeepaliveInterval c > 0 \<and> cc_KeepaliveTimeout c = 0
      then (case defaultKeepaliveTimeout (cc_KeepaliveInterval c) of
              (timeout, ok) \<Rightarrow>
                if \<not> ok then Inl ErrInvalidClientConfig else Inr (c\<lparr>cc_KeepaliveTimeout := timeout\<rparr>))
      else Inr c)"

definition checkClientWindow :: "connection_config \<Rightarrow> dg_error option" where
  "checkClientWindow c =
     (if cc_KeepaliveTimeout c > MaxInt64 - cc_KeepaliveInterval c then Some ErrInvalidClientConfig
      else
        (let window = max (cc_IdleTimeout c) (int64 (cc_KeepaliveInterval c + cc_KeepaliveTimeout c))
         in if cc_ReadTimeout c > 0 \<and> cc_ReadTimeout c < window then Some ErrInvalidClientConfig else None))"

definition negative_setting :: "connection_config \<Rightarrow> bool" where
  "negative_setting c \<longleftrightarrow>
     cc_HandshakeTimeout c < 0 \<or> cc_ReadTimeout c < 0 \<or> cc_WriteTimeout c < 0 \<or> cc_IdleTimeout c < 0
     \<or> cc_KeepaliveInterval c < 0 \<or> cc_KeepaliveTimeout c < 0 \<or> cc_HandlerShutdownTimeout c < 0
     \<or> cc_OutboundQueue c < 0 \<or> cc_HandlerQueue c < 0"

definition normalizeClientConfig :: "'n noise \<Rightarrow> client_config \<Rightarrow> client_config result" where
  "normalizeClientConfig N config =
     (case StaticKey_validate N (cl_StaticKey config) of
        Some err \<Rightarrow> Inl err
      | None \<Rightarrow>
          if length (cl_ServerStatic config) \<noteq> noiseKeySize \<or> allZero (cl_ServerStatic config)
          then Inl ErrInvalidClientConfig
          else
            (let c = cl_Connection config
             in if negative_setting c then Inl ErrInvalidClientConfig
                else
                  (let c = (if cc_HandshakeTimeout c = 0 then c\<lparr>cc_HandshakeTimeout := 10 * Second\<rparr> else c)
                   in case fillClientKeepalive c of
                        Inl err \<Rightarrow> Inl err
                      | Inr c \<Rightarrow>
                          (case checkClientWindow c of
                             Some err \<Rightarrow> Inl err
                           | None \<Rightarrow>
                               Inr (config\<lparr>cl_Connection := c, cl_ServerStatic := [] @ cl_ServerStatic config\<rparr>)))))"

section \<open>server_config.go\<close>

text \<open>\<^verbatim>\<open>NewServer\<close> up to the construction of the server: the configuration it will hold, or the error.\<close>

definition fillKeepaliveTimeout :: "server_config \<Rightarrow> server_config result" where
  "fillKeepaliveTimeout config =
     (if sc_KeepaliveInterval config > 0 \<and> sc_KeepaliveTimeout config = 0
      then (case defaultKeepaliveTimeout (sc_KeepaliveInterval config) of
              (timeout, representable) \<Rightarrow>
                if \<not> representable then Inl (ErrText ''dgproto: KeepaliveInterval is too large'')
                else Inr (config\<lparr>sc_KeepaliveTimeout := timeout\<rparr>))
      else Inr config)"

definition checkLiveness :: "server_config \<Rightarrow> server_config result" where
  "checkLiveness config =
     (if sc_KeepaliveInterval config > 0 \<and> sc_KeepaliveTimeout config > MaxInt64 - sc_KeepaliveInterval config
      then Inl (ErrText ''dgproto: keepalive liveness window is too large'')
      else if sc_ReadTimeout config > 0
      then
        (let livenessWindow = sc_IdleTimeout config;
             keepaliveWindow = int64 (sc_KeepaliveInterval config + sc_KeepaliveTimeout config);
             livenessWindow = (if keepaliveWindow > livenessWindow then keepaliveWindow else livenessWindow)
         in if livenessWindow > 0 \<and> sc_ReadTimeout config < livenessWindow
            then Inl (ErrText ''dgproto: ReadTimeout must be zero or at least the idle/keepalive liveness window'')
            else Inr config)
      else Inr config)"

definition configureCapacities :: "server_config \<Rightarrow> server_config result" where
  "configureCapacities config =
     (let config = (if sc_HandshakeTimeout config = 0 then config\<lparr>sc_HandshakeTimeout := 10 * Second\<rparr> else config)
      in if sc_OutboundQueue config < 0 then Inl (ErrText ''dgproto: OutboundQueue must not be negative'')
         else
           (let config = (if sc_OutboundQueue config = 0 then config\<lparr>sc_OutboundQueue := 16\<rparr> else config)
            in if sc_HandlerQueue config < 0 then Inl (ErrText ''dgproto: HandlerQueue must not be negative'')
               else
                 (let config = (if sc_HandlerQueue config = 0 then config\<lparr>sc_HandlerQueue := 16\<rparr> else config)
                  in if sc_MaxConcurrentHandshakes config < 0
                     then Inl (ErrText ''dgproto: MaxConcurrentHandshakes must not be negative'')
                     else
                       (let config = (if sc_MaxConcurrentHandshakes config = 0
                                      then config\<lparr>sc_MaxConcurrentHandshakes := 64\<rparr> else config)
                        in if sc_MaxActiveConnections config < 0
                           then Inl (ErrText ''dgproto: MaxActiveConnections must not be negative'')
                           else Inr (if sc_MaxActiveConnections config = 0
                                     then config\<lparr>sc_MaxActiveConnections := 1024\<rparr> else config)))))"

definition normalizeServerConfig :: "'n noise \<Rightarrow> server_config \<Rightarrow> server_config result" where
  "normalizeServerConfig N config =
     (let config = (if sc_CipherSuite config = 0 then config\<lparr>sc_CipherSuite := CipherChaCha20Poly1305\<rparr> else config)
      in if sc_CipherSuite config \<noteq> CipherChaCha20Poly1305 then Inl ErrUnsupportedCipher
         else case StaticKey_validate N (sc_StaticKey config) of
           Some err \<Rightarrow> Inl err
         | None \<Rightarrow>
             if sc_HandshakeTimeout config < 0 then Inl (ErrText ''dgproto: HandshakeTimeout must not be negative'')
             else if sc_ReadTimeout config < 0 \<or> sc_WriteTimeout config < 0 \<or> sc_IdleTimeout config < 0
                     \<or> sc_KeepaliveInterval config < 0
               then Inl (ErrText ''dgproto: connection timeouts must not be negative'')
             else if sc_HandlerShutdownTimeout config < 0
               then Inl (ErrText ''dgproto: HandlerShutdownTimeout must not be negative'')
             else if sc_KeepaliveTimeout config < 0
               then Inl (ErrText ''dgproto: KeepaliveTimeout must not be negative'')
             else (case fillKeepaliveTimeout config of
                     Inl err \<Rightarrow> Inl err
                   | Inr config \<Rightarrow>
                       (case checkLiveness config of
                          Inl err \<Rightarrow> Inl err
                        | Inr config \<Rightarrow>
                            (case configureCapacities config of
                               Inl err \<Rightarrow> Inl err
                             | Inr config \<Rightarrow>
                                 Inr (config\<lparr>sc_AllowedClients := map (\<lambda>key. [] @ key) (sc_AllowedClients config)\<rparr>)))))"

section \<open>connection.go\<close>

text \<open>The defaults \<^verbatim>\<open>NewConnection\<close> applies.\<close>

definition connectionDefaults :: "connection_config \<Rightarrow> connection_config" where
  "connectionDefaults config =
     (let config = (if cc_OutboundQueue config \<le> 0 then config\<lparr>cc_OutboundQueue := 16\<rparr> else config);
          config = (if cc_HandlerQueue config \<le> 0 then config\<lparr>cc_HandlerQueue := 16\<rparr> else config)
      in if cc_KeepaliveInterval config > 0 \<and> cc_KeepaliveTimeout config \<le> 0
         then config\<lparr>cc_KeepaliveTimeout := fst (defaultKeepaliveTimeout (cc_KeepaliveInterval config))\<rparr>
         else config)"

text \<open>The configuration a server gives its connections.\<close>

definition serverConnectionConfig :: "server_config \<Rightarrow> connection_config" where
  "serverConnectionConfig s =
     \<lparr>cc_OutboundQueue = sc_OutboundQueue s, cc_HandlerQueue = sc_HandlerQueue s,
      cc_HandshakeTimeout = sc_HandshakeTimeout s, cc_ReadTimeout = sc_ReadTimeout s,
      cc_WriteTimeout = sc_WriteTimeout s, cc_IdleTimeout = sc_IdleTimeout s,
      cc_KeepaliveInterval = sc_KeepaliveInterval s, cc_KeepaliveTimeout = sc_KeepaliveTimeout s,
      cc_Handler = sc_Handler s, cc_HandlerShutdownTimeout = sc_HandlerShutdownTimeout s\<rparr>"

section \<open>What a normalised configuration guarantees\<close>

definition server_config_ok :: "server_config \<Rightarrow> bool" where
  "server_config_ok c \<longleftrightarrow>
     sc_CipherSuite c = 1 \<and> 0 < sc_HandshakeTimeout c \<and> 0 \<le> sc_ReadTimeout c \<and> 0 \<le> sc_WriteTimeout c
     \<and> 0 \<le> sc_IdleTimeout c \<and> 0 \<le> sc_KeepaliveInterval c \<and> 0 \<le> sc_KeepaliveTimeout c
     \<and> 0 \<le> sc_HandlerShutdownTimeout c
     \<and> (0 < sc_KeepaliveInterval c \<longrightarrow> 0 < sc_KeepaliveTimeout c)
     \<and> sc_KeepaliveInterval c + sc_KeepaliveTimeout c \<le> MaxInt64
     \<and> (sc_ReadTimeout c = 0 \<or> sc_IdleTimeout c \<le> sc_ReadTimeout c
          \<and> sc_KeepaliveInterval c + sc_KeepaliveTimeout c \<le> sc_ReadTimeout c)
     \<and> 0 < sc_OutboundQueue c \<and> 0 < sc_HandlerQueue c \<and> 0 < sc_MaxConcurrentHandshakes c \<and> 0 < sc_MaxActiveConnections c"

definition client_config_ok :: "client_config \<Rightarrow> bool" where
  "client_config_ok c \<longleftrightarrow>
     length (cl_ServerStatic c) = 32 \<and> cl_ServerStatic c \<noteq> replicate 32 0
     \<and> (let k = cl_Connection c
        in 0 < cc_HandshakeTimeout k \<and> 0 \<le> cc_ReadTimeout k \<and> 0 \<le> cc_WriteTimeout k \<and> 0 \<le> cc_IdleTimeout k
          \<and> 0 \<le> cc_KeepaliveInterval k \<and> 0 \<le> cc_KeepaliveTimeout k \<and> 0 \<le> cc_HandlerShutdownTimeout k
          \<and> 0 \<le> cc_OutboundQueue k \<and> 0 \<le> cc_HandlerQueue k
          \<and> (0 < cc_KeepaliveInterval k \<longrightarrow> 0 < cc_KeepaliveTimeout k)
          \<and> cc_KeepaliveInterval k + cc_KeepaliveTimeout k \<le> MaxInt64
          \<and> (cc_ReadTimeout k = 0 \<or> cc_IdleTimeout k \<le> cc_ReadTimeout k
               \<and> cc_KeepaliveInterval k + cc_KeepaliveTimeout k \<le> cc_ReadTimeout k))"

lemma Second_pos: "0 < 10 * Second"
  by (simp add: Second_def)

lemma fillKeepaliveTimeout_Inr:
  assumes "fillKeepaliveTimeout c = Inr c'" and "0 \<le> sc_KeepaliveTimeout c" and "is_int64 (sc_KeepaliveTimeout c)"
  shows "\<exists>t. c' = c\<lparr>sc_KeepaliveTimeout := t\<rparr> \<and> 0 \<le> t \<and> is_int64 t \<and> (0 < sc_KeepaliveInterval c \<longrightarrow> 0 < t)"
proof (cases "0 < sc_KeepaliveInterval c \<and> sc_KeepaliveTimeout c = 0")
  case True
  then have "c' = c\<lparr>sc_KeepaliveTimeout := 2 * sc_KeepaliveInterval c\<rparr>" "sc_KeepaliveInterval c \<le> 4611686018427387903"
    using assms(1) by (auto simp: fillKeepaliveTimeout_def defaultKeepaliveTimeout_eq split: if_splits)
  then show ?thesis using True by (intro exI [of _ "2 * sc_KeepaliveInterval c"]) (simp add: is_int64_def MaxInt64_def)
next
  case False
  then have "c' = c" using assms(1) by (auto simp: fillKeepaliveTimeout_def)
  then show ?thesis using False assms(2,3) by (intro exI [of _ "sc_KeepaliveTimeout c"]) auto
qed

lemma checkLiveness_Inr:
  assumes "checkLiveness c = Inr c'" and "is_int64 (sc_KeepaliveTimeout c)" and "0 \<le> sc_ReadTimeout c"
    and "0 \<le> sc_KeepaliveInterval c" and "0 \<le> sc_KeepaliveTimeout c" and "0 \<le> sc_IdleTimeout c"
  shows "c' = c" and "sc_KeepaliveInterval c + sc_KeepaliveTimeout c \<le> MaxInt64"
    and "sc_ReadTimeout c = 0 \<or> sc_IdleTimeout c \<le> sc_ReadTimeout c
      \<and> sc_KeepaliveInterval c + sc_KeepaliveTimeout c \<le> sc_ReadTimeout c"
proof -
  let ?w = "sc_KeepaliveInterval c + sc_KeepaliveTimeout c"
  show "c' = c" using assms(1) by (auto simp: checkLiveness_def Let_def split: if_splits)
  show sum: "?w \<le> MaxInt64"
    using assms(1,2,4) by (cases "0 < sc_KeepaliveInterval c") (auto simp: checkLiveness_def is_int64_def split: if_splits)
  have "int64 ?w = ?w" using assms(4,5) sum by (intro int64_id) (simp add: is_int64_def)
  then show "sc_ReadTimeout c = 0 \<or> sc_IdleTimeout c \<le> sc_ReadTimeout c \<and> ?w \<le> sc_ReadTimeout c"
    using assms(1,3-6) by (auto simp: checkLiveness_def Let_def split: if_splits)
qed

lemma configureCapacities_Inr:
  assumes "configureCapacities c = Inr c'"
  shows "c' = c\<lparr>sc_HandshakeTimeout := (if sc_HandshakeTimeout c = 0 then 10 * Second else sc_HandshakeTimeout c),
      sc_OutboundQueue := (if sc_OutboundQueue c = 0 then 16 else sc_OutboundQueue c),
      sc_HandlerQueue := (if sc_HandlerQueue c = 0 then 16 else sc_HandlerQueue c),
      sc_MaxConcurrentHandshakes := (if sc_MaxConcurrentHandshakes c = 0 then 64 else sc_MaxConcurrentHandshakes c),
      sc_MaxActiveConnections := (if sc_MaxActiveConnections c = 0 then 1024 else sc_MaxActiveConnections c)\<rparr>"
    and "0 \<le> sc_OutboundQueue c" and "0 \<le> sc_HandlerQueue c" and "0 \<le> sc_MaxConcurrentHandshakes c"
    and "0 \<le> sc_MaxActiveConnections c"
  using assms by (auto simp: configureCapacities_def Let_def split: if_splits)

lemma copied_keys [simp]: "map ((@) []) keys = keys"
  by (induction keys) simp_all

lemma normalizeServerConfig_Inr:
  assumes "normalizeServerConfig N c = Inr c'" and "wf_server_config c"
  shows "server_config_ok c'" and "sc_StaticKey c' = sc_StaticKey c" and "sc_AllowedClients c' = sc_AllowedClients c"
    and "StaticKey_validate N (sc_StaticKey c) = None"
proof -
  let ?c0 = "if sc_CipherSuite c = 0 then c\<lparr>sc_CipherSuite := CipherChaCha20Poly1305\<rparr> else c"
  obtain c1 c2 c3 where steps: "sc_CipherSuite ?c0 = 1" "StaticKey_validate N (sc_StaticKey ?c0) = None"
    "0 \<le> sc_HandshakeTimeout ?c0" "0 \<le> sc_ReadTimeout ?c0" "0 \<le> sc_WriteTimeout ?c0" "0 \<le> sc_IdleTimeout ?c0"
    "0 \<le> sc_KeepaliveInterval ?c0" "0 \<le> sc_HandlerShutdownTimeout ?c0" "0 \<le> sc_KeepaliveTimeout ?c0"
    "fillKeepaliveTimeout ?c0 = Inr c1" "checkLiveness c1 = Inr c2" "configureCapacities c2 = Inr c3"
    "c' = c3\<lparr>sc_AllowedClients := sc_AllowedClients c3\<rparr>"
    using assms(1) unfolding normalizeServerConfig_def Let_def CipherChaCha20Poly1305_def
    by (auto split: if_splits option.splits sum.splits)
  have wf: "is_int64 (sc_KeepaliveTimeout ?c0)" using assms(2) by (simp add: wf_defs)
  obtain t where t: "c1 = ?c0\<lparr>sc_KeepaliveTimeout := t\<rparr>" "0 \<le> t" "is_int64 t" "0 < sc_KeepaliveInterval ?c0 \<longrightarrow> 0 < t"
    using fillKeepaliveTimeout_Inr [OF steps(10,9) wf] by blast
  note live = checkLiveness_Inr [OF steps(11)]
  note cap = configureCapacities_Inr [OF steps(12)]
  have c2: "c2 = c1" using live(1) t steps by simp
  show "server_config_ok c'"
    using live(2,3) t steps(1-9) cap c2 steps(13) Second_pos unfolding server_config_ok_def by simp
  show "sc_StaticKey c' = sc_StaticKey c" "sc_AllowedClients c' = sc_AllowedClients c"
    using steps(13) cap(1) c2 t(1) by simp_all
  show "StaticKey_validate N (sc_StaticKey c) = None" using steps(2) by (simp split: if_splits)
qed

lemma normalizeServerConfig_fixed:
  assumes "server_config_ok c" and "StaticKey_validate N (sc_StaticKey c) = None"
  shows "normalizeServerConfig N c = Inr c"
proof -
  have "fillKeepaliveTimeout c = Inr c"
    using assms(1) by (auto simp: fillKeepaliveTimeout_def server_config_ok_def)
  moreover have "int64 (sc_KeepaliveInterval c + sc_KeepaliveTimeout c) = sc_KeepaliveInterval c + sc_KeepaliveTimeout c"
    using assms(1) by (intro int64_id) (auto simp: is_int64_def server_config_ok_def)
  then have "checkLiveness c = Inr c"
    using assms(1) by (auto simp: checkLiveness_def Let_def server_config_ok_def)
  moreover have "configureCapacities c = Inr c"
    using assms(1) by (auto simp: configureCapacities_def Let_def server_config_ok_def)
  ultimately show ?thesis
    using assms by (auto simp: normalizeServerConfig_def Let_def server_config_ok_def)
qed

definition connection_part_ok :: "connection_config \<Rightarrow> bool" where
  "connection_part_ok k \<longleftrightarrow>
     0 \<le> cc_KeepaliveTimeout k \<and> (0 < cc_KeepaliveInterval k \<longrightarrow> 0 < cc_KeepaliveTimeout k)
     \<and> cc_KeepaliveInterval k + cc_KeepaliveTimeout k \<le> MaxInt64
     \<and> (cc_ReadTimeout k = 0 \<or> cc_IdleTimeout k \<le> cc_ReadTimeout k
          \<and> cc_KeepaliveInterval k + cc_KeepaliveTimeout k \<le> cc_ReadTimeout k)"

lemma checkClientWindow_None:
  assumes "checkClientWindow k = None" and "0 \<le> cc_KeepaliveInterval k" and "0 \<le> cc_KeepaliveTimeout k"
    and "0 \<le> cc_ReadTimeout k" and "0 < cc_KeepaliveInterval k \<longrightarrow> 0 < cc_KeepaliveTimeout k"
  shows "connection_part_ok k"
proof -
  have le: "cc_KeepaliveTimeout k \<le> MaxInt64 - cc_KeepaliveInterval k"
    using assms(1) by (simp add: checkClientWindow_def split: if_splits)
  then have "int64 (cc_KeepaliveInterval k + cc_KeepaliveTimeout k) = cc_KeepaliveInterval k + cc_KeepaliveTimeout k"
    using assms(2,3) by (intro int64_id) (simp add: is_int64_def)
  then show ?thesis using assms le by (auto simp: connection_part_ok_def checkClientWindow_def Let_def split: if_splits)
qed

lemma fillClientKeepalive_Inr:
  assumes "fillClientKeepalive k = Inr k'" and "0 \<le> cc_KeepaliveTimeout k"
  shows "\<exists>t. k' = k\<lparr>cc_KeepaliveTimeout := t\<rparr> \<and> 0 \<le> t \<and> (0 < cc_KeepaliveInterval k \<longrightarrow> 0 < t)"
proof (cases "0 < cc_KeepaliveInterval k \<and> cc_KeepaliveTimeout k = 0")
  case True
  then have "k' = k\<lparr>cc_KeepaliveTimeout := 2 * cc_KeepaliveInterval k\<rparr>"
    using assms(1) by (auto simp: fillClientKeepalive_def defaultKeepaliveTimeout_eq split: if_splits)
  then show ?thesis using True by (intro exI [of _ "2 * cc_KeepaliveInterval k"]) simp
next
  case False
  then have "k' = k" using assms(1) by (auto simp: fillClientKeepalive_def)
  then show ?thesis using False assms(2) by (intro exI [of _ "cc_KeepaliveTimeout k"]) auto
qed

lemma normalizeClientConfig_Inr:
  assumes "normalizeClientConfig N c = Inr c'"
  shows "client_config_ok c'" and "cl_StaticKey c' = cl_StaticKey c" and "cl_ServerStatic c' = cl_ServerStatic c"
    and "StaticKey_validate N (cl_StaticKey c) = None"
proof -
  let ?k = "cl_Connection c"
  define k1 where "k1 = (if cc_HandshakeTimeout ?k = 0 then ?k\<lparr>cc_HandshakeTimeout := 10 * Second\<rparr> else ?k)"
  obtain k2 where steps: "StaticKey_validate N (cl_StaticKey c) = None"
    "length (cl_ServerStatic c) = 32" "\<not> allZero (cl_ServerStatic c)" "\<not> negative_setting ?k"
    "fillClientKeepalive k1 = Inr k2" "checkClientWindow k2 = None" "c' = c\<lparr>cl_Connection := k2\<rparr>"
    using assms unfolding normalizeClientConfig_def Let_def k1_def [symmetric]
    by (auto split: option.splits if_split_asm sum.splits)
  have k1: "0 < cc_HandshakeTimeout k1" "\<not> negative_setting k1"
    using steps(4) Second_pos by (auto simp: k1_def negative_setting_def)
  obtain t where k2: "k2 = k1\<lparr>cc_KeepaliveTimeout := t\<rparr>" "0 \<le> t" "0 < cc_KeepaliveInterval k1 \<longrightarrow> 0 < t"
    using fillClientKeepalive_Inr [OF steps(5)] k1(2) by (auto simp: negative_setting_def)
  have "connection_part_ok k2"
    using steps(6) k1 k2 by (intro checkClientWindow_None) (auto simp: negative_setting_def)
  moreover have "cl_ServerStatic c \<noteq> replicate 32 0" using steps(2,3) by (auto simp: allZero_iff)
  ultimately show "client_config_ok c'"
    using steps(2,7) k1 k2 unfolding client_config_ok_def connection_part_ok_def Let_def negative_setting_def by simp
  show "cl_StaticKey c' = cl_StaticKey c" "cl_ServerStatic c' = cl_ServerStatic c" using steps(7) by simp_all
  show "StaticKey_validate N (cl_StaticKey c) = None" by (rule steps(1))
qed

lemma normalizeClientConfig_fixed:
  assumes "client_config_ok c" and "StaticKey_validate N (cl_StaticKey c) = None"
  shows "normalizeClientConfig N c = Inr c"
proof -
  let ?k = "cl_Connection c"
  have k: "\<not> allZero (cl_ServerStatic c)" "length (cl_ServerStatic c) = 32" "\<not> negative_setting ?k"
    "cc_HandshakeTimeout ?k \<noteq> 0"
    using assms(1) by (auto simp: client_config_ok_def allZero_iff negative_setting_def Let_def)
  have "fillClientKeepalive ?k = Inr ?k"
    using assms(1) by (auto simp: fillClientKeepalive_def client_config_ok_def Let_def)
  moreover have "int64 (cc_KeepaliveInterval ?k + cc_KeepaliveTimeout ?k) = cc_KeepaliveInterval ?k + cc_KeepaliveTimeout ?k"
    using assms(1) by (intro int64_id) (auto simp: is_int64_def client_config_ok_def Let_def)
  then have "checkClientWindow ?k = None"
    using assms(1) by (auto simp: checkClientWindow_def client_config_ok_def Let_def)
  ultimately show ?thesis
    using assms(2) k by (simp add: normalizeClientConfig_def Let_def)
qed

lemma connectionDefaults_fixed:
  assumes "server_config_ok c"
  shows "connectionDefaults (serverConnectionConfig c) = serverConnectionConfig c"
  using assms by (auto simp: connectionDefaults_def serverConnectionConfig_def server_config_ok_def Let_def)

section \<open>Properties\<close>

text \<open>C39: whatever a server configuration contains, if it is accepted the one the server holds is sane:
  the one supported cipher, positive capacities and handshake timeout, a keepalive timeout whenever
  there is an interval, a keepalive window that fits 64 bits, and a read timeout that covers the liveness
  window or is off. Accepting it again changes nothing, and neither do the connection defaults.\<close>

theorem server_config_normalised:
  assumes "wf_server_config c" and "normalizeServerConfig N c = Inr c'"
  shows "server_config_ok c' \<and> normalizeServerConfig N c' = Inr c'
    \<and> connectionDefaults (serverConnectionConfig c') = serverConnectionConfig c'"
  using normalizeServerConfig_Inr [OF assms(2,1)]
  by (simp add: normalizeServerConfig_fixed connectionDefaults_fixed)

definition sample_server_config :: server_config where
  "sample_server_config =
     \<lparr>sc_StaticKey = sample_key 2, sc_AllowedClients = [], sc_CipherSuite = 0, sc_HandshakeTimeout = 0,
      sc_ReadTimeout = 0, sc_WriteTimeout = 0, sc_IdleTimeout = 0, sc_KeepaliveInterval = 5, sc_KeepaliveTimeout = 0,
      sc_OutboundQueue = 0, sc_HandlerQueue = 0, sc_MaxConcurrentHandshakes = 0, sc_MaxActiveConnections = 0,
      sc_Handler = True, sc_HandlerShutdownTimeout = 0, sc_Admission = False, sc_OnDisconnect = False\<rparr>"

definition sample_server_config' :: server_config where
  "sample_server_config' = sample_server_config\<lparr>sc_CipherSuite := 1, sc_HandshakeTimeout := 10 * Second,
     sc_KeepaliveTimeout := 10, sc_OutboundQueue := 16, sc_HandlerQueue := 16, sc_MaxConcurrentHandshakes := 64,
     sc_MaxActiveConnections := 1024\<rparr>"

lemma sample_server_normalises: "normalizeServerConfig plain_noise sample_server_config = Inr sample_server_config'"
  using sample_key_valid(2) [of 2]
  by (simp add: normalizeServerConfig_def sample_server_config_def sample_server_config'_def Let_def
      fillKeepaliveTimeout_def defaultKeepaliveTimeout_eq checkLiveness_def configureCapacities_def MaxInt64_def)

theorem server_config_normalised_witness:
  "server_config_ok sample_server_config' \<and> normalizeServerConfig plain_noise sample_server_config' = Inr sample_server_config'"
proof -
  have "wf_server_config sample_server_config"
    by (simp add: wf_defs sample_server_config_def sample_key_def is_int64_def MaxInt64_def)
  then show ?thesis using server_config_normalised [OF _ sample_server_normalises] by blast
qed

text \<open>C40: an accepted client configuration has a nonzero 32-byte server pin, no negative setting, a
  positive handshake timeout, a keepalive window that fits 64 bits, and a read timeout that covers the
  idle and keepalive windows or is off; accepting it again changes nothing.\<close>

theorem client_config_normalised:
  assumes "normalizeClientConfig N c = Inr c'"
  shows "client_config_ok c' \<and> normalizeClientConfig N c' = Inr c'
    \<and> cl_ServerStatic c' = cl_ServerStatic c \<and> cl_StaticKey c' = cl_StaticKey c"
  using normalizeClientConfig_Inr [OF assms] by (simp add: normalizeClientConfig_fixed)

definition sample_client_config :: client_config where
  "sample_client_config =
     \<lparr>cl_StaticKey = sample_key 1, cl_ServerStatic = replicate 32 (2 XOR 255),
      cl_Connection = \<lparr>cc_OutboundQueue = 0, cc_HandlerQueue = 0, cc_HandshakeTimeout = 7, cc_ReadTimeout = 0,
        cc_WriteTimeout = 0, cc_IdleTimeout = 0, cc_KeepaliveInterval = 0, cc_KeepaliveTimeout = 0,
        cc_Handler = False, cc_HandlerShutdownTimeout = 0\<rparr>\<rparr>"

lemma sample_pin_nonzero: "\<not> allZero (replicate 32 253)"
  by code_simp

lemma sample_client_normalises: "normalizeClientConfig plain_noise sample_client_config = Inr sample_client_config"
  using sample_key_valid(2) [of 1]
  by (simp add: normalizeClientConfig_def sample_client_config_def Let_def fillClientKeepalive_def
      checkClientWindow_def negative_setting_def MaxInt64_def int64_def sample_pin_nonzero)

theorem client_config_normalised_witness: "client_config_ok sample_client_config"
  using client_config_normalised [OF sample_client_normalises] by simp

end
