(* ===== verification/Establish.thy ===== *)
theory Establish
  imports Transport Config
begin

text \<open>
  \<^verbatim>\<open>server_handshake.go\<close> and \<^verbatim>\<open>establishClient\<close> of \<^verbatim>\<open>client.go\<close>: the handshake carried in frames over a
  connection, from both ends.

  The context of the call appears as \<open>ctxs i\<close> for its \<open>i\<close>-th transport operation and, for the client, as
  the result \<open>late\<close> of the \<^verbatim>\<open>ctx.Err()\<close> consulted after a failure. An error that wraps
  two errors (\<^verbatim>\<open>"%w: %w"\<close>) is represented by the first.
\<close>

section \<open>server_handshake.go\<close>

fun hmac_loop :: "bytes \<Rightarrow> bytes \<Rightarrow> byte \<Rightarrow> byte" where
  "hmac_loop (x # a) (y # b) result = hmac_loop a b (result OR (x XOR y))"
| "hmac_loop _ _ result = result"

definition hmacEqual :: "bytes \<Rightarrow> bytes \<Rightarrow> bool" where
  "hmacEqual a b = (if length a \<noteq> length b then False else hmac_loop a b 0 = 0)"

fun isClientAllowed :: "bytes \<Rightarrow> bytes list \<Rightarrow> bool" where
  "isClientAllowed clientStatic [] = False"
| "isClientAllowed clientStatic (allowed # allowedList) =
     (if length allowed = 32 \<and> hmacEqual clientStatic allowed then True
      else isClientAllowed clientStatic allowedList)"

definition validateHandshakeFrame :: "frame \<Rightarrow> u8 \<Rightarrow> dg_error option" where
  "validateHandshakeFrame f expected =
     (if h_MessageType (f_Header f) \<noteq> expected then Some ErrHandshakeFailed
      else if h_SessionID (f_Header f) \<noteq> replicate 16 0 then Some ErrHandshakeFailed
      else if h_Sequence (f_Header f) \<noteq> 0 then Some ErrHandshakeFailed
      else case Frame_ValidateReceive f of Some _ \<Rightarrow> Some ErrHandshakeFailed | None \<Rightarrow> None)"

text \<open>The tail of \<^verbatim>\<open>performHandshake\<close>: everything after the third flight was read.\<close>

definition finishHandshake ::
  "'c aead \<Rightarrow> clock \<Rightarrow> server_config \<Rightarrow> 'n handshake option \<Rightarrow> ('c session \<times> handshake_result) result" where
  "finishHandshake A now config responder =
     (if \<not> Handshake_Complete responder then Inl ErrHandshakeFailed
      else case Handshake_Result responder of
        Inl err \<Rightarrow> Inl err
      | Inr result \<Rightarrow>
          if length (sc_AllowedClients config) > 0 \<and> \<not> isClientAllowed (res_PeerStatic result) (sc_AllowedClients config)
          then Inl ErrClientNotPermitted
          else (case NewSessionFromHandshake A now (sc_CipherSuite config) result of
                  Inl err \<Rightarrow> Inl err
                | Inr session \<Rightarrow> Inr (session, result)))"

text \<open>From the third flight on.\<close>

definition serverFinal ::
  "'n noise \<Rightarrow> 'c aead \<Rightarrow> clock \<Rightarrow> server_config \<Rightarrow> (nat \<Rightarrow> ctx) \<Rightarrow> 'n handshake option \<Rightarrow> conn \<Rightarrow>
   conn \<times> ('c session \<times> handshake_result) result" where
  "serverFinal N A now config ctxs responder c =
     (case ReadFrame (ctxs 2) c of
        (c, Inl err) \<Rightarrow> (c, Inl err)
      | (c, Inr frame3) \<Rightarrow>
          (case validateHandshakeFrame frame3 MessageTypeHandshakeResponse of
             Some err \<Rightarrow> (c, Inl err)
           | None \<Rightarrow>
               (case ReadFlight N responder (f_Payload frame3) of
                  (_, Inl err) \<Rightarrow> (c, Inl err)
                | (responder, Inr _) \<Rightarrow> (c, finishHandshake A now config responder))))"

definition performHandshake ::
  "'n noise \<Rightarrow> 'c aead \<Rightarrow> clock \<Rightarrow> bytes \<Rightarrow> server_config \<Rightarrow> (nat \<Rightarrow> ctx) \<Rightarrow> conn \<Rightarrow>
   conn \<times> ('c session \<times> handshake_result) result" where
  "performHandshake N A now random config ctxs c =
     (case NewResponderHandshake N random (sc_StaticKey config) [] of
        Inl err \<Rightarrow> (c, Inl err)
      | Inr responder \<Rightarrow>
          (case ReadFrame (ctxs 0) c of
             (c, Inl err) \<Rightarrow> (c, Inl err)
           | (c, Inr frame1) \<Rightarrow>
               (case validateHandshakeFrame frame1 MessageTypeHandshakeInit of
                  Some err \<Rightarrow> (c, Inl err)
                | None \<Rightarrow>
                    (case ReadFlight N (Some responder) (f_Payload frame1) of
                       (_, Inl err) \<Rightarrow> (c, Inl err)
                     | (responder, Inr _) \<Rightarrow>
                         (case WriteFlight N responder of
                            (_, Inl err) \<Rightarrow> (c, Inl err)
                          | (responder, Inr flight2Payload) \<Rightarrow>
                              (case NewFrame MessageTypeHandshakeResponse (replicate 16 0) 0 flight2Payload
                                      (replicate AEADTagSize 0) [] of
                                 Inl err \<Rightarrow> (c, Inl err)
                               | Inr frame2 \<Rightarrow>
                                   (case WriteFrame (ctxs 1) c frame2 of
                                      (c, Some err) \<Rightarrow> (c, Inl err)
                                    | (c, None) \<Rightarrow>
                                        serverFinal N A now config ctxs responder c)))))))"

section \<open>establishClient of client.go\<close>

definition establish_fail :: "dg_error option \<Rightarrow> dg_error \<Rightarrow> 'a result" where
  "establish_fail late err = (case late of Some e \<Rightarrow> Inl e | None \<Rightarrow> Inl ErrHandshakeFailed)"

definition client_frame :: "u8 \<Rightarrow> bytes \<Rightarrow> frame" where
  "client_frame messageType flight =
     \<lparr>f_Header = NewHeader messageType (replicate 16 0) 0 (of_nat (length flight)) 0, f_Payload = flight,
      f_Tag = replicate AEADTagSize 0, f_Padding = []\<rparr>"

text \<open>From the response of the server on.\<close>

definition clientResponse ::
  "'n noise \<Rightarrow> dg_error option \<Rightarrow> (nat \<Rightarrow> ctx) \<Rightarrow> 'n handshake option \<Rightarrow> conn \<Rightarrow> conn \<times> handshake_result result" where
  "clientResponse N late ctxs h t =
     (case ReadFrame (ctxs 1) t of
        (t, Inl err) \<Rightarrow> (t, establish_fail late err)
      | (t, Inr response) \<Rightarrow>
          (case validateHandshakeFrame response MessageTypeHandshakeResponse of
             Some err \<Rightarrow> (t, establish_fail late err)
           | None \<Rightarrow>
               (case ReadFlight N h (f_Payload response) of
                  (_, Inl err) \<Rightarrow> (t, establish_fail late err)
                | (h, Inr _) \<Rightarrow>
                    (case WriteFlight N h of
                       (_, Inl err) \<Rightarrow> (t, establish_fail late err)
                     | (h, Inr flight) \<Rightarrow>
                         (case WriteFrame (ctxs 2) t (client_frame MessageTypeHandshakeResponse flight) of
                            (t, Some err) \<Rightarrow> (t, establish_fail late err)
                          | (t, None) \<Rightarrow>
                              (case Handshake_Result h of
                                 Inl err \<Rightarrow> (t, establish_fail late err)
                               | Inr result \<Rightarrow> (t, Inr result)))))))"

definition establishClient ::
  "'n noise \<Rightarrow> bytes \<Rightarrow> client_config \<Rightarrow> dg_error option \<Rightarrow> (nat \<Rightarrow> ctx) \<Rightarrow> conn \<Rightarrow> conn \<times> handshake_result result" where
  "establishClient N random config late ctxs t =
     (case NewInitiatorHandshake N random (cl_StaticKey config) (cl_ServerStatic config) of
        Inl err \<Rightarrow> (t, establish_fail late err)
      | Inr h \<Rightarrow>
          (case WriteFlight N (Some h) of
             (_, Inl err) \<Rightarrow> (t, establish_fail late err)
           | (h, Inr flight) \<Rightarrow>
               (case WriteFrame (ctxs 0) t (client_frame MessageTypeHandshakeInit flight) of
                  (t, Some err) \<Rightarrow> (t, establish_fail late err)
                | (t, None) \<Rightarrow>
                    clientResponse N late ctxs h t)))"

section \<open>The allow list\<close>

lemma or_eq_zero: "(a :: byte) OR b = 0 \<longleftrightarrow> a = 0 \<and> b = 0"
  by (auto simp: bit_eq_iff bit_simps)

lemma xor_eq_zero: "(a :: byte) XOR b = 0 \<longleftrightarrow> a = b"
  by (auto simp: bit_eq_iff bit_simps)

lemma hmac_loop_zero: "length a = length b \<Longrightarrow> hmac_loop a b r = 0 \<longleftrightarrow> r = 0 \<and> a = b"
  by (induction a b r rule: hmac_loop.induct) (auto simp: or_eq_zero xor_eq_zero)

lemma hmacEqual_iff: "hmacEqual a b \<longleftrightarrow> a = b"
  by (auto simp: hmacEqual_def hmac_loop_zero)

lemma isClientAllowed_iff: "length k = 32 \<Longrightarrow> isClientAllowed k keys \<longleftrightarrow> k \<in> set keys"
  by (induction keys) (auto simp: hmacEqual_iff)

lemma validateHandshakeFrame_None:
  "validateHandshakeFrame f t = None \<longleftrightarrow>
     h_MessageType (f_Header f) = t \<and> h_SessionID (f_Header f) = replicate 16 0 \<and> h_Sequence (f_Header f) = 0
     \<and> Frame_ValidateReceive f = None"
  by (auto simp: validateHandshakeFrame_def split: option.splits)

section \<open>Handshake frames on the wire\<close>

lemma client_frame_ok:
  assumes "mt = 1 \<or> mt = 2" and "length p \<le> 96"
  shows "wf_frame (client_frame mt p)" and "Frame_Validate (client_frame mt p) = None"
    and "received_frame (client_frame mt p) = client_frame mt p"
    and "validateHandshakeFrame (client_frame mt p) mt = None"
    and "f_Payload (client_frame mt p) = p"
proof -
  have len: "unat (of_nat (length p) :: u32) = length p" using assms(2) by (simp add: unat_of_nat_u32)
  have tag: "\<not> hasAEADTag (f_Header (client_frame mt p))"
    using assms(1) by (auto simp: client_frame_def hasAEADTag_def NewHeader_def)
  show "wf_frame (client_frame mt p)" by (simp add: client_frame_def wf_frame_def)
  show valid: "Frame_Validate (client_frame mt p) = None"
    using len assms(2) tag
    by (simp add: client_frame_def Frame_Validate_None NewHeader_Validate frame_size_def validateLengths_def)
  show "received_frame (client_frame mt p) = client_frame mt p"
    using tag by (simp add: received_frame_def client_frame_def)
  show "validateHandshakeFrame (client_frame mt p) mt = None"
    using Frame_Validate_receive [OF valid] by (simp add: validateHandshakeFrame_None client_frame_def NewHeader_def)
  show "f_Payload (client_frame mt p) = p" by (simp add: client_frame_def)
qed

lemma NewFrame_response:
  assumes "length p = 96"
  shows "NewFrame 2 (replicate 16 0) 0 p (replicate 16 0) [] = Inr (client_frame 2 p)"
proof -
  have tag: "\<not> hasAEADTag (NewHeader 2 (replicate 16 0) 0 (of_nat (length p)) 0)"
    by (simp add: hasAEADTag_def NewHeader_def)
  have "allZero (replicate 16 0)" by (simp add: allZero_iff)
  moreover have "\<not> FrameSize (NewHeader 2 (replicate 16 0) 0 (of_nat (length p)) 0) > of_nat MaxFrameSize"
    using assms tag by (simp add: FrameSize_def NewHeader_def)
  ultimately show ?thesis using assms tag by (simp add: NewFrame_def client_frame_def Let_def)
qed

text \<open>The bytes of a handshake frame; writers that make progress put them out, readers take them in.\<close>

definition hs_wire :: "u8 \<Rightarrow> bytes \<Rightarrow> bytes" where
  "hs_wire mt p = header_bytes (f_Header (client_frame mt p)) @ frame_body (client_frame mt p)"

definition progressing :: "conn \<Rightarrow> bool" where
  "progressing c \<longleftrightarrow> (\<forall>i. snd (conn_write c i) = None \<and> 0 < fst (conn_write c i))"

lemma WriteFrame_handshake:
  assumes "mt = 1 \<or> mt = 2" and "length p \<le> 96" and "live cx" and "progressing c"
  shows "\<exists>j. WriteFrame cx c (client_frame mt p) = (c\<lparr>conn_out := conn_out c @ hs_wire mt p, conn_writes := j\<rparr>, None)"
  using WriteFrame_progress [OF assms(3) client_frame_ok(1,2) [OF assms(1,2)], of c] assms(4)
  by (auto simp: progressing_def hs_wire_def)

lemma ReadFrame_handshake:
  assumes "mt = 1 \<or> mt = 2" and "length p \<le> 96" and "live cx" and "conn_in c = hs_wire mt p @ rest"
  shows "ReadFrame cx c = (c\<lparr>conn_in := rest\<rparr>, Inr (client_frame mt p))"
proof -
  note ok = client_frame_ok [OF assms(1,2)]
  have "Frame_MarshalBinary (client_frame mt p) = Inr (hs_wire mt p)"
    using ok(1,2) by (simp add: Frame_MarshalBinary_eq hs_wire_def)
  then show ?thesis using ReadFrame_wire [OF assms(3) ok(1) _ assms(4)] ok(3) by simp
qed

text \<open>Reading does not write, and writing only appends.\<close>

lemma ReadFrame_out: "conn_out (fst (ReadFrame cx c)) = conn_out c"
  by (auto simp: ReadFrame_def conn_ReadFull_def Let_def split: option.splits sum.splits prod.splits if_splits)

lemma WriteFrame_out: "\<exists>out. conn_out (fst (WriteFrame cx c f)) = conn_out c @ out"
  by (auto simp: WriteFrame_def split: option.splits sum.splits prod.splits if_splits)

section \<open>Runs of the two ends\<close>

lemma establishClient_first:
  assumes "NewInitiatorHandshake N random (cl_StaticKey cfg) (cl_ServerStatic cfg) = Inr i0"
    and "WriteFlight N (Some i0) = (Some i1, Inr p)" and "length p \<le> 96" and "live (ctxs 0)" and "progressing t"
  shows "\<exists>j. establishClient N random cfg late ctxs t =
    clientResponse N late ctxs (Some i1) (t\<lparr>conn_out := conn_out t @ hs_wire 1 p, conn_writes := j\<rparr>)"
proof -
  obtain j where "WriteFrame (ctxs 0) t (client_frame 1 p) = (t\<lparr>conn_out := conn_out t @ hs_wire 1 p, conn_writes := j\<rparr>, None)"
    using WriteFrame_handshake [of 1, OF _ assms(3,4,5)] by auto
  then show ?thesis
    using assms(1,2) by (intro exI [of _ j]) (simp add: establishClient_def)
qed

lemma clientResponse_out: "\<exists>out. conn_out (fst (clientResponse N late ctxs h t)) = conn_out t @ out"
proof -
  obtain t1 r where rd: "ReadFrame (ctxs 1) t = (t1, r)" by fastforce
  then have t1: "conn_out t1 = conn_out t" using ReadFrame_out [of "ctxs 1" t] by simp
  have "\<exists>out. conn_out (fst (WriteFrame (ctxs 2) t1 f)) = conn_out t @ out" for f
    using WriteFrame_out [of "ctxs 2" t1 f] t1 by simp
  then have w: "\<And>f t2 e. WriteFrame (ctxs 2) t1 f = (t2, e) \<Longrightarrow> \<exists>out. conn_out t2 = conn_out t @ out"
    by (metis fst_conv)
  show ?thesis
    using rd t1
    by (auto simp: clientResponse_def split: sum.splits option.splits prod.splits dest!: w)
qed

lemma clientResponse_run:
  assumes "conn_in t = hs_wire 2 m2 @ rest" and "length m2 = 96" and "live (ctxs 1)" and "live (ctxs 2)" and "progressing t"
    and "ReadFlight N (Some i1) m2 = (Some i2, Inr ())" and "WriteFlight N (Some i2) = (Some i3, Inr m3)"
    and "length m3 = 64" and "Handshake_Result (Some i3) = Inr rI"
  shows "\<exists>j. clientResponse N late ctxs (Some i1) t =
    (t\<lparr>conn_in := rest, conn_out := conn_out t @ hs_wire 2 m3, conn_writes := j\<rparr>, Inr rI)"
proof -
  let ?t = "t\<lparr>conn_in := rest\<rparr>"
  have rd: "ReadFrame (ctxs 1) t = (?t, Inr (client_frame 2 m2))"
    using ReadFrame_handshake [of 2 m2 "ctxs 1" t rest] assms(1-3) by simp
  obtain j where "WriteFrame (ctxs 2) ?t (client_frame 2 m3) = (?t\<lparr>conn_out := conn_out ?t @ hs_wire 2 m3, conn_writes := j\<rparr>, None)"
    using WriteFrame_handshake [of 2 m3 "ctxs 2" ?t] assms(4,5,8) by (auto simp: progressing_def)
  then show ?thesis
    using rd assms(2,6,7,9) client_frame_ok(4,5) [of 2 m2]
    by (intro exI [of _ j]) (simp add: clientResponse_def)
qed

lemma performHandshake_first:
  assumes "NewResponderHandshake N random (sc_StaticKey cfg) [] = Inr r0" and "conn_in c = hs_wire 1 p @ rest"
    and "length p \<le> 96" and "ReadFlight N (Some r0) p = (Some r1, Inr ())"
    and "WriteFlight N (Some r1) = (Some r2, Inr m2)" and "length m2 = 96"
    and "live (ctxs 0)" and "live (ctxs 1)" and "progressing c"
  shows "\<exists>j. performHandshake N A now random cfg ctxs c =
    serverFinal N A now cfg ctxs (Some r2) (c\<lparr>conn_in := rest, conn_out := conn_out c @ hs_wire 2 m2, conn_writes := j\<rparr>)"
proof -
  let ?c = "c\<lparr>conn_in := rest\<rparr>"
  have rd: "ReadFrame (ctxs 0) c = (?c, Inr (client_frame 1 p))"
    using ReadFrame_handshake [of 1 p "ctxs 0" c rest] assms(2,3,7) by simp
  obtain j where "WriteFrame (ctxs 1) ?c (client_frame 2 m2) = (?c\<lparr>conn_out := conn_out ?c @ hs_wire 2 m2, conn_writes := j\<rparr>, None)"
    using WriteFrame_handshake [of 2 m2 "ctxs 1" ?c] assms(6,8,9) by (auto simp: progressing_def)
  then show ?thesis
    using rd assms(1,3,4,5) client_frame_ok(4,5) [of 1 p] NewFrame_response [OF assms(6)]
    by (intro exI [of _ j]) (simp add: performHandshake_def)
qed

lemma serverFinal_out: "conn_out (fst (serverFinal N A now cfg ctxs r c)) = conn_out c"
  using ReadFrame_out [of "ctxs 2" c]
  by (auto simp: serverFinal_def split: sum.splits option.splits prod.splits)

lemma serverFinal_run:
  assumes "conn_in c = hs_wire 2 m3 @ rest" and "length m3 = 64" and "live (ctxs 2)"
    and "ReadFlight N (Some r2) m3 = (Some r3, Inr ())"
  shows "serverFinal N A now cfg ctxs (Some r2) c = (c\<lparr>conn_in := rest\<rparr>, finishHandshake A now cfg (Some r3))"
  using ReadFrame_handshake [of 2 m3 "ctxs 2" c rest] client_frame_ok(4,5) [of 2 m3] assms
  by (simp add: serverFinal_def)

lemma finishHandshake_eq:
  assumes "Handshake_Result h = Inr r" and "length (res_PeerStatic r) = 32"
  shows "finishHandshake A now cfg h =
    (if sc_AllowedClients cfg \<noteq> [] \<and> res_PeerStatic r \<notin> set (sc_AllowedClients cfg) then Inl ErrClientNotPermitted
     else map_result (\<lambda>s. (s, r)) (NewSessionFromHandshake A now (sc_CipherSuite cfg) r))"
proof -
  have "Handshake_Complete h"
    using assms(1) by (auto simp: Handshake_Result_def split: option.splits if_splits)
  then show ?thesis
    using assms by (auto simp: finishHandshake_def isClientAllowed_iff map_result_def split: sum.splits)
qed

text \<open>What either end returns comes from a completed handshake.\<close>

lemma flight_steps:
  assumes "WriteFlight N (Some h) = (hp, r)"
  shows "hp = Some (fst (handshake_step N WriteOp h))"
  using assms by (cases rule: WriteFlight_cases [of N h]) (auto simp: handshake_step_def)

lemma read_steps:
  assumes "ReadFlight N (Some h) wire = (hp, r)"
  shows "hp = Some (fst (handshake_step N (ReadOp wire) h))"
  using assms by (cases rule: ReadFlight_cases [of N h wire]) (auto simp: handshake_step_def)

lemma clientResponse_Inr:
  assumes "clientResponse N late ctxs (Some h) t = (t', Inr result)"
  shows "\<exists>ops. Handshake_Result (Some (handshake_run N ops h)) = Inr result"
proof -
  obtain p h1 h2 flight where steps: "ReadFlight N (Some h) p = (h1, Inr ())"
    "WriteFlight N h1 = (h2, Inr flight)" "Handshake_Result h2 = Inr result"
    using assms
    by (auto simp: clientResponse_def establish_fail_def split: sum.splits option.splits prod.splits) 
  have "h1 = Some (fst (handshake_step N (ReadOp p) h))" using steps(1) by (rule read_steps)
  moreover from this steps(2) have "h2 = Some (fst (handshake_step N WriteOp (the h1)))" using flight_steps by fastforce
  ultimately show ?thesis using steps(3)
    by (intro exI [of _ "[ReadOp p, WriteOp]"]) simp
qed

lemma serverFinal_Inr:
  assumes "serverFinal N A now cfg ctxs (Some h) c = (c', Inr (s, r))"
  shows "\<exists>ops. finishHandshake A now cfg (Some (handshake_run N ops h)) = Inr (s, r)"
proof -
  obtain p h1 where steps: "ReadFlight N (Some h) p = (h1, Inr ())"
    "finishHandshake A now cfg h1 = Inr (s, r)"
    using assms by (auto simp: serverFinal_def split: sum.splits option.splits prod.splits) 
  then show ?thesis using read_steps [OF steps(1)] by (intro exI [of _ "[ReadOp p]"]) simp
qed

lemma establishClient_Inr:
  assumes "establishClient N random cfg late ctxs t = (t', Inr r)"
  shows "\<exists>h ops. NewInitiatorHandshake N random (cl_StaticKey cfg) (cl_ServerStatic cfg) = Inr h
    \<and> Handshake_Result (Some (handshake_run N ops h)) = Inr r"
proof -
  obtain h h1 flight t1 where h: "NewInitiatorHandshake N random (cl_StaticKey cfg) (cl_ServerStatic cfg) = Inr h"
    "WriteFlight N (Some h) = (h1, Inr flight)" "clientResponse N late ctxs h1 t1 = (t', Inr r)"
    using assms by (auto simp: establishClient_def establish_fail_def split: sum.splits option.splits prod.splits)
  have h1: "h1 = Some (fst (handshake_step N WriteOp h))" using h(2) by (rule flight_steps)
  then obtain ops where "Handshake_Result (Some (handshake_run N ops (fst (handshake_step N WriteOp h)))) = Inr r"
    using clientResponse_Inr h(3) by blast
  then have "Handshake_Result (Some (handshake_run N (WriteOp # ops) h)) = Inr r" by simp
  then show ?thesis using h(1) by blast
qed

lemma performHandshake_Inr:
  assumes "performHandshake N A now random cfg ctxs c = (c', Inr (s, r))"
  shows "\<exists>h ops. NewResponderHandshake N random (sc_StaticKey cfg) [] = Inr h
    \<and> finishHandshake A now cfg (Some (handshake_run N ops h)) = Inr (s, r)"
proof -
  obtain h h1 h2 p flight c1 where h: "NewResponderHandshake N random (sc_StaticKey cfg) [] = Inr h"
    "ReadFlight N (Some h) p = (h1, Inr ())" "WriteFlight N h1 = (h2, Inr flight)"
    "serverFinal N A now cfg ctxs h2 c1 = (c', Inr (s, r))"
    using assms by (auto simp: performHandshake_def split: sum.splits option.splits prod.splits)
  let ?h1 = "fst (handshake_step N (ReadOp p) h)"
  have h1: "h1 = Some ?h1" using h(2) by (rule read_steps)
  have h2: "h2 = Some (fst (handshake_step N WriteOp ?h1))" using flight_steps h(3) h1 by blast
  obtain ops where "finishHandshake A now cfg (Some (handshake_run N ops (fst (handshake_step N WriteOp ?h1)))) = Inr (s, r)"
    using serverFinal_Inr h(4) h2 by blast
  then have "finishHandshake A now cfg (Some (handshake_run N (ReadOp p # WriteOp # ops) h)) = Inr (s, r)" by simp
  then show ?thesis using h(1) by blast
qed

lemma run_result_ok:
  assumes "newHandshake N role static pin random prologue = Inr h" and "Handshake_Result (Some (handshake_run N ops h)) = Inr r"
  shows "result_ok pin r"
proof -
  have "handshake_ok (handshake_run N ops h)" by (rule handshake_run_ok [OF assms(1)])
  moreover have "hs_expectedPeer (handshake_run N ops h) = pin"
    using assms(1) by (auto simp: handshake_run_pin elim: newHandshake_Inr)
  ultimately show ?thesis
    using assms(2) by (auto simp: handshake_ok_def Handshake_Result_def split: option.splits if_splits)
qed

lemma crossed_sessions:
  assumes "aead_ok A" and "crossed ki kr rI rR"
  shows "if res_SessionID rI = replicate 16 0 then NewSessionFromHandshake A now' 1 rR = Inl ErrInvalidSessionID
    else \<exists>a b. NewSessionFromHandshake A now 1 rI = Inr a \<and> NewSessionFromHandshake A now' 1 rR = Inr b
           \<and> paired A a b \<and> paired A b a"
proof (cases "res_SessionID rI = replicate 16 0")
  case True
  then show ?thesis using assms(2) by (simp add: NewSessionFromHandshake_def NewSession_def Secrets_def crossed_def)
next
  case False
  have "\<exists>a b. NewSessionFromHandshake A now 1 rI = Inr a \<and> NewSessionFromHandshake A now' 1 rR = Inr b
           \<and> paired A a b \<and> paired A b a"
    unfolding NewSessionFromHandshake_def
    by (rule NewSession_paired [OF assms(1)]) (use False assms(2) in \<open>simp_all add: Secrets_def crossed_def wf_secrets_def\<close>)
  then show ?thesis using False by simp
qed

section \<open>Properties\<close>

text \<open>C6: establishment over a connection. When a client pinned to the server's key and a server exchange
  bytes (each reads what the other writes, in whatever pieces it is written, and no context ends), the
  client succeeds, and the server returns a session unless its allow list excludes the client's key or
  the session identifier is zero; both ends then hold crossed secrets, and sessions opened from them can
  deliver to each other in both directions.\<close>

theorem establishment_agreement:
  assumes N: "noise_xx_ok N" and A: "aead_ok A"
    and wf: "wf_static_key (cl_StaticKey cc)" "wf_static_key (sc_StaticKey sc)" "32 \<le> length ri" "32 \<le> length rr"
    and new: "NewInitiatorHandshake N ri (cl_StaticKey cc) (cl_ServerStatic cc) = Inr i0"
      "NewResponderHandshake N rr (sc_StaticKey sc) [] = Inr r0"
    and pin: "cl_ServerStatic cc = StaticKey_Public (sc_StaticKey sc)" and suite: "sc_CipherSuite sc = 1"
    and live: "\<forall>i. live (cxc i) \<and> live (cxs i)" and progress: "progressing c" "progressing d"
    and run: "establishClient N ri cc late cxc c = (c', rc)" "performHandshake N A now rr sc cxs d = (d', rs)"
    and wires: "conn_out c' = conn_out c @ conn_in d" "conn_out d' = conn_out d @ conn_in c"
  shows "\<exists>rI rR. rc = Inr rI \<and> crossed (cl_StaticKey cc) (sc_StaticKey sc) rI rR
    \<and> rs = (if sc_AllowedClients sc \<noteq> [] \<and> StaticKey_Public (cl_StaticKey cc) \<notin> set (sc_AllowedClients sc)
            then Inl ErrClientNotPermitted
            else map_result (\<lambda>b. (b, rR)) (NewSessionFromHandshake A now 1 rR))
    \<and> (if res_SessionID rI = replicate 16 0 then NewSessionFromHandshake A now 1 rR = Inl ErrInvalidSessionID
       else \<exists>a b. NewSessionFromHandshake A now' 1 rI = Inr a \<and> NewSessionFromHandshake A now 1 rR = Inr b
              \<and> paired A a b \<and> paired A b a)"
proof -
  let ?ki = "cl_StaticKey cc" and ?kr = "sc_StaticKey sc"
  have "handshake_pair N ?ki (cl_ServerStatic cc) i0 ?kr [] r0"
    using N wf new by (auto simp: handshake_pair_def)
  then obtain m1 m2 m3 rI rR where len: "length m1 = 32" "length m2 = 96" "length m3 = 64"
    and f: "pair_flights N ?ki (cl_ServerStatic cc) i0 ?kr [] r0 m1 m2 m3 rI rR" and res: "crossed ?ki ?kr rI rR"
    by (rule handshake_pair_flights)
  let ?f1 = "[1, 0, 0, 0] @ m1"
  from f pin obtain i1 r1 r2 i2 i3 r3 where
    fl: "WriteFlight N (Some i0) = (Some i1, Inr ?f1)" "ReadFlight N (Some r0) ?f1 = (Some r1, Inr ())"
    "WriteFlight N (Some r1) = (Some r2, Inr m2)" "ReadFlight N (Some i1) m2 = (Some i2, Inr ())"
    "WriteFlight N (Some i2) = (Some i3, Inr m3)" "Handshake_Result (Some i3) = Inr rI"
    "ReadFlight N (Some r2) m3 = (Some r3, Inr ())" "Handshake_Result (Some r3) = Inr rR"
    unfolding pair_flights_def StaticKey_Public_def append_Nil by metis
  have f1: "length ?f1 \<le> 96" using len by simp
  let ?c1 = "\<lambda>j. c\<lparr>conn_out := conn_out c @ hs_wire 1 ?f1, conn_writes := j\<rparr>"
  obtain j where cl: "clientResponse N late cxc (Some i1) (?c1 j) = (c', rc)"
    using establishClient_first [OF new(1) fl(1) f1 _ progress(1)] live run(1) by metis
  obtain out where out: "conn_in d = hs_wire 1 ?f1 @ out"
    using clientResponse_out [of N late cxc "Some i1" "?c1 j"] cl wires(1) by auto
  let ?d1 = "\<lambda>j. d\<lparr>conn_in := out, conn_out := conn_out d @ hs_wire 2 m2, conn_writes := j\<rparr>"
  obtain k where sv: "serverFinal N A now sc cxs (Some r2) (?d1 k) = (d', rs)"
    using performHandshake_first [OF new(2) out f1 fl(2,3) len(2) _ _ progress(2)] live run(2) by metis
  have "conn_in c = hs_wire 2 m2"
    using serverFinal_out [of N A now sc cxs "Some r2" "?d1 k"] sv wires(2) by simp
  then obtain l where "clientResponse N late cxc (Some i1) (?c1 j) =
      ((?c1 j)\<lparr>conn_in := [], conn_out := conn_out (?c1 j) @ hs_wire 2 m3, conn_writes := l\<rparr>, Inr rI)"
    using clientResponse_run [of "?c1 j" m2 "[]" cxc N i1 i2 i3 m3 rI late] len live progress(1) fl
    by (auto simp: progressing_def)
  then have rc: "rc = Inr rI" and "conn_out c' = conn_out c @ hs_wire 1 ?f1 @ hs_wire 2 m3"
    using cl by auto
  then have "out = hs_wire 2 m3" using wires(1) out by simp
  then have rs: "rs = finishHandshake A now sc (Some r3)"
    using serverFinal_run [of "?d1 k" m3 "[]" cxs N r2 r3 A now sc] len(3) live fl(7) sv by simp
  have peer: "res_PeerStatic rR = StaticKey_Public ?ki" "length (res_PeerStatic rR) = 32"
    using res wf(1) by (simp_all add: crossed_def StaticKey_Public_def wf_static_key_def)
  have "rs = (if sc_AllowedClients sc \<noteq> [] \<and> StaticKey_Public ?ki \<notin> set (sc_AllowedClients sc)
      then Inl ErrClientNotPermitted else map_result (\<lambda>b. (b, rR)) (NewSessionFromHandshake A now 1 rR))"
    using rs [unfolded finishHandshake_eq [OF fl(8) peer(2)]] peer(1) suite by simp
  then show ?thesis using rc res crossed_sessions [OF A res, of now now'] by blast
qed

lemma sample_conn_progressing: "progressing (sample_conn input)"
  by (simp add: progressing_def)

theorem establishment_agreement_witness:
  "\<exists>c d c' d' rI rR rs. establishClient plain_noise (replicate 32 7) sample_client_config None (\<lambda>_. background) c = (c', Inr rI)
     \<and> performHandshake plain_noise mac_aead (\<lambda>_. 0) (replicate 32 9) sample_server_config' (\<lambda>_. background) d = (d', rs)
     \<and> conn_out c' = conn_in d \<and> conn_out d' = conn_in c \<and> crossed (sample_key 1) (sample_key 2) rI rR"
proof -
  let ?cc = sample_client_config and ?sc = sample_server_config' and ?N = plain_noise
  have cfg: "cl_StaticKey ?cc = sample_key 1" "sc_StaticKey ?sc = sample_key 2" "sc_CipherSuite ?sc = 1"
    "cl_ServerStatic ?cc = StaticKey_Public (sample_key 2)" "length (cl_ServerStatic ?cc) = 32"
    by (simp_all add: sample_client_config_def sample_server_config'_def sample_server_config_def StaticKey_Public_def sample_key_def)
  let ?i0 = "sample_initiator (cl_ServerStatic ?cc)" and ?r0 = sample_responder
  have new: "NewInitiatorHandshake ?N (replicate 32 7) (cl_StaticKey ?cc) (cl_ServerStatic ?cc) = Inr ?i0"
    "NewResponderHandshake ?N (replicate 32 9) (sc_StaticKey ?sc) [] = Inr ?r0"
    using sample_new [OF disjI2 [OF cfg(5)]] cfg(1,2) by simp_all
  obtain m1 m2 m3 rI rR where len: "length m1 = 32" "length m2 = 96" "length m3 = 64"
    and f: "pair_flights ?N (sample_key 1) (cl_ServerStatic ?cc) ?i0 (sample_key 2) [] ?r0 m1 m2 m3 rI rR"
    by (rule handshake_pair_flights [OF sample_pair [OF disjI2 [OF cfg(5)]]])
  let ?f1 = "[1, 0, 0, 0] @ m1"
  from f cfg(4) obtain i1 r1 r2 i2 i3 r3 where
    fl: "WriteFlight ?N (Some ?i0) = (Some i1, Inr ?f1)" "ReadFlight ?N (Some ?r0) ?f1 = (Some r1, Inr ())"
    "WriteFlight ?N (Some r1) = (Some r2, Inr m2)" "ReadFlight ?N (Some i1) m2 = (Some i2, Inr ())"
    "WriteFlight ?N (Some i2) = (Some i3, Inr m3)" "Handshake_Result (Some i3) = Inr rI"
    "ReadFlight ?N (Some r2) m3 = (Some r3, Inr ())"
    unfolding pair_flights_def StaticKey_Public_def append_Nil by metis
  have f1: "length ?f1 \<le> 96" using len by simp
  let ?c = "sample_conn (hs_wire 2 m2)" and ?d = "sample_conn (hs_wire 1 ?f1 @ hs_wire 2 m3)"
  obtain j where "establishClient ?N (replicate 32 7) ?cc None (\<lambda>_. background) ?c =
      clientResponse ?N None (\<lambda>_. background) (Some i1) (?c\<lparr>conn_out := hs_wire 1 ?f1, conn_writes := j\<rparr>)"
    using establishClient_first [where t = ?c, OF new(1) fl(1) f1 live_background sample_conn_progressing] by fastforce
  then obtain l where c: "establishClient ?N (replicate 32 7) ?cc None (\<lambda>_. background) ?c =
      (?c\<lparr>conn_in := [], conn_out := hs_wire 1 ?f1 @ hs_wire 2 m3, conn_writes := l\<rparr>, Inr rI)"
    using clientResponse_run [where t = "?c\<lparr>conn_out := hs_wire 1 ?f1, conn_writes := j\<rparr>" and rest = "[]" and ctxs = "\<lambda>_. background",
        OF _ len(2) live_background live_background _ fl(4,5) len(3) fl(6)] by (auto simp: progressing_def)
  obtain k where d: "performHandshake ?N mac_aead (\<lambda>_. 0) (replicate 32 9) ?sc (\<lambda>_. background) ?d =
      serverFinal ?N mac_aead (\<lambda>_. 0) ?sc (\<lambda>_. background) (Some r2) (?d\<lparr>conn_in := hs_wire 2 m3, conn_out := hs_wire 2 m2, conn_writes := k\<rparr>)"
    using performHandshake_first [where c = ?d and ctxs = "\<lambda>_. background", OF new(2) _ f1 fl(2,3) len(2) live_background live_background
        sample_conn_progressing] by fastforce
  obtain d' rs where d': "performHandshake ?N mac_aead (\<lambda>_. 0) (replicate 32 9) ?sc (\<lambda>_. background) ?d = (d', rs)" by fastforce
  then have "conn_out d' = hs_wire 2 m2"
    using serverFinal_out [of ?N mac_aead "\<lambda>_. 0" ?sc "\<lambda>_. background" "Some r2"
        "?d\<lparr>conn_in := hs_wire 2 m3, conn_out := hs_wire 2 m2, conn_writes := k\<rparr>", folded d] by simp
  then have wires: "conn_out d' = conn_out ?d @ conn_in ?c" by simp
  obtain c' where c': "establishClient ?N (replicate 32 7) ?cc None (\<lambda>_. background) ?c = (c', Inr rI)"
    "conn_out c' = conn_out ?c @ conn_in ?d" using c by simp
  have "\<exists>rI' rR'. Inr rI = Inr rI' \<and> crossed (cl_StaticKey ?cc) (sc_StaticKey ?sc) rI' rR'"
    using establishment_agreement [where cxc = "\<lambda>_. background" and cxs = "\<lambda>_. background",
        OF plain_noise_ok mac_aead_ok _ _ _ _ new _ cfg(3) _ sample_conn_progressing sample_conn_progressing c'(1) d' c'(2) wires]
      sample_key_valid(1) [of 1] sample_key_valid(1) [of 2] cfg live_background by simp blast
  then show ?thesis using c' d' wires cfg(1,2) by (metis append_Nil sample_conn_simps(2) sum.inject(2))
qed

lemma client_authenticates:
  assumes "establishClient N random cc late ctxs t = (t', Inr r)"
  shows "cl_ServerStatic cc = [] \<or> res_PeerStatic r = cl_ServerStatic cc"
proof -
  obtain h ops where "newHandshake N roleInitiator (cl_StaticKey cc) (cl_ServerStatic cc) random (str ''DGPv1'') = Inr h"
    "Handshake_Result (Some (handshake_run N ops h)) = Inr r"
    using establishClient_Inr [OF assms] unfolding NewInitiatorHandshake_def by blast
  then show ?thesis using run_result_ok unfolding result_ok_def by blast
qed

lemma server_authenticates:
  assumes "performHandshake N A now random sc ctxs t = (t', Inr (s, q))"
  shows "length (res_PeerStatic q) = 32 \<and> (sc_AllowedClients sc = [] \<or> res_PeerStatic q \<in> set (sc_AllowedClients sc))
    \<and> NewSessionFromHandshake A now (sc_CipherSuite sc) q = Inr s"
proof -
  obtain h ops where h: "newHandshake N roleResponder (sc_StaticKey sc) [] random (str ''DGPv1'') = Inr h"
    "finishHandshake A now sc (Some (handshake_run N ops h)) = Inr (s, q)"
    using performHandshake_Inr [OF assms] unfolding NewResponderHandshake_def by blast
  then have q: "Handshake_Result (Some (handshake_run N ops h)) = Inr q"
    by (auto simp: finishHandshake_def split: if_splits sum.splits)
  then have len: "length (res_PeerStatic q) = 32" using run_result_ok [OF h(1)] by (simp add: result_ok_def)
  then show ?thesis
    using h(2) [unfolded finishHandshake_eq [OF q len]] by (auto simp: map_result_def split: if_splits sum.splits)
qed

text \<open>C7: authentication at both ends. However the peer and the network behave, a client that
  establishes has authenticated exactly the pinned server key, and a server that returns a session has
  authenticated a 32-byte key that is on its allow list if there is one, and opened the session from
  that handshake's secrets.\<close>

theorem establishment_authenticates:
  "(case snd (establishClient N random cc late ctxs t) of
      Inl _ \<Rightarrow> True
    | Inr r \<Rightarrow> cl_ServerStatic cc = [] \<or> res_PeerStatic r = cl_ServerStatic cc)
   \<and> (case snd (performHandshake N A now random sc ctxs t) of
        Inl _ \<Rightarrow> True
      | Inr (s, q) \<Rightarrow>
          length (res_PeerStatic q) = 32 \<and> (sc_AllowedClients sc = [] \<or> res_PeerStatic q \<in> set (sc_AllowedClients sc))
          \<and> NewSessionFromHandshake A now (sc_CipherSuite sc) q = Inr s)"
  using client_authenticates [of N random cc late ctxs t] server_authenticates [of N A now random sc ctxs t]
  by (cases "establishClient N random cc late ctxs t"; cases "performHandshake N A now random sc ctxs t")
    (auto split: sum.splits)

end
