(* ===== verification/Connection.thy ===== *)
theory Connection
  imports Establish
begin

text \<open>
  \<^verbatim>\<open>connection*.go\<close>: the runtime of an established session. This theory has the state and the
  operations; \<^verbatim>\<open>Connection_Runtime\<close> runs them as concurrent processes.

  A buffered channel is the list of its elements, with its capacity; a channel used as a wakeup
  of capacity one is a \<open>bool\<close>. A completion or result channel is a number, and \<open>cn_results\<close> is what has been
  sent on such channels, in order. \<open>cn_cause\<close> is the cause the connection's context was
  cancelled with, \<open>None\<close> while it is not. A \<^verbatim>\<open>sync.Once\<close> is whether it was entered. A \<^verbatim>\<open>select\<close> that
  may have several ready cases is the list of its possible outcomes; an empty list means that it
  blocks. Contexts given by callers appear as what they report when they are consulted.
\<close>

section \<open>State\<close>

record queued_message =
  qm_message :: any_message
  qm_padLength :: u8
  qm_completion :: "nat option"

record close_request =
  cr_message :: session_close
  cr_cause :: dg_error
  cr_result :: nat

record 'c connection =
  cn_session :: "'c session"
  cn_transportClosed :: bool
  cn_config :: connection_config
  cn_cause :: "dg_error option"
  cn_outbound :: "queued_message list"
  cn_control :: "queued_message list"
  cn_closeRequest :: "close_request list"
  cn_activity :: bool
  cn_pong :: bool
  cn_handlerQueue :: "message list"
  cn_done :: bool
  cn_startOnce :: bool
  cn_shutdownOnce :: bool
  cn_closeOnce :: bool
  cn_terminal :: "dg_error option"
  cn_started :: bool
  cn_closing :: bool
  cn_pingNonce :: u64
  cn_pingExpected :: u64
  cn_pingAcknowledged :: bool
  cn_results :: "(nat \<times> dg_error option) list"

section \<open>connection.go\<close>

definition NewConnection :: "conn option \<Rightarrow> 'c session option \<Rightarrow> connection_config \<Rightarrow> 'c connection result" where
  "NewConnection transport session config =
     (case (transport, session) of
        (Some _, Some s) \<Rightarrow>
          Inr \<lparr>cn_session = s, cn_transportClosed = False, cn_config = connectionDefaults config, cn_cause = None,
               cn_outbound = [], cn_control = [], cn_closeRequest = [], cn_activity = False, cn_pong = False,
               cn_handlerQueue = [], cn_done = False, cn_startOnce = False, cn_shutdownOnce = False,
               cn_closeOnce = False, cn_terminal = None, cn_started = False, cn_closing = False, cn_pingNonce = 0,
               cn_pingExpected = 0, cn_pingAcknowledged = False, cn_results = []\<rparr>
      | _ \<Rightarrow> Inl Panic)"

section \<open>connection_send.go\<close>

datatype queue = OutboundQ | ControlQ

fun queue_items :: "queue \<Rightarrow> 'c connection \<Rightarrow> queued_message list" where
  "queue_items OutboundQ c = cn_outbound c"
| "queue_items ControlQ c = cn_control c"

text \<open>The capacities \<^verbatim>\<open>NewConnection\<close> makes the channels with.\<close>

fun queue_capacity :: "queue \<Rightarrow> 'c connection \<Rightarrow> nat" where
  "queue_capacity OutboundQ c = nat (cc_OutboundQueue (cn_config c))"
| "queue_capacity ControlQ c = 16"

fun queue_push :: "queue \<Rightarrow> queued_message \<Rightarrow> 'c connection \<Rightarrow> 'c connection" where
  "queue_push OutboundQ item c = c\<lparr>cn_outbound := cn_outbound c @ [item]\<rparr>"
| "queue_push ControlQ item c = c\<lparr>cn_control := cn_control c @ [item]\<rparr>"

definition queue_ready :: "queue \<Rightarrow> 'c connection \<Rightarrow> bool" where
  "queue_ready q c \<longleftrightarrow> length (queue_items q c) < queue_capacity q c"

text \<open>The exported send methods, and what each passes on to \<^verbatim>\<open>enqueue\<close>: message, padding, whether it waits
  for capacity, and whether it makes a completion channel.\<close>

datatype send_call = SendCall any_message | TrySend any_message | SendPadded any_message u8
  | SendContext any_message | SendPaddedContext any_message u8
  | SendAndWait any_message | SendPaddedAndWait any_message u8

fun send_arguments :: "send_call \<Rightarrow> any_message \<times> u8 \<times> bool \<times> bool" where
  "send_arguments (SendPadded message padLength) = (message, padLength, False, False)"
| "send_arguments (SendCall message) = (message, 0, False, False)"
| "send_arguments (TrySend message) = (message, 0, False, False)"
| "send_arguments (SendPaddedContext message padLength) = (message, padLength, True, False)"
| "send_arguments (SendContext message) = (message, 0, True, False)"
| "send_arguments (SendPaddedAndWait message padLength) = (message, padLength, True, True)"
| "send_arguments (SendAndWait message) = (message, 0, True, True)"

text \<open>\<^verbatim>\<open>enqueueChannel\<close>: the two checks made under the read lease, the select of a call that does not wait, and
  the outcomes of the select of a call that does.\<close>

definition enqueueGuard :: "dg_error option \<Rightarrow> 'c connection \<Rightarrow> dg_error option" where
  "enqueueGuard ctxErr c =
     (case ctxErr of Some err \<Rightarrow> Some err | None \<Rightarrow> if cn_closing c then Some ErrConnectionClosed else None)"

definition enqueueTry :: "queue \<Rightarrow> queued_message \<Rightarrow> 'c connection \<Rightarrow> 'c connection \<times> dg_error option" where
  "enqueueTry q item c =
     (if queue_ready q c then (queue_push q item c, None) else (c, Some ErrOutboundQueueFull))"

definition enqueueSelect ::
  "dg_error option \<Rightarrow> queue \<Rightarrow> queued_message \<Rightarrow> 'c connection \<Rightarrow> ('c connection \<times> dg_error option) list" where
  "enqueueSelect ctxErr q item c =
     (case ctxErr of Some err \<Rightarrow> [(c, Some err)] | None \<Rightarrow> [])
     @ (if cn_cause c \<noteq> None then [(c, Some ErrConnectionClosed)] else [])
     @ (if queue_ready q c then [(queue_push q item c, None)] else [])"

text \<open>The wait of \<^verbatim>\<open>SendPaddedAndWait\<close> for the completion channel \<open>i\<close>.\<close>

definition awaitCompletion :: "dg_error option \<Rightarrow> nat \<Rightarrow> 'c connection \<Rightarrow> dg_error option list" where
  "awaitCompletion ctxErr i c =
     (case map_of (cn_results c) i of Some r \<Rightarrow> [r] | None \<Rightarrow> [])
     @ (case ctxErr of Some err \<Rightarrow> [Some err] | None \<Rightarrow> [])
     @ (case cn_cause c of
          Some cause \<Rightarrow> [case map_of (cn_results c) i of Some r \<Rightarrow> r | None \<Rightarrow> Some cause]
        | None \<Rightarrow> [])"

text \<open>\<^verbatim>\<open>enqueueControl\<close> gives \<^verbatim>\<open>enqueueChannel\<close> the connection's own context and an item without padding or
  completion channel.\<close>

definition control_context :: "'c connection \<Rightarrow> dg_error option" where
  "control_context c = (if cn_cause c \<noteq> None then Some ErrCanceled else None)"

definition control_item :: "any_message \<Rightarrow> queued_message" where
  "control_item message = \<lparr>qm_message = message, qm_padLength = 0, qm_completion = None\<rparr>"

definition complete_item :: "queued_message \<Rightarrow> dg_error option \<Rightarrow> 'c connection \<Rightarrow> 'c connection" where
  "complete_item item err c =
     (case qm_completion item of
        Some i \<Rightarrow> c\<lparr>cn_results := cn_results c @ [(i, err)]\<rparr>
      | None \<Rightarrow> c)"

text \<open>\<^verbatim>\<open>failPending\<close>: the error it reports, and the outcomes of one turn of its loop (none: it returns).\<close>

definition report_close :: "close_request \<Rightarrow> dg_error option \<Rightarrow> 'c connection \<Rightarrow> 'c connection" where
  "report_close request err c = c\<lparr>cn_results := cn_results c @ [(cr_result request, err)]\<rparr>"

definition pendingError :: "'c connection \<Rightarrow> dg_error" where
  "pendingError c = (case cn_cause c of Some cause \<Rightarrow> cause | None \<Rightarrow> ErrConnectionClosed)"

definition failPendingStep :: "dg_error \<Rightarrow> 'c connection \<Rightarrow> 'c connection list" where
  "failPendingStep err c =
     (case cn_control c of item # rest \<Rightarrow> [complete_item item (Some err) (c\<lparr>cn_control := rest\<rparr>)] | [] \<Rightarrow> [])
     @ (case cn_outbound c of item # rest \<Rightarrow> [complete_item item (Some err) (c\<lparr>cn_outbound := rest\<rparr>)] | [] \<Rightarrow> [])
     @ (case cn_closeRequest c of
          request # rest \<Rightarrow> [report_close request (Some err) (c\<lparr>cn_closeRequest := rest\<rparr>)] | [] \<Rightarrow> [])"

text \<open>With no other process running the loop takes its first ready case each time.\<close>

fun pending_count :: "'c connection \<Rightarrow> nat" where
  "pending_count c = length (cn_control c) + length (cn_outbound c) + length (cn_closeRequest c)"

lemma failPendingStep_smaller: "c' \<in> set (failPendingStep err c) \<Longrightarrow> pending_count c' < pending_count c"
  by (cases "cn_control c"; cases "cn_outbound c"; cases "cn_closeRequest c")
    (auto simp: failPendingStep_def complete_item_def report_close_def split: option.splits)

lemma failPendingStep_first: "failPendingStep err c = c' # cs \<Longrightarrow> pending_count c' < pending_count c"
  by (rule failPendingStep_smaller [of _ err]) simp

function failPending_loop :: "dg_error \<Rightarrow> 'c connection \<Rightarrow> 'c connection" where
  "failPending_loop err c = (case failPendingStep err c of [] \<Rightarrow> c | c' # _ \<Rightarrow> failPending_loop err c')"
  by pat_completeness auto
termination
  by (relation "measure (\<lambda>(err, c). pending_count c)")
    (simp_all del: pending_count.simps add: failPendingStep_first)

declare failPending_loop.simps [simp del]

definition failPending :: "'c connection \<Rightarrow> 'c connection" where
  "failPending c = failPending_loop (pendingError c) c"

text \<open>\<^verbatim>\<open>writeMessage\<close>: \<open>i\<close> counts the iterations, \<open>reader i\<close> and \<open>cxs i\<close> are the entropy and the operation
  context of the \<open>i\<close>-th, \<open>now j\<close> is the clock in the \<open>j\<close>-th call of a session method. The loop ends: an iteration that goes round has raised
  the send epoch.\<close>

lemma NewFrame_type: "NewFrame t sid sq p tag padding = Inr f \<Longrightarrow> h_MessageType (f_Header f) = t"
  by (auto simp: NewFrame_def NewHeader_def Let_def split: if_splits)

lemma rekey_round_epoch:
  assumes "Session_Send A clk rd (Some s) m pad = (Some s1, Inr f)" and "h_MessageType (f_Header f) = 8"
    and "MarkRekeySent clk' (Some s1) f = (Some s2, None)"
  shows "sendEpoch s \<noteq> - 1 \<and> sendEpoch s2 = sendEpoch s + 1"
proof -
  obtain t p where m: "outboundMessage m = Inr (t, p)"
    using assms(1) by (auto simp: Session_Send_def split: sum.splits)
  have t: "t \<noteq> 8"
  proof -
    have "outboundType x = Inr t \<Longrightarrow> t \<noteq> 8" for x by (cases x) auto
    then show ?thesis using m by (cases m) (auto split: sum.splits)
  qed
  obtain plain where sp: "sendPayload A clk rd s t plain pad = (s1, Inr f)"
    using assms(1) m by (auto simp: Session_Send_def lift_session_def split: sum.splits) (metis prod.collapse)
  have "rekeyDueLocked clk s"
  proof (rule ccontr)
    assume "\<not> rekeyDueLocked clk s"
    then have "\<exists>sq. Codec_Encrypt A (send s) rd t (sessionID s) sq plain pad = Inr f"
      using sp by (auto simp: sendPayload_def encryptLocked_def Let_def split: if_splits sum.splits)
    then have "h_MessageType (f_Header f) = t"
      by (auto simp: Codec_Encrypt_def Let_def split: option.splits sum.splits if_splits dest: NewFrame_type)
    then show False using assms(2) t by simp
  qed
  then have start: "startRekeyLocked A rd s pad = (s1, Inr f)"
    using sp by (auto simp: sendPayload_def split: if_splits)
  then have "sendEpoch s \<noteq> - 1 \<and> (\<exists>q. pendingRekey s1 = Some q \<and> pr_epoch q = sendEpoch s + 1)"
    by (auto simp: startRekeyLocked_def Let_def split: if_splits sum.splits prod.splits)
  then show ?thesis
    using assms(3) by (auto simp: MarkRekeySent_def split: if_splits)
qed

lemma epoch_measure:
  assumes "(e :: u32) \<noteq> - 1"
  shows "unat (- 2 - e) < unat (- 1 - e)"
proof -
  have "- 2 - e \<noteq> - 1" using assms by (simp add: algebra_simps)
  then have "unat (- 2 - e + 1) = unat (- 2 - e) + 1" using word_successor by blast
  then show ?thesis by simp
qed

function writeMessage ::
  "'c aead \<Rightarrow> (nat \<Rightarrow> clock) \<Rightarrow> (nat \<Rightarrow> bytes) \<Rightarrow> (nat \<Rightarrow> ctx) \<Rightarrow> nat \<Rightarrow> queued_message \<Rightarrow> 'c session \<Rightarrow> conn \<Rightarrow>
   'c session \<times> conn \<times> dg_error option" where
  "writeMessage A now reader cxs i item s t =
     (case Session_Send A (now (2 * i)) (reader i) (Some s) (qm_message item) (qm_padLength item) of
        (Some s', Inr f) \<Rightarrow>
          (case WriteFrame (cxs i) t f of
             (t, Some err) \<Rightarrow> (s', t, Some err)
           | (t, None) \<Rightarrow>
               if h_MessageType (f_Header f) \<noteq> MessageTypeRekeyInit then (s', t, None)
               else (case MarkRekeySent (now (2 * i + 1)) (Some s') f of
                       (Some s'', None) \<Rightarrow> writeMessage A now reader cxs (Suc i) item s'' t
                     | (sp, err) \<Rightarrow> (case sp of Some s'' \<Rightarrow> s'' | None \<Rightarrow> s', t, err)))
      | (sp, Inl err) \<Rightarrow> (case sp of Some s' \<Rightarrow> s' | None \<Rightarrow> s, t, Some err)
      | (None, Inr f) \<Rightarrow> (s, t, Some Panic))"
  by pat_completeness auto
termination
  by (relation "measure (\<lambda>(A, now, reader, cxs, i, item, s, t). unat (- 1 - sendEpoch s))")
    (auto dest!: sym [where t = "Session_Send _ _ _ _ _ _"] sym [where t = "MarkRekeySent _ _ _"] rekey_round_epoch
      intro: epoch_measure)

declare writeMessage.simps [simp del]

section \<open>connection_keepalive.go\<close>

definition beginPing :: "'c connection \<Rightarrow> 'c connection \<times> u64" where
  "beginPing c =
     (if cn_cause c \<noteq> None then (c, 0)
      else
        (let pingNonce = cn_pingNonce c + 1;
             pingNonce = (if pingNonce = 0 then 1 else pingNonce)
         in (c\<lparr>cn_pingExpected := pingNonce, cn_pingAcknowledged := False, cn_pingNonce := pingNonce\<rparr>, pingNonce)))"

definition clearPing :: "'c connection \<Rightarrow> 'c connection" where
  "clearPing c = c\<lparr>cn_pingExpected := 0, cn_pingAcknowledged := False\<rparr>"

definition acknowledgePing :: "u64 \<Rightarrow> 'c connection \<Rightarrow> 'c connection" where
  "acknowledgePing pingNonce c =
     (if cn_pingExpected c = 0 \<or> pingNonce \<noteq> cn_pingExpected c \<or> cn_cause c \<noteq> None then c
      else c\<lparr>cn_pingExpected := 0, cn_pingAcknowledged := True, cn_pong := True\<rparr>)"

definition consumePingAcknowledgement :: "'c connection \<Rightarrow> 'c connection \<times> bool" where
  "consumePingAcknowledgement c = (c\<lparr>cn_pingAcknowledged := False\<rparr>, cn_pingAcknowledged c)"

definition noteActivity :: "'c connection \<Rightarrow> 'c connection" where
  "noteActivity c = c\<lparr>cn_activity := True\<rparr>"

section \<open>connection_lifecycle.go\<close>

definition recordTerminal :: "dg_error \<Rightarrow> 'c connection \<Rightarrow> 'c connection" where
  "recordTerminal cause c = (if cn_terminal c = None then c\<lparr>cn_terminal := Some cause\<rparr> else c)"

definition Connection_Err :: "'c connection \<Rightarrow> dg_error option" where
  "Connection_Err c = cn_terminal c"

text \<open>The first lines of \<^verbatim>\<open>shutdown\<close>, and the parts of the body that runs once.\<close>

definition shutdownEnter :: "dg_error option \<Rightarrow> 'c connection \<Rightarrow> 'c connection" where
  "shutdownEnter cause c =
     recordTerminal (case cause of Some e \<Rightarrow> e | None \<Rightarrow> ErrConnectionClosed) c"

definition shutdownCancel :: "dg_error \<Rightarrow> 'c connection \<Rightarrow> 'c connection" where
  "shutdownCancel cause c =
     c\<lparr>cn_cause := (case cn_cause c of Some e \<Rightarrow> Some e | None \<Rightarrow> Some cause)\<rparr>"

definition disposeQueues :: "'c connection \<Rightarrow> 'c connection" where
  "disposeQueues c = (failPending c)\<lparr>cn_handlerQueue := []\<rparr>"

definition closeSession :: "'c connection \<Rightarrow> 'c connection" where
  "closeSession c =
     c\<lparr>cn_session := (case fst (Session_Close (Some (cn_session c))) of Some s \<Rightarrow> s | None \<Rightarrow> cn_session c)\<rparr>"

definition shutdown :: "dg_error option \<Rightarrow> 'c connection \<Rightarrow> 'c connection" where
  "shutdown cause c =
     (let c = shutdownEnter cause c
      in if cn_shutdownOnce c then c
         else
           (let c = c\<lparr>cn_shutdownOnce := True\<rparr>;
                c = c\<lparr>cn_closing := True\<rparr>;
                c = shutdownCancel (case cause of Some e \<Rightarrow> e | None \<Rightarrow> ErrConnectionClosed) c;
                c = clearPing c;
                c = disposeQueues c;
                c = closeSession c
            in c\<lparr>cn_transportClosed := True\<rparr>))"

text \<open>\<^verbatim>\<open>closeGracefully\<close> behind the publication of the cause: it returns, or it has claimed a
  runtime that was never started (and goes on to shut it down and close \<^verbatim>\<open>done\<close>), or it has a close
  message to submit to the writer.\<close>

datatype close_next = CloseReturns "dg_error option" | CloseUnstarted | CloseRequests close_request

definition closeClaim ::
  "session_close \<Rightarrow> dg_error \<Rightarrow> nat \<Rightarrow> 'c connection \<Rightarrow> 'c connection \<times> close_next" where
  "closeClaim message cause channel c =
     (if \<not> cn_startOnce c then (c\<lparr>cn_startOnce := True\<rparr>, CloseUnstarted)
      else if \<not> cn_started c then (c, CloseReturns None)
      else if cn_cause c \<noteq> None then (c, CloseReturns (cn_cause c))
      else (c, CloseRequests \<lparr>cr_message = message, cr_cause = cause, cr_result = channel\<rparr>))"

text \<open>The select that submits the request: it is taken, or the connection is cancelled, or the timer
  fires. Then the wait for the result.\<close>

datatype close_submit = Submitted | NotSubmitted "dg_error option"

definition closeSubmit :: "bool \<Rightarrow> close_request \<Rightarrow> 'c connection \<Rightarrow> ('c connection \<times> close_submit) list" where
  "closeSubmit expired request c =
     (if length (cn_closeRequest c) < 1
      then [(c\<lparr>cn_closeRequest := cn_closeRequest c @ [request]\<rparr>, Submitted)] else [])
     @ (if cn_cause c \<noteq> None then [(c, NotSubmitted (cn_cause c))] else [])
     @ (if expired then [(c, NotSubmitted (Some ErrDeadlineExceeded))] else [])"

definition closeAwait :: "bool \<Rightarrow> nat \<Rightarrow> 'c connection \<Rightarrow> dg_error option list" where
  "closeAwait expired channel c =
     (case map_of (cn_results c) channel of Some r \<Rightarrow> [r] | None \<Rightarrow> [])
     @ (case cn_cause c of
          Some cause \<Rightarrow> [case map_of (cn_results c) channel of Some r \<Rightarrow> r | None \<Rightarrow> Some cause]
        | None \<Rightarrow> [])
     @ (if expired then [Some ErrDeadlineExceeded] else [])"

text \<open>The body of \<^verbatim>\<open>Start\<close> that runs once: nothing if it was claimed, a context that is already
  cancelled (it goes on to shut down and close \<^verbatim>\<open>done\<close>), or the loops are started.\<close>

datatype start_next = StartNothing | StartCancelled dg_error | StartLoops

definition Connection_Start :: "dg_error option \<Rightarrow> 'c connection \<Rightarrow> 'c connection \<times> start_next" where
  "Connection_Start ctxErr c =
     (if cn_startOnce c then (c, StartNothing)
      else
        (let c = c\<lparr>cn_startOnce := True\<rparr>
         in case ctxErr of
              Some err \<Rightarrow> (c, StartCancelled err)
            | None \<Rightarrow> (c\<lparr>cn_started := True\<rparr>, StartLoops)))"

section \<open>connection_receive.go\<close>

text \<open>What the read loop does with a message it received and noted: go on, enqueue a pong, pass it to the
  handler queue, or shut down.\<close>

datatype read_next = ReadMore | SendPong any_message | DeliverMessage | StopReading dg_error

definition readDispatch :: "message \<Rightarrow> 'c connection \<Rightarrow> 'c connection \<times> read_next" where
  "readDispatch m c =
     (case m of
        MPingPong p \<Rightarrow>
          if pp_IsResponse p then (acknowledgePing (pp_Nonce p) c, ReadMore)
          else (c, SendPong (Val (MPingPong \<lparr>pp_IsResponse = True, pp_Nonce = pp_Nonce p\<rparr>)))
      | MRekeyInit _ \<Rightarrow> (c, ReadMore)
      | MSessionClose _ \<Rightarrow> (c, StopReading ErrConnectionClosed)
      | _ \<Rightarrow> (c, if cc_Handler (cn_config c) then DeliverMessage else ReadMore))"

text \<open>The select that puts a message into the handler queue.\<close>

definition deliverMessage :: "message \<Rightarrow> 'c connection \<Rightarrow> 'c connection \<times> dg_error option" where
  "deliverMessage m c =
     (if length (cn_handlerQueue c) < nat (cc_HandlerQueue (cn_config c))
      then (c\<lparr>cn_handlerQueue := cn_handlerQueue c @ [m]\<rparr>, None)
      else (c, Some ErrHandlerQueueFull))"

text \<open>How a handler call ends.\<close>

datatype handler_end = HandlerReturns "dg_error option" | HandlerPanics

definition callHandler :: "handler_end \<Rightarrow> dg_error option" where
  "callHandler e = (case e of HandlerReturns err \<Rightarrow> err | HandlerPanics \<Rightarrow> Some ErrHandlerPanic)"

text \<open>\<open>finished\<close> is how the handler ended, or \<open>None\<close> when the shutdown timer fired first. The timer is set up only
  with a positive bound and once the connection is cancelled; otherwise it cannot fire.\<close>

definition callHandlerBounded :: "'c connection \<Rightarrow> handler_end option \<Rightarrow> dg_error option option" where
  "callHandlerBounded c finished =
     (case finished of
        Some e \<Rightarrow> Some (callHandler e)
      | None \<Rightarrow>
          if cc_HandlerShutdownTimeout (cn_config c) > 0 \<and> cn_cause c \<noteq> None then Some None else None)"

section \<open>The maintenance loop\<close>

text \<open>The variables of \<^verbatim>\<open>maintenanceLoop\<close>. A timer is the instant it fires next; \<open>mt_keepalive\<close> is whether the
  keepalive channel of the select is set, \<open>mt_pongDeadline\<close> the pong timer if its channel is set.\<close>

record maintenance =
  mt_idleTimer :: "time option"
  mt_keepaliveTimer :: "time option"
  mt_keepalive :: bool
  mt_pongDeadline :: "time option"
  mt_outstanding :: u64

datatype maint_event = MCancelled | MActivity | MPong | MKeepalive | MPongDeadline | MIdle

datatype maint_next = MaintMore | MaintConsumes | MaintPings u64 | MaintReturns | MaintShutdown dg_error | MaintCloses session_close dg_error

definition maintenanceInit :: "time \<Rightarrow> connection_config \<Rightarrow> maintenance" where
  "maintenanceInit t config =
     \<lparr>mt_idleTimer = (if cc_IdleTimeout config > 0 then Some (t + cc_IdleTimeout config) else None),
      mt_keepaliveTimer = (if cc_KeepaliveInterval config > 0 then Some (t + cc_KeepaliveInterval config) else None),
      mt_keepalive = (cc_KeepaliveInterval config > 0), mt_pongDeadline = None, mt_outstanding = 0\<rparr>"

definition resetTimer :: "time \<Rightarrow> time option \<Rightarrow> time \<Rightarrow> time option" where
  "resetTimer t timer duration = (case timer of None \<Rightarrow> None | Some _ \<Rightarrow> Some (t + duration))"

text \<open>Which cases of the select can be taken at time \<open>t\<close>.\<close>

definition maintenanceReady :: "time \<Rightarrow> maint_event \<Rightarrow> maintenance \<Rightarrow> 'c connection \<Rightarrow> bool" where
  "maintenanceReady t ev m c =
     (case ev of
        MCancelled \<Rightarrow> cn_cause c \<noteq> None
      | MActivity \<Rightarrow> cn_activity c
      | MPong \<Rightarrow> cn_pong c
      | MKeepalive \<Rightarrow> mt_keepalive m \<and> (case mt_keepaliveTimer m of Some at \<Rightarrow> at \<le> t | None \<Rightarrow> False)
      | MPongDeadline \<Rightarrow> (case mt_pongDeadline m of Some at \<Rightarrow> at \<le> t | None \<Rightarrow> False)
      | MIdle \<Rightarrow> (case mt_idleTimer m of Some at \<Rightarrow> at \<le> t | None \<Rightarrow> False))"

definition keepaliveRestart :: "time \<Rightarrow> connection_config \<Rightarrow> maintenance \<Rightarrow> maintenance" where
  "keepaliveRestart t config m =
     m\<lparr>mt_outstanding := 0, mt_pongDeadline := None,
       mt_keepaliveTimer := resetTimer t (mt_keepaliveTimer m) (cc_KeepaliveInterval config), mt_keepalive := True\<rparr>"

text \<open>The select case of the pong wakeup behind the receive, and the two ways the case of the keepalive timer
  goes on behind the ping.\<close>

definition pongConsume :: "time \<Rightarrow> maintenance \<Rightarrow> 'c connection \<Rightarrow> maintenance \<times> 'c connection" where
  "pongConsume t m c =
     (case consumePingAcknowledgement c of
        (c, acknowledged) \<Rightarrow> (if acknowledged then keepaliveRestart t (cn_config c) m else m, c))"

definition keepaliveSent :: "time \<Rightarrow> connection_config \<Rightarrow> maintenance \<Rightarrow> maintenance" where
  "keepaliveSent t config m =
     m\<lparr>mt_pongDeadline := Some (t + cc_KeepaliveTimeout config), mt_keepalive := False\<rparr>"

definition keepaliveFailed :: "time \<Rightarrow> connection_config \<Rightarrow> maintenance \<Rightarrow> maintenance" where
  "keepaliveFailed t config m =
     m\<lparr>mt_outstanding := 0,
       mt_keepaliveTimer := resetTimer t (mt_keepaliveTimer m) (cc_KeepaliveInterval config)\<rparr>"

definition maintenanceStep ::
  "time \<Rightarrow> maint_event \<Rightarrow> maintenance \<Rightarrow> 'c connection \<Rightarrow> maintenance \<times> 'c connection \<times> maint_next" where
  "maintenanceStep t ev m c =
     (case ev of
        MCancelled \<Rightarrow> (m, c, MaintReturns)
      | MActivity \<Rightarrow>
          (m\<lparr>mt_idleTimer := resetTimer t (mt_idleTimer m) (cc_IdleTimeout (cn_config c))\<rparr>,
           c\<lparr>cn_activity := False\<rparr>, MaintMore)
      | MPong \<Rightarrow> (m, c\<lparr>cn_pong := False\<rparr>, if mt_outstanding m \<noteq> 0 then MaintConsumes else MaintMore)
      | MKeepalive \<Rightarrow>
          if mt_outstanding m \<noteq> 0 then (m, c, MaintMore)
          else (case beginPing c of
                  (c, pingNonce) \<Rightarrow>
                    (m\<lparr>mt_outstanding := pingNonce\<rparr>, c, if pingNonce = 0 then MaintReturns else MaintPings pingNonce))
      | MPongDeadline \<Rightarrow>
          (case consumePingAcknowledgement c of
             (c, acknowledged) \<Rightarrow>
               if acknowledged then (keepaliveRestart t (cn_config c) m, c, MaintMore)
               else (m, c, MaintShutdown ErrKeepaliveTimeout))
      | MIdle \<Rightarrow>
          (m, c, MaintCloses \<lparr>sc_Code = 3, sc_Reason = str ''idle timeout''\<rparr> ErrIdleTimeout))"

end
