(* ===== verification/Connection_Runtime.thy ===== *)
theory Connection_Runtime
  imports Connection
begin

text \<open>
  The goroutines of a connection as one state machine. The state has the connection and the program
  point of each process: callers of the send methods, the writer, the reader, the handler
  worker, the maintenance loop, the watcher of the caller's context, the goroutine that joins the
  loops, the body of \<^verbatim>\<open>closeGracefully\<close>, running calls of \<^verbatim>\<open>shutdown\<close> and its once-only body. An event
  says which process moves and resolves what the environment decides: which ready case a select
  takes, what a read, a write or a handler returns, what a context reports, the time.

  A step makes one access to shared state: a channel operation, an atomic variable, or a
  section under a mutex; private computation is joined to the access before it. Two reads of
  variables that only ever go from unset to set may share a step. The read lease of \<^verbatim>\<open>queueMu\<close> is a program
  point between the check and the send of a producer; the disposal step of \<^verbatim>\<open>shutdown\<close>, which needs the
  exclusive lock, waits until nobody is at such a point. A call of \<^verbatim>\<open>shutdown\<close> by a process is an
  entry of \<open>rt_calls\<close>, and the process goes on when the once-only body is over.

  The result of a write and of a read is arbitrary here, and so is what the session methods do to the
  session except that they do not close or reopen it (\<open>Connection_Delivery\<close> has what they
  do). Two components record history: \<open>rt_accepted\<close> the result channels of accepted
  requests, \<open>rt_doneCloses\<close> how often \<^verbatim>\<open>done\<close> was closed.
\<close>

section \<open>Processes\<close>

datatype writer_pc = WriterOff | WriterTop | WriterSelect | Writing queued_message | WritingClose close_request
  | Completing queued_message "dg_error option" | Reporting close_request "dg_error option"
  | WriterStopping | WriterReturning | WriterDraining dg_error | WriterExited

datatype reader_pc = ReaderOff | Reading | Dispatching message | Enqueuing queued_message | Delivering message
  | ReaderStopping | ReaderExited

datatype handler_pc = HandlerOff | HandlerTop | HandlerSelect | HandlerTaken message | HandlerBusy message
  | HandlerStopping | HandlerExited

datatype maint_pc = MaintOff | Maintaining maintenance | MaintConsuming maintenance
  | MaintPinging maintenance u64 | MaintTrying maintenance u64 | MaintClearing maintenance
  | MaintClosing | MaintStopping | MaintExited

datatype watch_pc = WatchOff | Watching | WatchRecord dg_error | WatchClose dg_error | WatchExited

datatype join_pc = JoinOff | Joining | JoinStopping | JoinExited

text \<open>Whoever claimed a runtime that never started closes \<^verbatim>\<open>done\<close>.\<close>

datatype owner_pc = OwnerNone | OwnerStopping | OwnerExited

datatype closer_pc = CloserIdle | CloserRecord session_close dg_error | CloserMark session_close dg_error
  | CloserClaim session_close dg_error | CloserSubmit close_request | CloserAwait close_request
  | CloserStopping "dg_error option" | CloserFinished "dg_error option"

datatype shutdown_call = Called dg_error | Recorded dg_error

datatype shutdown_pc = ShutIdle | ShutMark dg_error | ShutCancel dg_error | ShutClear | ShutLock
  | ShutDraining dg_error | ShutHandlers | ShutSession | ShutTransport | ShutDone

record 'c runtime =
  rt_conn :: "'c connection"
  rt_senders :: "(queued_message \<times> bool) list"
  rt_writer :: writer_pc
  rt_reader :: reader_pc
  rt_handler :: handler_pc
  rt_maint :: maint_pc
  rt_watch :: watch_pc
  rt_join :: join_pc
  rt_owner :: owner_pc
  rt_closer :: closer_pc
  rt_calls :: "shutdown_call list"
  rt_shutdown :: shutdown_pc
  rt_channels :: nat
  rt_accepted :: "nat list"
  rt_doneCloses :: nat

datatype 'c conn_event =
  ESend "dg_error option" send_call
| ESender nat "dg_error option" nat
| EStart "dg_error option" time
| EWriter nat
| EWritten "dg_error option"
| ESession "'c session"
| ERead "dg_error + message"
| EReader nat
| EHandler nat
| EHandlerEnd "handler_end option"
| EMaint time maint_event
| EWatch "dg_error option"
| EJoin
| EOwner
| EClose session_close dg_error
| ECloser bool nat
| EAbort dg_error
| ECall nat
| EShutdown nat

definition pick :: "'a list \<Rightarrow> nat \<Rightarrow> 'a option" where
  "pick xs k = (if k < length xs then Some (xs ! k) else None)"

definition remove_at :: "nat \<Rightarrow> 'a list \<Rightarrow> 'a list" where
  "remove_at k xs = take k xs @ drop (Suc k) xs"

definition callShutdown :: "dg_error option \<Rightarrow> 'c runtime \<Rightarrow> 'c runtime" where
  "callShutdown cause r =
     r\<lparr>rt_calls := rt_calls r @ [Called (case cause of Some e \<Rightarrow> e | None \<Rightarrow> ErrConnectionClosed)]\<rparr>"

text \<open>Entering \<^verbatim>\<open>closeGracefully\<close>: only the first call runs the body.\<close>

definition callClose :: "session_close \<Rightarrow> dg_error \<Rightarrow> 'c runtime \<Rightarrow> 'c runtime" where
  "callClose message cause r =
     (if cn_closeOnce (rt_conn r) then r
      else r\<lparr>rt_conn := (rt_conn r)\<lparr>cn_closeOnce := True\<rparr>, rt_closer := CloserRecord message cause\<rparr>)"

definition closeDone :: "'c runtime \<Rightarrow> 'c runtime" where
  "closeDone r = r\<lparr>rt_conn := (rt_conn r)\<lparr>cn_done := True\<rparr>, rt_doneCloses := Suc (rt_doneCloses r)\<rparr>"

definition reader_leases :: "reader_pc \<Rightarrow> bool" where
  "reader_leases p \<longleftrightarrow> (case p of Enqueuing _ \<Rightarrow> True | Delivering _ \<Rightarrow> True | _ \<Rightarrow> False)"

definition maint_leases :: "maint_pc \<Rightarrow> bool" where
  "maint_leases p \<longleftrightarrow> (case p of MaintTrying _ _ \<Rightarrow> True | _ \<Rightarrow> False)"

definition closer_leases :: "closer_pc \<Rightarrow> bool" where
  "closer_leases p \<longleftrightarrow> (case p of CloserSubmit _ \<Rightarrow> True | _ \<Rightarrow> False)"

definition leased :: "'c runtime \<Rightarrow> bool" where
  "leased r \<longleftrightarrow> rt_senders r \<noteq> [] \<or> reader_leases (rt_reader r) \<or> maint_leases (rt_maint r)
     \<or> closer_leases (rt_closer r)"

fun channel_list :: "nat option \<Rightarrow> nat list" where
  "channel_list None = []"
| "channel_list (Some i) = [i]"

definition accept :: "nat option \<Rightarrow> 'c runtime \<Rightarrow> 'c runtime" where
  "accept channel r = r\<lparr>rt_accepted := rt_accepted r @ channel_list channel\<rparr>"

section \<open>Senders\<close>

definition step_send :: "dg_error option \<Rightarrow> send_call \<Rightarrow> 'c runtime \<Rightarrow> 'c runtime" where
  "step_send ctxErr call r =
     (case send_arguments call of
        (message, padLength, wait, completes) \<Rightarrow>
          (case enqueueGuard ctxErr (rt_conn r) of
             Some _ \<Rightarrow> r
           | None \<Rightarrow>
               r\<lparr>rt_senders := rt_senders r
                   @ [(\<lparr>qm_message = message, qm_padLength = padLength,
                        qm_completion = (if completes then Some (rt_channels r) else None)\<rparr>, wait)],
                 rt_channels := Suc (rt_channels r)\<rparr>))"

definition sender_outcomes :: "dg_error option \<Rightarrow> queued_message \<times> bool \<Rightarrow> 'c connection \<Rightarrow> ('c connection \<times> dg_error option) list" where
  "sender_outcomes ctxErr sender c =
     (case sender of
        (item, wait) \<Rightarrow> if wait then enqueueSelect ctxErr OutboundQ item c else [enqueueTry OutboundQ item c])"

definition step_sender :: "nat \<Rightarrow> dg_error option \<Rightarrow> nat \<Rightarrow> 'c runtime \<Rightarrow> 'c runtime option" where
  "step_sender i ctxErr k r =
     (case pick (rt_senders r) i of
        None \<Rightarrow> None
      | Some sender \<Rightarrow>
          (case pick (sender_outcomes ctxErr sender (rt_conn r)) k of
             None \<Rightarrow> None
           | Some (c, err) \<Rightarrow>
               (let r = r\<lparr>rt_conn := c, rt_senders := remove_at i (rt_senders r)\<rparr>
                in Some (if err = None then accept (qm_completion (fst sender)) r else r))))"

section \<open>Start, the writer and the reader\<close>

definition step_start :: "dg_error option \<Rightarrow> time \<Rightarrow> 'c runtime \<Rightarrow> 'c runtime" where
  "step_start ctxErr t r =
     (case Connection_Start ctxErr (rt_conn r) of
        (c, StartNothing) \<Rightarrow> r
      | (c, StartCancelled err) \<Rightarrow> callShutdown (Some err) (r\<lparr>rt_conn := c, rt_owner := OwnerStopping\<rparr>)
      | (c, StartLoops) \<Rightarrow>
          r\<lparr>rt_conn := c, rt_writer := WriterTop, rt_reader := Reading,
            rt_handler := (if cc_Handler (cn_config c) then HandlerTop else HandlerOff),
            rt_maint := Maintaining (maintenanceInit t (cn_config c)), rt_watch := Watching, rt_join := Joining\<rparr>)"

text \<open>The outcomes of the second select of \<^verbatim>\<open>writeLoop\<close>.\<close>

definition writer_choices :: "'c connection \<Rightarrow> ('c connection \<times> writer_pc) list" where
  "writer_choices c =
     (if cn_cause c \<noteq> None then [(c, WriterReturning)] else [])
     @ (case cn_closeRequest c of
          request # rest \<Rightarrow> [(c\<lparr>cn_closeRequest := rest\<rparr>, WritingClose request)] | [] \<Rightarrow> [])
     @ (case cn_control c of item # rest \<Rightarrow> [(c\<lparr>cn_control := rest\<rparr>, Writing item)] | [] \<Rightarrow> [])
     @ (case cn_outbound c of item # rest \<Rightarrow> [(c\<lparr>cn_outbound := rest\<rparr>, Writing item)] | [] \<Rightarrow> [])"

definition step_writer :: "nat \<Rightarrow> 'c runtime \<Rightarrow> 'c runtime option" where
  "step_writer k r =
     (let c = rt_conn r
      in case rt_writer r of
           WriterTop \<Rightarrow>
             (case cn_closeRequest c of
                request # rest \<Rightarrow> Some (r\<lparr>rt_conn := c\<lparr>cn_closeRequest := rest\<rparr>, rt_writer := WritingClose request\<rparr>)
              | [] \<Rightarrow> Some (r\<lparr>rt_writer := WriterSelect\<rparr>))
         | WriterSelect \<Rightarrow> map_option (\<lambda>(c, p). r\<lparr>rt_conn := c, rt_writer := p\<rparr>) (pick (writer_choices c) k)
         | Completing item err \<Rightarrow>
             (let r = r\<lparr>rt_conn := complete_item item err c\<rparr>
              in Some (if err = None then r\<lparr>rt_writer := WriterTop\<rparr>
                       else callShutdown err (r\<lparr>rt_writer := WriterStopping\<rparr>)))
         | Reporting request err \<Rightarrow>
             Some (callShutdown (Some (cr_cause request))
                     (r\<lparr>rt_conn := report_close request err c, rt_writer := WriterStopping\<rparr>))
         | WriterStopping \<Rightarrow> if rt_shutdown r = ShutDone then Some (r\<lparr>rt_writer := WriterReturning\<rparr>) else None
         | WriterReturning \<Rightarrow> Some (r\<lparr>rt_writer := WriterDraining (pendingError c)\<rparr>)
         | WriterDraining err \<Rightarrow>
             if failPendingStep err c = [] then Some (r\<lparr>rt_writer := WriterExited\<rparr>)
             else map_option (\<lambda>c. r\<lparr>rt_conn := c\<rparr>) (pick (failPendingStep err c) k)
         | _ \<Rightarrow> None)"

text \<open>A call of \<^verbatim>\<open>writeMessage\<close> returns.\<close>

definition step_written :: "dg_error option \<Rightarrow> 'c runtime \<Rightarrow> 'c runtime option" where
  "step_written err r =
     (case rt_writer r of
        Writing item \<Rightarrow> Some (r\<lparr>rt_writer := Completing item err\<rparr>)
      | WritingClose request \<Rightarrow> Some (r\<lparr>rt_writer := Reporting request err\<rparr>)
      | _ \<Rightarrow> None)"

text \<open>A session method changes the session.\<close>

definition step_session :: "'c session \<Rightarrow> 'c runtime \<Rightarrow> 'c runtime option" where
  "step_session s r =
     (if closed s = closed (cn_session (rt_conn r)) then Some (r\<lparr>rt_conn := (rt_conn r)\<lparr>cn_session := s\<rparr>\<rparr>) else None)"

definition step_read :: "dg_error + message \<Rightarrow> 'c runtime \<Rightarrow> 'c runtime option" where
  "step_read input r =
     (case rt_reader r of
        Reading \<Rightarrow>
          Some (case input of
                  Inl err \<Rightarrow> callShutdown (Some err) (r\<lparr>rt_reader := ReaderStopping\<rparr>)
                | Inr m \<Rightarrow> r\<lparr>rt_conn := noteActivity (rt_conn r), rt_reader := Dispatching m\<rparr>)
      | _ \<Rightarrow> None)"

definition reader_dispatch :: "message \<Rightarrow> 'c runtime \<Rightarrow> 'c runtime" where
  "reader_dispatch m r =
     (case readDispatch m (rt_conn r) of
        (c, ReadMore) \<Rightarrow> r\<lparr>rt_conn := c, rt_reader := Reading\<rparr>
      | (c, StopReading err) \<Rightarrow> callShutdown (Some err) (r\<lparr>rt_conn := c, rt_reader := ReaderStopping\<rparr>)
      | (c, DeliverMessage) \<Rightarrow> r\<lparr>rt_conn := c, rt_reader := (if cn_cause c \<noteq> None then ReaderExited else Delivering m)\<rparr>
      | (c, SendPong pong) \<Rightarrow>
          (case enqueueGuard (control_context c) c of
             Some err \<Rightarrow> callShutdown (Some err) (r\<lparr>rt_conn := c, rt_reader := ReaderStopping\<rparr>)
           | None \<Rightarrow> r\<lparr>rt_conn := c, rt_reader := Enqueuing (control_item pong)\<rparr>))"

text \<open>The reader goes on with what its send to a queue returned.\<close>

definition reader_sent :: "'c connection \<times> dg_error option \<Rightarrow> 'c runtime \<Rightarrow> 'c runtime" where
  "reader_sent outcome r =
     (case outcome of
        (c, None) \<Rightarrow> r\<lparr>rt_conn := c, rt_reader := Reading\<rparr>
      | (c, Some err) \<Rightarrow> callShutdown (Some err) (r\<lparr>rt_conn := c, rt_reader := ReaderStopping\<rparr>))"

definition step_reader :: "nat \<Rightarrow> 'c runtime \<Rightarrow> 'c runtime option" where
  "step_reader k r =
     (let c = rt_conn r
      in case rt_reader r of
           Dispatching m \<Rightarrow> Some (reader_dispatch m r)
         | Enqueuing item \<Rightarrow>
             map_option (\<lambda>out. reader_sent out r) (pick (enqueueSelect (control_context c) ControlQ item c) k)
         | Delivering m \<Rightarrow> Some (reader_sent (deliverMessage m c) r)
         | ReaderStopping \<Rightarrow> if rt_shutdown r = ShutDone then Some (r\<lparr>rt_reader := ReaderExited\<rparr>) else None
         | _ \<Rightarrow> None)"

section \<open>The handler and the maintenance loop\<close>

text \<open>The outcomes of the second select of \<^verbatim>\<open>handlerLoop\<close>.\<close>

definition handler_choices :: "'c connection \<Rightarrow> ('c connection \<times> handler_pc) list" where
  "handler_choices c =
     (if cn_cause c \<noteq> None then [(c, HandlerExited)] else [])
     @ (case cn_handlerQueue c of m # rest \<Rightarrow> [(c\<lparr>cn_handlerQueue := rest\<rparr>, HandlerTaken m)] | [] \<Rightarrow> [])"

definition step_handler :: "nat \<Rightarrow> 'c runtime \<Rightarrow> 'c runtime option" where
  "step_handler k r =
     (let c = rt_conn r
      in case rt_handler r of
           HandlerTop \<Rightarrow> Some (r\<lparr>rt_handler := (if cn_cause c \<noteq> None then HandlerExited else HandlerSelect)\<rparr>)
         | HandlerSelect \<Rightarrow> map_option (\<lambda>(c, p). r\<lparr>rt_conn := c, rt_handler := p\<rparr>) (pick (handler_choices c) k)
         | HandlerTaken m \<Rightarrow> Some (r\<lparr>rt_handler := (if cn_cause c \<noteq> None then HandlerExited else HandlerBusy m)\<rparr>)
         | HandlerStopping \<Rightarrow> if rt_shutdown r = ShutDone then Some (r\<lparr>rt_handler := HandlerExited\<rparr>) else None
         | _ \<Rightarrow> None)"

definition step_handler_end :: "handler_end option \<Rightarrow> 'c runtime \<Rightarrow> 'c runtime option" where
  "step_handler_end finished r =
     (case rt_handler r of
        HandlerBusy _ \<Rightarrow>
          map_option
            (\<lambda>err. if err = None then r\<lparr>rt_handler := HandlerTop\<rparr>
                   else callShutdown err (r\<lparr>rt_handler := HandlerStopping\<rparr>))
            (callHandlerBounded (rt_conn r) finished)
      | _ \<Rightarrow> None)"

definition maint_select :: "time \<Rightarrow> maint_event \<Rightarrow> maintenance \<Rightarrow> 'c runtime \<Rightarrow> 'c runtime" where
  "maint_select t ev m r =
     (case maintenanceStep t ev m (rt_conn r) of
        (m, c, result) \<Rightarrow>
          (let r = r\<lparr>rt_conn := c\<rparr>
           in case result of
                MaintMore \<Rightarrow> r\<lparr>rt_maint := Maintaining m\<rparr>
              | MaintConsumes \<Rightarrow> r\<lparr>rt_maint := MaintConsuming m\<rparr>
              | MaintPings pingNonce \<Rightarrow> r\<lparr>rt_maint := MaintPinging m pingNonce\<rparr>
              | MaintReturns \<Rightarrow> r\<lparr>rt_maint := MaintExited\<rparr>
              | MaintShutdown err \<Rightarrow> callShutdown (Some err) (r\<lparr>rt_maint := MaintStopping\<rparr>)
              | MaintCloses message cause \<Rightarrow> callClose message cause (r\<lparr>rt_maint := MaintClosing\<rparr>)))"

definition step_maint :: "time \<Rightarrow> maint_event \<Rightarrow> 'c runtime \<Rightarrow> 'c runtime option" where
  "step_maint t ev r =
     (let c = rt_conn r
      in case rt_maint r of
           Maintaining m \<Rightarrow> if maintenanceReady t ev m c then Some (maint_select t ev m r) else None
         | MaintConsuming m \<Rightarrow>
             (case pongConsume t m c of (m, c) \<Rightarrow> Some (r\<lparr>rt_conn := c, rt_maint := Maintaining m\<rparr>))
         | MaintPinging m pingNonce \<Rightarrow>
             Some (r\<lparr>rt_maint := (if enqueueGuard (control_context c) c = None then MaintTrying m pingNonce
                                  else MaintClearing m)\<rparr>)
         | MaintTrying m pingNonce \<Rightarrow>
             (case enqueueTry ControlQ (control_item (Val (MPingPong \<lparr>pp_IsResponse = False, pp_Nonce = pingNonce\<rparr>))) c of
                (c, err) \<Rightarrow>
                  Some (r\<lparr>rt_conn := c, rt_maint := (if err = None then Maintaining (keepaliveSent t (cn_config c) m)
                                                     else MaintClearing m)\<rparr>))
         | MaintClearing m \<Rightarrow>
             Some (r\<lparr>rt_conn := clearPing c, rt_maint := Maintaining (keepaliveFailed t (cn_config c) m)\<rparr>)
         | MaintClosing \<Rightarrow>
             (case rt_closer r of CloserFinished _ \<Rightarrow> Some (r\<lparr>rt_maint := MaintExited\<rparr>) | _ \<Rightarrow> None)
         | MaintStopping \<Rightarrow> if rt_shutdown r = ShutDone then Some (r\<lparr>rt_maint := MaintExited\<rparr>) else None
         | _ \<Rightarrow> None)"

section \<open>Lifecycle\<close>

definition step_watch :: "dg_error option \<Rightarrow> 'c runtime \<Rightarrow> 'c runtime option" where
  "step_watch ctxErr r =
     (case rt_watch r of
        Watching \<Rightarrow>
          (case ctxErr of
             Some err \<Rightarrow> Some (r\<lparr>rt_watch := WatchRecord err\<rparr>)
           | None \<Rightarrow> if cn_cause (rt_conn r) \<noteq> None then Some (r\<lparr>rt_watch := WatchExited\<rparr>) else None)
      | WatchRecord err \<Rightarrow> Some (r\<lparr>rt_conn := recordTerminal err (rt_conn r), rt_watch := WatchClose err\<rparr>)
      | WatchClose err \<Rightarrow>
          Some (callClose \<lparr>sc_Code = 0, sc_Reason = str ''context canceled''\<rparr> err (r\<lparr>rt_watch := WatchExited\<rparr>))
      | _ \<Rightarrow> None)"

text \<open>All loops have returned: what \<^verbatim>\<open>wg.Wait\<close> waits for.\<close>

definition joined :: "'c runtime \<Rightarrow> bool" where
  "joined r \<longleftrightarrow> rt_writer r = WriterExited \<and> rt_reader r = ReaderExited \<and> rt_maint r = MaintExited
     \<and> rt_handler r \<in> {HandlerOff, HandlerExited}"

definition step_join :: "'c runtime \<Rightarrow> 'c runtime option" where
  "step_join r =
     (case rt_join r of
        Joining \<Rightarrow> if joined r then Some (callShutdown (cn_cause (rt_conn r)) (r\<lparr>rt_join := JoinStopping\<rparr>)) else None
      | JoinStopping \<Rightarrow> if rt_shutdown r = ShutDone then Some (closeDone (r\<lparr>rt_join := JoinExited\<rparr>)) else None
      | _ \<Rightarrow> None)"

definition step_owner :: "'c runtime \<Rightarrow> 'c runtime option" where
  "step_owner r =
     (if rt_owner r = OwnerStopping \<and> rt_shutdown r = ShutDone then Some (closeDone (r\<lparr>rt_owner := OwnerExited\<rparr>)) else None)"

definition closer_claim :: "session_close \<Rightarrow> dg_error \<Rightarrow> 'c runtime \<Rightarrow> 'c runtime" where
  "closer_claim message cause r =
     (case closeClaim message cause (rt_channels r) (rt_conn r) of
        (c, CloseReturns result) \<Rightarrow> r\<lparr>rt_conn := c, rt_closer := CloserFinished result\<rparr>
      | (c, CloseUnstarted) \<Rightarrow>
          callShutdown (Some cause) (r\<lparr>rt_conn := c, rt_owner := OwnerStopping, rt_closer := CloserStopping None\<rparr>)
      | (c, CloseRequests request) \<Rightarrow>
          r\<lparr>rt_conn := c, rt_closer := CloserSubmit request, rt_channels := Suc (rt_channels r)\<rparr>)"

definition step_closer :: "bool \<Rightarrow> nat \<Rightarrow> 'c runtime \<Rightarrow> 'c runtime option" where
  "step_closer expired k r =
     (let c = rt_conn r
      in case rt_closer r of
           CloserRecord message cause \<Rightarrow> Some (r\<lparr>rt_conn := recordTerminal cause c, rt_closer := CloserMark message cause\<rparr>)
         | CloserMark message cause \<Rightarrow> Some (r\<lparr>rt_conn := c\<lparr>cn_closing := True\<rparr>, rt_closer := CloserClaim message cause\<rparr>)
         | CloserClaim message cause \<Rightarrow> Some (closer_claim message cause r)
         | CloserSubmit request \<Rightarrow>
             map_option
               (\<lambda>(c, out). case out of
                  Submitted \<Rightarrow> accept (Some (cr_result request)) (r\<lparr>rt_conn := c, rt_closer := CloserAwait request\<rparr>)
                | NotSubmitted result \<Rightarrow>
                    callShutdown (Some (cr_cause request)) (r\<lparr>rt_conn := c, rt_closer := CloserStopping result\<rparr>))
               (pick (closeSubmit expired request c) k)
         | CloserAwait request \<Rightarrow>
             map_option
               (\<lambda>result. callShutdown (Some (cr_cause request)) (r\<lparr>rt_closer := CloserStopping result\<rparr>))
               (pick (closeAwait expired (cr_result request) c) k)
         | CloserStopping result \<Rightarrow>
             if rt_shutdown r = ShutDone then Some (r\<lparr>rt_closer := CloserFinished result\<rparr>) else None
         | _ \<Rightarrow> None)"

text \<open>A call of \<^verbatim>\<open>shutdown\<close> records the cause; then the first one runs the body.\<close>

definition step_call :: "nat \<Rightarrow> 'c runtime \<Rightarrow> 'c runtime option" where
  "step_call k r =
     (case pick (rt_calls r) k of
        None \<Rightarrow> None
      | Some (Called cause) \<Rightarrow>
          Some (r\<lparr>rt_conn := recordTerminal cause (rt_conn r), rt_calls := (rt_calls r)[k := Recorded cause]\<rparr>)
      | Some (Recorded cause) \<Rightarrow>
          (let r = r\<lparr>rt_calls := remove_at k (rt_calls r)\<rparr>
           in Some (if cn_shutdownOnce (rt_conn r) then r
                    else r\<lparr>rt_conn := (rt_conn r)\<lparr>cn_shutdownOnce := True\<rparr>, rt_shutdown := ShutMark cause\<rparr>)))"

definition step_shutdown :: "nat \<Rightarrow> 'c runtime \<Rightarrow> 'c runtime option" where
  "step_shutdown k r =
     (let c = rt_conn r
      in case rt_shutdown r of
           ShutMark cause \<Rightarrow> Some (r\<lparr>rt_conn := c\<lparr>cn_closing := True\<rparr>, rt_shutdown := ShutCancel cause\<rparr>)
         | ShutCancel cause \<Rightarrow> Some (r\<lparr>rt_conn := shutdownCancel cause c, rt_shutdown := ShutClear\<rparr>)
         | ShutClear \<Rightarrow> Some (r\<lparr>rt_conn := clearPing c, rt_shutdown := ShutLock\<rparr>)
         | ShutLock \<Rightarrow> if leased r then None else Some (r\<lparr>rt_shutdown := ShutDraining (pendingError c)\<rparr>)
         | ShutDraining err \<Rightarrow>
             if failPendingStep err c = [] then Some (r\<lparr>rt_shutdown := ShutHandlers\<rparr>)
             else map_option (\<lambda>c. r\<lparr>rt_conn := c\<rparr>) (pick (failPendingStep err c) k)
         | ShutHandlers \<Rightarrow>
             (case cn_handlerQueue c of
                [] \<Rightarrow> Some (r\<lparr>rt_shutdown := ShutSession\<rparr>)
              | _ # rest \<Rightarrow> Some (r\<lparr>rt_conn := c\<lparr>cn_handlerQueue := rest\<rparr>\<rparr>))
         | ShutSession \<Rightarrow> Some (r\<lparr>rt_conn := closeSession c, rt_shutdown := ShutTransport\<rparr>)
         | ShutTransport \<Rightarrow> Some (r\<lparr>rt_conn := c\<lparr>cn_transportClosed := True\<rparr>, rt_shutdown := ShutDone\<rparr>)
         | _ \<Rightarrow> None)"

section \<open>The machine\<close>

fun conn_step :: "'c conn_event \<Rightarrow> 'c runtime \<Rightarrow> 'c runtime option" where
  "conn_step (ESend ctxErr call) r = Some (step_send ctxErr call r)"
| "conn_step (ESender i ctxErr k) r = step_sender i ctxErr k r"
| "conn_step (EStart ctxErr t) r = Some (step_start ctxErr t r)"
| "conn_step (EWriter k) r = step_writer k r"
| "conn_step (EWritten err) r = step_written err r"
| "conn_step (ESession s) r = step_session s r"
| "conn_step (ERead input) r = step_read input r"
| "conn_step (EReader k) r = step_reader k r"
| "conn_step (EHandler k) r = step_handler k r"
| "conn_step (EHandlerEnd finished) r = step_handler_end finished r"
| "conn_step (EMaint t ev) r = step_maint t ev r"
| "conn_step (EWatch ctxErr) r = step_watch ctxErr r"
| "conn_step EJoin r = step_join r"
| "conn_step EOwner r = step_owner r"
| "conn_step (EClose message cause) r = Some (callClose message cause r)"
| "conn_step (ECloser expired k) r = step_closer expired k r"
| "conn_step (EAbort cause) r = Some (callShutdown (Some cause) r)"
| "conn_step (ECall k) r = step_call k r"
| "conn_step (EShutdown k) r = step_shutdown k r"

fun conn_run :: "'c conn_event list \<Rightarrow> 'c runtime \<Rightarrow> 'c runtime option" where
  "conn_run [] r = Some r"
| "conn_run (ev # evs) r = (case conn_step ev r of Some r' \<Rightarrow> conn_run evs r' | None \<Rightarrow> None)"

definition runtime_of :: "'c connection \<Rightarrow> 'c runtime" where
  "runtime_of c =
     \<lparr>rt_conn = c, rt_senders = [], rt_writer = WriterOff, rt_reader = ReaderOff, rt_handler = HandlerOff,
      rt_maint = MaintOff, rt_watch = WatchOff, rt_join = JoinOff, rt_owner = OwnerNone, rt_closer = CloserIdle,
      rt_calls = [], rt_shutdown = ShutIdle, rt_channels = 0, rt_accepted = [], rt_doneCloses = 0\<rparr>"

definition runtime_start :: "'c runtime \<Rightarrow> bool" where
  "runtime_start r \<longleftrightarrow>
     (\<exists>t s config c. NewConnection (Some t) (Some s) config = Inr c \<and> r = runtime_of c)"

definition runtime_next :: "'c runtime \<Rightarrow> 'c runtime \<Rightarrow> bool" where
  "runtime_next r r' \<longleftrightarrow> (\<exists>ev. conn_step ev r = Some r')"

section \<open>What the operations change\<close>

lemma pick_Some: "pick xs k = Some x \<Longrightarrow> x \<in> set xs"
  by (auto simp: pick_def split: if_splits)

lemma set_remove_at: "x \<in> set (remove_at k xs) \<Longrightarrow> x \<in> set xs"
  by (auto simp: remove_at_def dest: in_set_takeD in_set_dropD)

lemma complete_item_update:
  "complete_item item err c = c\<lparr>cn_results := cn_results c @ map (\<lambda>i. (i, err)) (channel_list (qm_completion item))\<rparr>"
  by (cases "qm_completion item") (simp_all add: complete_item_def)

lemma recordTerminal_update:
  "recordTerminal cause c = c\<lparr>cn_terminal := Some (case cn_terminal c of Some e \<Rightarrow> e | None \<Rightarrow> cause)\<rparr>"
  by (simp add: recordTerminal_def split: option.splits)

lemma closeSession_update:
  "closeSession c = c\<lparr>cn_session := (cn_session c)\<lparr>closed := True\<rparr>\<rparr>"
  by (simp add: closeSession_def Session_Close_def)

lemmas op_updates = complete_item_update recordTerminal_update closeSession_update report_close_def noteActivity_def clearPing_def
  shutdownCancel_def accept_def callShutdown_def closeDone_def

lemma in_head: "y \<in> set (case xs of x # rest \<Rightarrow> [f x rest] | [] \<Rightarrow> []) \<longleftrightarrow> (\<exists>x rest. xs = x # rest \<and> y = f x rest)"
  by (cases xs) auto

lemma failPendingStep_cases:
  assumes "c' \<in> set (failPendingStep err c)"
  obtains (control) item rest where "cn_control c = item # rest" and "c' = complete_item item (Some err) (c\<lparr>cn_control := rest\<rparr>)"
  | (outbound) item rest where "cn_outbound c = item # rest" and "c' = complete_item item (Some err) (c\<lparr>cn_outbound := rest\<rparr>)"
  | (close) request rest where "cn_closeRequest c = request # rest" and "c' = report_close request (Some err) (c\<lparr>cn_closeRequest := rest\<rparr>)"
  using assms unfolding failPendingStep_def set_append Un_iff in_head by (elim disjE exE conjE) (rule that; assumption)+

lemma failPendingStep_Nil:
  "failPendingStep err c = [] \<longleftrightarrow> cn_control c = [] \<and> cn_outbound c = [] \<and> cn_closeRequest c = []"
  by (simp add: failPendingStep_def split: list.split)

lemma writer_choices_cases:
  assumes "(c', p) \<in> set (writer_choices c)"
  obtains (cancelled) "cn_cause c \<noteq> None" and "c' = c" and "p = WriterReturning"
  | (close) request rest where "cn_closeRequest c = request # rest" and "c' = c\<lparr>cn_closeRequest := rest\<rparr>" and "p = WritingClose request"
  | (control) item rest where "cn_control c = item # rest" and "c' = c\<lparr>cn_control := rest\<rparr>" and "p = Writing item"
  | (outbound) item rest where "cn_outbound c = item # rest" and "c' = c\<lparr>cn_outbound := rest\<rparr>" and "p = Writing item"
  using assms unfolding writer_choices_def set_append Un_iff in_head by (elim disjE exE conjE) (auto split: if_splits intro: that)

lemma sender_outcomes_cases:
  assumes "(c', err) \<in> set (sender_outcomes ctxErr sender c)"
  obtains (refused) e where "c' = c" and "err = Some e"
  | (accepted) "queue_ready OutboundQ c" and "c' = c\<lparr>cn_outbound := cn_outbound c @ [fst sender]\<rparr>" and "err = None"
  using assms
  by (auto simp: sender_outcomes_def enqueueSelect_def enqueueTry_def split: prod.splits option.splits if_splits)

lemma control_select_cases:
  assumes "(c', err) \<in> set (enqueueSelect ctxErr ControlQ item c)"
  obtains (refused) e where "c' = c" and "err = Some e"
  | (accepted) "queue_ready ControlQ c" and "c' = c\<lparr>cn_control := cn_control c @ [item]\<rparr>" and "err = None"
  using assms by (auto simp: enqueueSelect_def split: option.splits if_splits)

lemma handler_choices_cases:
  assumes "(c', p) \<in> set (handler_choices c)"
  obtains (cancelled) "cn_cause c \<noteq> None" and "c' = c" and "p = HandlerExited"
  | (take) m rest where "cn_handlerQueue c = m # rest" and "c' = c\<lparr>cn_handlerQueue := rest\<rparr>" and "p = HandlerTaken m"
  using assms unfolding handler_choices_def set_append Un_iff in_head by (elim disjE exE conjE) (auto split: if_splits intro: that)

lemma closeSubmit_cases:
  assumes "(c', out) \<in> set (closeSubmit expired request c)"
  obtains (submitted) "cn_closeRequest c = []" and "c' = c\<lparr>cn_closeRequest := [request]\<rparr>" and "out = Submitted"
  | (refused) result where "c' = c" and "out = NotSubmitted result"
  using assms by (auto simp: closeSubmit_def split: if_splits)

lemmas choice_cases = failPendingStep_cases writer_choices_cases sender_outcomes_cases control_select_cases
  handler_choices_cases closeSubmit_cases

end
