(* ===== verification/Connection_Transitions.thy ===== *)
theory Connection_Transitions
  imports Connection_Runtime
begin

text \<open>
  The steps of the connection runtime as an inductive relation, one rule for each effect a step can have,
  and the lemma that every step of \<open>conn_step\<close> is an instance of a rule. The invariants are proved by cases on these
  rules.
\<close>

inductive conn_trans :: "'c runtime \<Rightarrow> 'c runtime \<Rightarrow> bool" where
  skip: "conn_trans r r"
| send: "\<not> cn_closing (rt_conn r) \<Longrightarrow> qm_completion item \<in> {None, Some (rt_channels r)} \<Longrightarrow>
    conn_trans r (r\<lparr>rt_senders := rt_senders r @ [(item, wait)], rt_channels := Suc (rt_channels r)\<rparr>)"
| sender_refused: "i < length (rt_senders r) \<Longrightarrow> conn_trans r (r\<lparr>rt_senders := remove_at i (rt_senders r)\<rparr>)"
| sender_accepted: "i < length (rt_senders r) \<Longrightarrow> rt_senders r ! i = (item, wait) \<Longrightarrow> queue_ready OutboundQ (rt_conn r) \<Longrightarrow>
    conn_trans r (accept (qm_completion item) (r\<lparr>rt_conn := (rt_conn r)\<lparr>cn_outbound := cn_outbound (rt_conn r) @ [item]\<rparr>,
      rt_senders := remove_at i (rt_senders r)\<rparr>))"
| start_cancelled: "\<not> cn_startOnce (rt_conn r) \<Longrightarrow>
    conn_trans r (callShutdown (Some e) (r\<lparr>rt_conn := (rt_conn r)\<lparr>cn_startOnce := True\<rparr>, rt_owner := OwnerStopping\<rparr>))"
| start_loops: "\<not> cn_startOnce (rt_conn r) \<Longrightarrow> h = (if cc_Handler (cn_config (rt_conn r)) then HandlerTop else HandlerOff) \<Longrightarrow>
    conn_trans r (r\<lparr>rt_conn := (rt_conn r)\<lparr>cn_startOnce := True, cn_started := True\<rparr>, rt_writer := WriterTop,
      rt_reader := Reading, rt_handler := h, rt_maint := Maintaining m, rt_watch := Watching, rt_join := Joining\<rparr>)"
| writer_select: "rt_writer r = WriterTop \<Longrightarrow> conn_trans r (r\<lparr>rt_writer := WriterSelect\<rparr>)"
| writer_close: "rt_writer r \<in> {WriterTop, WriterSelect} \<Longrightarrow> cn_closeRequest (rt_conn r) = request # requests \<Longrightarrow>
    conn_trans r (r\<lparr>rt_conn := (rt_conn r)\<lparr>cn_closeRequest := requests\<rparr>, rt_writer := WritingClose request\<rparr>)"
| writer_control: "rt_writer r = WriterSelect \<Longrightarrow> cn_control (rt_conn r) = item # items \<Longrightarrow>
    conn_trans r (r\<lparr>rt_conn := (rt_conn r)\<lparr>cn_control := items\<rparr>, rt_writer := Writing item\<rparr>)"
| writer_outbound: "rt_writer r = WriterSelect \<Longrightarrow> cn_outbound (rt_conn r) = item # items \<Longrightarrow>
    conn_trans r (r\<lparr>rt_conn := (rt_conn r)\<lparr>cn_outbound := items\<rparr>, rt_writer := Writing item\<rparr>)"
| writer_cancelled: "rt_writer r = WriterSelect \<Longrightarrow> cn_cause (rt_conn r) \<noteq> None \<Longrightarrow>
    conn_trans r (r\<lparr>rt_writer := WriterReturning\<rparr>)"
| writer_written: "rt_writer r = Writing item \<Longrightarrow> conn_trans r (r\<lparr>rt_writer := Completing item err\<rparr>)"
| writer_close_written: "rt_writer r = WritingClose request \<Longrightarrow> conn_trans r (r\<lparr>rt_writer := Reporting request err\<rparr>)"
| writer_completed: "rt_writer r = Completing item err \<Longrightarrow>
    conn_trans r (r\<lparr>rt_conn := complete_item item err (rt_conn r), rt_writer := WriterTop\<rparr>)"
| writer_failed: "rt_writer r = Completing item err \<Longrightarrow>
    conn_trans r (callShutdown e (r\<lparr>rt_conn := complete_item item err (rt_conn r), rt_writer := WriterStopping\<rparr>))"
| writer_reported: "rt_writer r = Reporting request err \<Longrightarrow>
    conn_trans r (callShutdown e (r\<lparr>rt_conn := report_close request err (rt_conn r), rt_writer := WriterStopping\<rparr>))"
| writer_stopped: "rt_writer r = WriterStopping \<Longrightarrow> rt_shutdown r = ShutDone \<Longrightarrow>
    conn_trans r (r\<lparr>rt_writer := WriterReturning\<rparr>)"
| writer_returns: "rt_writer r = WriterReturning \<Longrightarrow>
    conn_trans r (r\<lparr>rt_writer := WriterDraining (pendingError (rt_conn r))\<rparr>)"
| writer_exits: "rt_writer r = WriterDraining e \<Longrightarrow> failPendingStep e (rt_conn r) = [] \<Longrightarrow>
    conn_trans r (r\<lparr>rt_writer := WriterExited\<rparr>)"
| drain_control: "cn_control (rt_conn r) = item # items \<Longrightarrow>
    rt_writer r = WriterDraining e \<or> rt_shutdown r = ShutDraining e \<Longrightarrow>
    conn_trans r (r\<lparr>rt_conn := complete_item item (Some e) ((rt_conn r)\<lparr>cn_control := items\<rparr>)\<rparr>)"
| drain_outbound: "cn_outbound (rt_conn r) = item # items \<Longrightarrow>
    rt_writer r = WriterDraining e \<or> rt_shutdown r = ShutDraining e \<Longrightarrow>
    conn_trans r (r\<lparr>rt_conn := complete_item item (Some e) ((rt_conn r)\<lparr>cn_outbound := items\<rparr>)\<rparr>)"
| drain_close: "cn_closeRequest (rt_conn r) = request # requests \<Longrightarrow>
    rt_writer r = WriterDraining e \<or> rt_shutdown r = ShutDraining e \<Longrightarrow>
    conn_trans r (r\<lparr>rt_conn := report_close request (Some e) ((rt_conn r)\<lparr>cn_closeRequest := requests\<rparr>)\<rparr>)"
| session: "closed s = closed (cn_session (rt_conn r)) \<Longrightarrow> conn_trans r (r\<lparr>rt_conn := (rt_conn r)\<lparr>cn_session := s\<rparr>\<rparr>)"
| reader_error: "rt_reader r = Reading \<Longrightarrow> conn_trans r (callShutdown e (r\<lparr>rt_reader := ReaderStopping\<rparr>))"
| reader_read: "rt_reader r = Reading \<Longrightarrow>
    conn_trans r (r\<lparr>rt_conn := noteActivity (rt_conn r), rt_reader := Dispatching msg\<rparr>)"
| reader_ack: "rt_reader r = Dispatching msg \<Longrightarrow>
    conn_trans r (r\<lparr>rt_conn := acknowledgePing n (rt_conn r), rt_reader := Reading\<rparr>)"
| reader_more: "rt_reader r = Dispatching msg \<Longrightarrow> conn_trans r (r\<lparr>rt_reader := Reading\<rparr>)"
| reader_stop: "rt_reader r = Dispatching msg \<Longrightarrow> conn_trans r (callShutdown e (r\<lparr>rt_reader := ReaderStopping\<rparr>))"
| reader_cancelled: "rt_reader r = Dispatching msg \<Longrightarrow> cn_cause (rt_conn r) \<noteq> None \<Longrightarrow>
    conn_trans r (r\<lparr>rt_reader := ReaderExited\<rparr>)"
| reader_deliver: "rt_reader r = Dispatching msg \<Longrightarrow> cn_cause (rt_conn r) = None \<Longrightarrow> conn_trans r (r\<lparr>rt_reader := Delivering msg\<rparr>)"
| reader_pong: "rt_reader r = Dispatching msg \<Longrightarrow> \<not> cn_closing (rt_conn r) \<Longrightarrow>
    conn_trans r (r\<lparr>rt_reader := Enqueuing (control_item pong)\<rparr>)"
| reader_enqueued: "rt_reader r = Enqueuing item \<Longrightarrow> queue_ready ControlQ (rt_conn r) \<Longrightarrow>
    conn_trans r (r\<lparr>rt_conn := (rt_conn r)\<lparr>cn_control := cn_control (rt_conn r) @ [item]\<rparr>, rt_reader := Reading\<rparr>)"
| reader_delivered: "rt_reader r = Delivering msg \<Longrightarrow>
    length (cn_handlerQueue (rt_conn r)) < nat (cc_HandlerQueue (cn_config (rt_conn r))) \<Longrightarrow>
    conn_trans r (r\<lparr>rt_conn := (rt_conn r)\<lparr>cn_handlerQueue := cn_handlerQueue (rt_conn r) @ [msg]\<rparr>, rt_reader := Reading\<rparr>)"
| reader_refused: "reader_leases (rt_reader r) \<Longrightarrow> conn_trans r (callShutdown e (r\<lparr>rt_reader := ReaderStopping\<rparr>))"
| reader_stopped: "rt_reader r = ReaderStopping \<Longrightarrow> rt_shutdown r = ShutDone \<Longrightarrow>
    conn_trans r (r\<lparr>rt_reader := ReaderExited\<rparr>)"
| handler_select: "rt_handler r = HandlerTop \<Longrightarrow> conn_trans r (r\<lparr>rt_handler := HandlerSelect\<rparr>)"
| handler_exits: "rt_handler r \<noteq> HandlerOff \<Longrightarrow> cn_cause (rt_conn r) \<noteq> None \<Longrightarrow> conn_trans r (r\<lparr>rt_handler := HandlerExited\<rparr>)"
| handler_takes: "rt_handler r = HandlerSelect \<Longrightarrow> cn_handlerQueue (rt_conn r) = msg # msgs \<Longrightarrow>
    conn_trans r (r\<lparr>rt_conn := (rt_conn r)\<lparr>cn_handlerQueue := msgs\<rparr>, rt_handler := HandlerTaken msg\<rparr>)"
| handler_begins: "rt_handler r = HandlerTaken msg \<Longrightarrow> cn_cause (rt_conn r) = None \<Longrightarrow>
    conn_trans r (r\<lparr>rt_handler := HandlerBusy msg\<rparr>)"
| handler_ends: "rt_handler r = HandlerBusy msg \<Longrightarrow> conn_trans r (r\<lparr>rt_handler := HandlerTop\<rparr>)"
| handler_fails: "rt_handler r = HandlerBusy msg \<Longrightarrow> conn_trans r (callShutdown e (r\<lparr>rt_handler := HandlerStopping\<rparr>))"
| handler_stopped: "rt_handler r = HandlerStopping \<Longrightarrow> rt_shutdown r = ShutDone \<Longrightarrow>
    conn_trans r (r\<lparr>rt_handler := HandlerExited\<rparr>)"
| maint_local: "rt_maint r = Maintaining m \<Longrightarrow> conn_trans r (r\<lparr>rt_maint := Maintaining m'\<rparr>)"
| maint_activity: "rt_maint r = Maintaining m \<Longrightarrow>
    conn_trans r (r\<lparr>rt_conn := (rt_conn r)\<lparr>cn_activity := False\<rparr>, rt_maint := Maintaining m'\<rparr>)"
| maint_wakeup: "rt_maint r = Maintaining m \<Longrightarrow>
    conn_trans r (r\<lparr>rt_conn := (rt_conn r)\<lparr>cn_pong := False\<rparr>, rt_maint := Maintaining m'\<rparr>)"
| maint_pong: "rt_maint r = Maintaining m \<Longrightarrow>
    conn_trans r (r\<lparr>rt_conn := (rt_conn r)\<lparr>cn_pong := False\<rparr>, rt_maint := MaintConsuming m'\<rparr>)"
| maint_cancelled: "rt_maint r = Maintaining m \<Longrightarrow> cn_cause (rt_conn r) \<noteq> None \<Longrightarrow>
    conn_trans r (r\<lparr>rt_maint := MaintExited\<rparr>)"
| maint_ping: "rt_maint r = Maintaining m \<Longrightarrow> cn_cause (rt_conn r) = None \<Longrightarrow> n \<noteq> 0 \<Longrightarrow>
    conn_trans r (r\<lparr>rt_conn := (rt_conn r)\<lparr>cn_pingExpected := n, cn_pingAcknowledged := False, cn_pingNonce := n\<rparr>,
      rt_maint := MaintPinging m' n\<rparr>)"
| maint_consume: "rt_maint r \<in> {Maintaining m, MaintConsuming m} \<Longrightarrow>
    conn_trans r (r\<lparr>rt_conn := (rt_conn r)\<lparr>cn_pingAcknowledged := False\<rparr>, rt_maint := Maintaining m'\<rparr>)"
| maint_timeout: "rt_maint r = Maintaining m \<Longrightarrow> \<not> cn_pingAcknowledged (rt_conn r) \<Longrightarrow>
    conn_trans r (callShutdown e (r\<lparr>rt_conn := (rt_conn r)\<lparr>cn_pingAcknowledged := False\<rparr>, rt_maint := MaintStopping\<rparr>))"
| maint_idle: "rt_maint r = Maintaining m \<Longrightarrow>
    conn_trans r (callClose message e (r\<lparr>rt_maint := MaintClosing\<rparr>))"
| maint_leases: "rt_maint r = MaintPinging m n \<Longrightarrow> \<not> cn_closing (rt_conn r) \<Longrightarrow> conn_trans r (r\<lparr>rt_maint := MaintTrying m n\<rparr>)"
| maint_refused: "rt_maint r = MaintPinging m n \<Longrightarrow> conn_trans r (r\<lparr>rt_maint := MaintClearing m\<rparr>)"
| maint_full: "rt_maint r = MaintTrying m n \<Longrightarrow> conn_trans r (r\<lparr>rt_maint := MaintClearing m\<rparr>)"
| maint_sent: "rt_maint r = MaintTrying m n \<Longrightarrow> queue_ready ControlQ (rt_conn r) \<Longrightarrow>
    conn_trans r (r\<lparr>rt_conn := (rt_conn r)\<lparr>cn_control := cn_control (rt_conn r) @ [control_item ping]\<rparr>,
      rt_maint := Maintaining m'\<rparr>)"
| maint_clears: "rt_maint r = MaintClearing m \<Longrightarrow>
    conn_trans r (r\<lparr>rt_conn := clearPing (rt_conn r), rt_maint := Maintaining m'\<rparr>)"
| maint_closed: "rt_maint r = MaintClosing \<Longrightarrow> rt_closer r = CloserFinished result \<Longrightarrow>
    conn_trans r (r\<lparr>rt_maint := MaintExited\<rparr>)"
| maint_stopped: "rt_maint r = MaintStopping \<Longrightarrow> rt_shutdown r = ShutDone \<Longrightarrow>
    conn_trans r (r\<lparr>rt_maint := MaintExited\<rparr>)"
| watch_moves: "rt_watch r = Watching \<Longrightarrow> w \<in> {WatchRecord e, WatchExited} \<Longrightarrow> conn_trans r (r\<lparr>rt_watch := w\<rparr>)"
| watch_records: "rt_watch r = WatchRecord e \<Longrightarrow>
    conn_trans r (r\<lparr>rt_conn := recordTerminal e (rt_conn r), rt_watch := WatchClose e\<rparr>)"
| watch_closes: "rt_watch r = WatchClose e \<Longrightarrow> conn_trans r (callClose message e (r\<lparr>rt_watch := WatchExited\<rparr>))"
| join: "rt_join r = Joining \<Longrightarrow> joined r \<Longrightarrow> conn_trans r (callShutdown e (r\<lparr>rt_join := JoinStopping\<rparr>))"
| join_done: "rt_join r = JoinStopping \<Longrightarrow> rt_shutdown r = ShutDone \<Longrightarrow>
    conn_trans r (closeDone (r\<lparr>rt_join := JoinExited\<rparr>))"
| owner_done: "rt_owner r = OwnerStopping \<Longrightarrow> rt_shutdown r = ShutDone \<Longrightarrow>
    conn_trans r (closeDone (r\<lparr>rt_owner := OwnerExited\<rparr>))"
| close: "conn_trans r (callClose message e r)"
| closer_records: "rt_closer r = CloserRecord message e \<Longrightarrow>
    conn_trans r (r\<lparr>rt_conn := recordTerminal e (rt_conn r), rt_closer := CloserMark message e\<rparr>)"
| closer_marks: "rt_closer r = CloserMark message e \<Longrightarrow>
    conn_trans r (r\<lparr>rt_conn := (rt_conn r)\<lparr>cn_closing := True\<rparr>, rt_closer := CloserClaim message e\<rparr>)"
| closer_returns: "rt_closer r = CloserClaim message e \<Longrightarrow> cn_startOnce (rt_conn r) \<Longrightarrow>
    \<not> cn_started (rt_conn r) \<or> cn_cause (rt_conn r) \<noteq> None \<Longrightarrow>
    conn_trans r (r\<lparr>rt_closer := CloserFinished result\<rparr>)"
| closer_owns: "rt_closer r = CloserClaim message e \<Longrightarrow> \<not> cn_startOnce (rt_conn r) \<Longrightarrow>
    conn_trans r (callShutdown (Some e) (r\<lparr>rt_conn := (rt_conn r)\<lparr>cn_startOnce := True\<rparr>, rt_owner := OwnerStopping,
      rt_closer := CloserStopping None\<rparr>))"
| closer_requests: "rt_closer r = CloserClaim message e \<Longrightarrow> cn_started (rt_conn r) \<Longrightarrow> cn_cause (rt_conn r) = None \<Longrightarrow> cr_result request = rt_channels r \<Longrightarrow>
    conn_trans r (r\<lparr>rt_closer := CloserSubmit request, rt_channels := Suc (rt_channels r)\<rparr>)"
| closer_submits: "rt_closer r = CloserSubmit request \<Longrightarrow> cn_closeRequest (rt_conn r) = [] \<Longrightarrow>
    conn_trans r (accept (Some (cr_result request))
      (r\<lparr>rt_conn := (rt_conn r)\<lparr>cn_closeRequest := [request]\<rparr>, rt_closer := CloserAwait request\<rparr>))"
| closer_refused: "rt_closer r = CloserSubmit request \<Longrightarrow>
    conn_trans r (callShutdown e (r\<lparr>rt_closer := CloserStopping result\<rparr>))"
| closer_answered: "rt_closer r = CloserAwait request \<Longrightarrow> conn_trans r (callShutdown e (r\<lparr>rt_closer := CloserStopping result\<rparr>))"
| closer_stopped: "rt_closer r = CloserStopping result \<Longrightarrow> rt_shutdown r = ShutDone \<Longrightarrow>
    conn_trans r (r\<lparr>rt_closer := CloserFinished result\<rparr>)"
| abort: "conn_trans r (callShutdown e r)"
| call_records: "k < length (rt_calls r) \<Longrightarrow>
    conn_trans r (r\<lparr>rt_conn := recordTerminal e (rt_conn r), rt_calls := (rt_calls r)[k := Recorded e]\<rparr>)"
| call_returns: "cn_shutdownOnce (rt_conn r) \<Longrightarrow> conn_trans r (r\<lparr>rt_calls := remove_at k (rt_calls r)\<rparr>)"
| call_enters: "k < length (rt_calls r) \<Longrightarrow> rt_calls r ! k = Recorded e \<Longrightarrow> \<not> cn_shutdownOnce (rt_conn r) \<Longrightarrow>
    conn_trans r (r\<lparr>rt_calls := remove_at k (rt_calls r), rt_conn := (rt_conn r)\<lparr>cn_shutdownOnce := True\<rparr>,
      rt_shutdown := ShutMark e\<rparr>)"
| shut_mark: "rt_shutdown r = ShutMark e \<Longrightarrow>
    conn_trans r (r\<lparr>rt_conn := (rt_conn r)\<lparr>cn_closing := True\<rparr>, rt_shutdown := ShutCancel e\<rparr>)"
| shut_cancel: "rt_shutdown r = ShutCancel e \<Longrightarrow>
    conn_trans r (r\<lparr>rt_conn := shutdownCancel e (rt_conn r), rt_shutdown := ShutClear\<rparr>)"
| shut_clear: "rt_shutdown r = ShutClear \<Longrightarrow> conn_trans r (r\<lparr>rt_conn := clearPing (rt_conn r), rt_shutdown := ShutLock\<rparr>)"
| shut_lock: "rt_shutdown r = ShutLock \<Longrightarrow> \<not> leased r \<Longrightarrow>
    conn_trans r (r\<lparr>rt_shutdown := ShutDraining (pendingError (rt_conn r))\<rparr>)"
| shut_drained: "rt_shutdown r = ShutDraining e \<Longrightarrow> failPendingStep e (rt_conn r) = [] \<Longrightarrow>
    conn_trans r (r\<lparr>rt_shutdown := ShutHandlers\<rparr>)"
| shut_drops: "rt_shutdown r = ShutHandlers \<Longrightarrow> cn_handlerQueue (rt_conn r) = msg # msgs \<Longrightarrow>
    conn_trans r (r\<lparr>rt_conn := (rt_conn r)\<lparr>cn_handlerQueue := msgs\<rparr>\<rparr>)"
| shut_dropped: "rt_shutdown r = ShutHandlers \<Longrightarrow> cn_handlerQueue (rt_conn r) = [] \<Longrightarrow> conn_trans r (r\<lparr>rt_shutdown := ShutSession\<rparr>)"
| shut_session: "rt_shutdown r = ShutSession \<Longrightarrow>
    conn_trans r (r\<lparr>rt_conn := closeSession (rt_conn r), rt_shutdown := ShutTransport\<rparr>)"
| shut_transport: "rt_shutdown r = ShutTransport \<Longrightarrow>
    conn_trans r (r\<lparr>rt_conn := (rt_conn r)\<lparr>cn_transportClosed := True\<rparr>, rt_shutdown := ShutDone\<rparr>)"

section \<open>Every step is a transition\<close>

lemma pick_nth: "pick xs k = Some x \<longleftrightarrow> k < length xs \<and> x = xs ! k"
  by (auto simp: pick_def)

lemma trans_send: "conn_trans r (step_send ctxErr call r)"
proof -
  obtain message padLength wait completes where "send_arguments call = (message, padLength, wait, completes)"
    by (metis prod_cases4)
  then show ?thesis
    by (auto simp: step_send_def enqueueGuard_def split: option.splits if_splits intro: conn_trans.skip conn_trans.send)
qed

lemma trans_sender:
  assumes "step_sender i ctxErr k r = Some r'"
  shows "conn_trans r r'"
proof -
  obtain item wait c err where i: "i < length (rt_senders r)" "rt_senders r ! i = (item, wait)"
    and k: "k < length (sender_outcomes ctxErr (item, wait) (rt_conn r))"
      "(c, err) = sender_outcomes ctxErr (item, wait) (rt_conn r) ! k"
    and r': "r' = (let r = r\<lparr>rt_conn := c, rt_senders := remove_at i (rt_senders r)\<rparr>
                   in if err = None then accept (qm_completion item) r else r)"
    using assms by (cases "rt_senders r ! i"; cases "sender_outcomes ctxErr (rt_senders r ! i) (rt_conn r) ! k")
      (auto simp: step_sender_def Let_def pick_nth split: option.splits intro: nth_mem)
  have "(c, err) \<in> set (sender_outcomes ctxErr (item, wait) (rt_conn r))" unfolding k(2) by (rule nth_mem [OF k(1)])
  then show ?thesis
  proof (cases rule: sender_outcomes_cases)
    case (refused e)
    then show ?thesis using conn_trans.sender_refused [OF i(1)] by (simp add: r')
  next
    case accepted
    then show ?thesis using conn_trans.sender_accepted [OF i] by (simp add: r')
  qed
qed

lemma trans_start: "conn_trans r (step_start ctxErr t r)"
  by (auto simp: step_start_def Connection_Start_def Let_def split: option.splits
      intro: conn_trans.skip conn_trans.start_cancelled conn_trans.start_loops)

lemma trans_drain:
  assumes "c \<in> set (failPendingStep e (rt_conn r))" and "rt_writer r = WriterDraining e \<or> rt_shutdown r = ShutDraining e"
  shows "conn_trans r (r\<lparr>rt_conn := c\<rparr>)"
  using assms(1)
  by (cases rule: failPendingStep_cases)
    (simp_all add: assms(2) conn_trans.drain_control conn_trans.drain_outbound conn_trans.drain_close)

lemma trans_writer_choice:
  assumes "(c, p) \<in> set (writer_choices (rt_conn r))" and "rt_writer r = WriterSelect"
  shows "conn_trans r (r\<lparr>rt_conn := c, rt_writer := p\<rparr>)"
  using assms(1)
  by (cases rule: writer_choices_cases)
    (use assms(2) conn_trans.writer_cancelled [of r] in
      \<open>simp_all add: conn_trans.writer_close conn_trans.writer_control conn_trans.writer_outbound\<close>)

lemma trans_writer:
  assumes "step_writer k r = Some r'"
  shows "conn_trans r r'"
proof (cases "rt_writer r")
  case WriterTop
  then show ?thesis
    using assms by (cases "cn_closeRequest (rt_conn r)")
      (auto simp: step_writer_def Let_def intro: conn_trans.writer_select conn_trans.writer_close)
next
  case WriterSelect
  then show ?thesis
    using assms by (auto simp: step_writer_def Let_def dest!: pick_Some intro: trans_writer_choice)
next
  case (Completing item err)
  then show ?thesis
    using assms by (auto simp: step_writer_def Let_def split: if_splits intro: conn_trans.writer_completed conn_trans.writer_failed)
next
  case (WriterDraining e)
  then show ?thesis
    using assms by (auto simp: step_writer_def Let_def split: if_splits dest!: pick_Some
        intro: trans_drain conn_trans.writer_exits)
qed (use assms in \<open>auto simp: step_writer_def Let_def split: if_splits
       intro: conn_trans.writer_reported conn_trans.writer_stopped conn_trans.writer_returns\<close>)

lemma trans_written: "step_written err r = Some r' \<Longrightarrow> conn_trans r r'"
  by (auto simp: step_written_def split: writer_pc.splits intro: conn_trans.writer_written conn_trans.writer_close_written)

lemma trans_session: "step_session s r = Some r' \<Longrightarrow> conn_trans r r'"
  by (auto simp: step_session_def split: if_splits intro: conn_trans.session)

lemma trans_read: "step_read input r = Some r' \<Longrightarrow> conn_trans r r'"
  by (auto simp: step_read_def split: reader_pc.splits sum.splits intro: conn_trans.reader_error conn_trans.reader_read)

lemma readDispatch_cases:
  obtains (ack) n where "readDispatch m c = (acknowledgePing n c, ReadMore)"
  | (other) nxt where "readDispatch m c = (c, nxt)"
proof (cases m)
  case (MPingPong p)
  then show ?thesis by (cases "pp_IsResponse p") (simp_all add: readDispatch_def ack other)
qed (simp_all add: readDispatch_def other)

lemma trans_dispatch:
  assumes "rt_reader r = Dispatching m"
  shows "conn_trans r (reader_dispatch m r)"
proof (cases rule: readDispatch_cases [of m "rt_conn r"])
  case (ack n)
  then show ?thesis using assms by (simp add: reader_dispatch_def conn_trans.reader_ack)
next
  case (other nxt)
  have id: "r\<lparr>rt_conn := rt_conn r\<rparr> = r" by simp
  show ?thesis
    using other assms
    by (cases nxt)
      (auto simp: reader_dispatch_def enqueueGuard_def control_context_def id split: option.splits if_splits
        intro: conn_trans.reader_more conn_trans.reader_stop conn_trans.reader_cancelled conn_trans.reader_deliver
          conn_trans.reader_pong)
qed

lemma trans_reader:
  assumes "step_reader k r = Some r'"
  shows "conn_trans r r'"
proof (cases "rt_reader r")
  case (Enqueuing item)
  then obtain c err where out: "(c, err) \<in> set (enqueueSelect (control_context (rt_conn r)) ControlQ item (rt_conn r))"
    and r': "r' = reader_sent (c, err) r"
    using assms by (auto simp: step_reader_def Let_def dest!: pick_Some)
  have lease: "reader_leases (rt_reader r)" by (simp add: Enqueuing reader_leases_def)
  from out show ?thesis
    by (cases rule: control_select_cases)
      (simp_all add: r' reader_sent_def conn_trans.reader_refused [OF lease] conn_trans.reader_enqueued [OF Enqueuing])
next
  case (Delivering m)
  have lease: "reader_leases (rt_reader r)" by (simp add: Delivering reader_leases_def)
  show ?thesis
    using assms Delivering
    by (auto simp: step_reader_def Let_def reader_sent_def deliverMessage_def conn_trans.reader_refused [OF lease]
        conn_trans.reader_delivered split: if_splits)
qed (use assms in \<open>auto simp: step_reader_def Let_def split: if_splits intro: trans_dispatch conn_trans.reader_stopped\<close>)

lemma trans_handler:
  assumes "step_handler k r = Some r'"
  shows "conn_trans r r'"
proof (cases "rt_handler r")
  case HandlerSelect
  then obtain c p where out: "(c, p) \<in> set (handler_choices (rt_conn r))" and r': "r' = r\<lparr>rt_conn := c, rt_handler := p\<rparr>"
    using assms by (auto simp: step_handler_def Let_def dest!: pick_Some)
  from out show ?thesis
    using conn_trans.handler_exits [of r] HandlerSelect
    by (cases rule: handler_choices_cases) (simp_all add: r' conn_trans.handler_takes)
qed (use assms in \<open>auto simp: step_handler_def Let_def split: if_splits
       intro: conn_trans.handler_select conn_trans.handler_exits conn_trans.handler_begins conn_trans.handler_stopped\<close>)

lemma trans_handler_end: "step_handler_end finished r = Some r' \<Longrightarrow> conn_trans r r'"
  by (auto simp: step_handler_end_def split: handler_pc.splits if_splits intro: conn_trans.handler_ends conn_trans.handler_fails)

lemma trans_maint_select:
  assumes "rt_maint r = Maintaining m" and "maintenanceReady t ev m (rt_conn r)"
  shows "conn_trans r (maint_select t ev m r)"
proof (cases ev)
  case MKeepalive
  show ?thesis
  proof (cases "mt_outstanding m = 0 \<and> cn_cause (rt_conn r) = None")
    case True
    then show ?thesis
      using assms conn_trans.maint_ping [OF assms(1)]
      by (auto simp: maint_select_def maintenanceStep_def MKeepalive beginPing_def Let_def)
  next
    case False
    then show ?thesis
      using assms
      by (auto simp: maint_select_def maintenanceStep_def MKeepalive beginPing_def Let_def
          intro: conn_trans.maint_local conn_trans.maint_cancelled)
  qed
qed (use assms in \<open>auto simp: maint_select_def maintenanceStep_def maintenanceReady_def consumePingAcknowledgement_def Let_def
       intro: conn_trans.maint_cancelled conn_trans.maint_activity conn_trans.maint_wakeup conn_trans.maint_pong conn_trans.maint_consume
         conn_trans.maint_timeout conn_trans.maint_idle\<close>)

lemma trans_maint:
  assumes "step_maint t ev r = Some r'"
  shows "conn_trans r r'"
proof (cases "rt_maint r")
  case (MaintTrying m n)
  then show ?thesis
    using assms
    by (auto simp: step_maint_def enqueueTry_def Let_def split: if_splits intro: conn_trans.maint_full conn_trans.maint_sent)
qed (use assms in \<open>auto simp: step_maint_def Let_def pongConsume_def consumePingAcknowledgement_def enqueueGuard_def
       split: if_splits option.splits closer_pc.splits
       intro: trans_maint_select conn_trans.maint_consume conn_trans.maint_leases conn_trans.maint_refused
         conn_trans.maint_clears conn_trans.maint_closed conn_trans.maint_stopped\<close>)

lemma trans_watch: "step_watch ctxErr r = Some r' \<Longrightarrow> conn_trans r r'"
  by (auto simp: step_watch_def split: watch_pc.splits option.splits if_splits
      intro: conn_trans.watch_moves conn_trans.watch_records conn_trans.watch_closes)

lemma trans_join: "step_join r = Some r' \<Longrightarrow> conn_trans r r'"
  by (auto simp: step_join_def split: join_pc.splits if_splits intro: conn_trans.join conn_trans.join_done)

lemma trans_owner: "step_owner r = Some r' \<Longrightarrow> conn_trans r r'"
  by (auto simp: step_owner_def split: if_splits intro: conn_trans.owner_done)

lemma trans_claim: "rt_closer r = CloserClaim message cause \<Longrightarrow> conn_trans r (closer_claim message cause r)"
  by (auto simp: closer_claim_def closeClaim_def split: if_splits
      intro: conn_trans.closer_returns conn_trans.closer_owns conn_trans.closer_requests)

lemma trans_closer:
  assumes "step_closer expired k r = Some r'"
  shows "conn_trans r r'"
proof (cases "rt_closer r")
  case (CloserSubmit request)
  then obtain c out where out: "(c, out) \<in> set (closeSubmit expired request (rt_conn r))"
    and r': "r' = (case out of
                  Submitted \<Rightarrow> accept (Some (cr_result request)) (r\<lparr>rt_conn := c, rt_closer := CloserAwait request\<rparr>)
                | NotSubmitted result \<Rightarrow>
                    callShutdown (Some (cr_cause request)) (r\<lparr>rt_conn := c, rt_closer := CloserStopping result\<rparr>))"
    using assms by (auto simp: step_closer_def Let_def dest!: pick_Some)
  from out show ?thesis
    using conn_trans.closer_refused [OF CloserSubmit]
    by (cases rule: closeSubmit_cases) (simp_all add: r' conn_trans.closer_submits [OF CloserSubmit])
qed (use assms in \<open>auto simp: step_closer_def Let_def split: if_splits
       intro: conn_trans.closer_records conn_trans.closer_marks trans_claim conn_trans.closer_answered
         conn_trans.closer_stopped\<close>)

lemma trans_call: "step_call k r = Some r' \<Longrightarrow> conn_trans r r'"
  by (auto simp: step_call_def Let_def pick_nth split: option.splits shutdown_call.splits if_splits
      intro: conn_trans.call_records conn_trans.call_returns conn_trans.call_enters)

lemma trans_shutdown:
  assumes "step_shutdown k r = Some r'"
  shows "conn_trans r r'"
proof (cases "rt_shutdown r")
  case (ShutDraining e)
  then show ?thesis
    using assms by (auto simp: step_shutdown_def Let_def split: if_splits dest!: pick_Some intro: trans_drain conn_trans.shut_drained)
next
  case ShutHandlers
  then show ?thesis
    using assms by (cases "cn_handlerQueue (rt_conn r)")
      (auto simp: step_shutdown_def Let_def intro: conn_trans.shut_drops conn_trans.shut_dropped)
qed (use assms in \<open>auto simp: step_shutdown_def Let_def split: if_splits
       intro: conn_trans.shut_mark conn_trans.shut_cancel conn_trans.shut_clear conn_trans.shut_lock
         conn_trans.shut_session conn_trans.shut_transport\<close>)

lemmas trans_steps = trans_sender trans_writer trans_written trans_session trans_read trans_reader trans_handler
  trans_handler_end trans_maint trans_watch trans_join trans_owner trans_closer trans_call trans_shutdown

lemma conn_step_trans: "conn_step ev r = Some r' \<Longrightarrow> conn_trans r r'"
  by (cases ev) (auto intro: trans_steps trans_send trans_start conn_trans.close conn_trans.abort)

end
