(* ===== verification/Connection_Invariants.thy ===== *)
theory Connection_Invariants
  imports Connection_Transitions
begin

text \<open>
  Invariants of the connection runtime: how far the shutdown has come and what is then closed, cleared and
  empty; which processes exist; the bounds of the queues; what never changes again once set.
\<close>

section \<open>Phases of the shutdown\<close>

fun phase :: "shutdown_pc \<Rightarrow> nat" where
  "phase ShutIdle = 0"
| "phase (ShutMark _) = 1"
| "phase (ShutCancel _) = 2"
| "phase ShutClear = 3"
| "phase ShutLock = 4"
| "phase (ShutDraining _) = 5"
| "phase ShutHandlers = 6"
| "phase ShutSession = 7"
| "phase ShutTransport = 8"
| "phase ShutDone = 9"

definition shutdown_ok :: "'c runtime \<Rightarrow> bool" where
  "shutdown_ok r \<longleftrightarrow>
     (let c = rt_conn r; p = phase (rt_shutdown r)
      in (cn_shutdownOnce c \<longleftrightarrow> 0 < p)
       \<and> (0 < p \<or> (\<exists>e. Recorded e \<in> set (rt_calls r)) \<longrightarrow> cn_terminal c \<noteq> None)
       \<and> (2 \<le> p \<longrightarrow> cn_closing c)
       \<and> (cn_cause c \<noteq> None \<longleftrightarrow> 3 \<le> p)
       \<and> (4 \<le> p \<longrightarrow> cn_pingExpected c = 0 \<and> \<not> cn_pingAcknowledged c)
       \<and> (5 \<le> p \<longrightarrow> \<not> leased r)
       \<and> (6 \<le> p \<longrightarrow> cn_outbound c = [] \<and> cn_control c = [] \<and> cn_closeRequest c = [])
       \<and> (7 \<le> p \<longrightarrow> cn_handlerQueue c = [])
       \<and> (8 \<le> p \<longrightarrow> closed (cn_session c))
       \<and> (9 \<le> p \<longrightarrow> cn_transportClosed c))"

lemma shutdown_okD:
  assumes "shutdown_ok r"
  shows "cn_shutdownOnce (rt_conn r) \<longleftrightarrow> 0 < phase (rt_shutdown r)"
    and "0 < phase (rt_shutdown r) \<or> (\<exists>e. Recorded e \<in> set (rt_calls r)) \<longrightarrow> cn_terminal (rt_conn r) \<noteq> None"
    and "2 \<le> phase (rt_shutdown r) \<longrightarrow> cn_closing (rt_conn r)"
    and "cn_cause (rt_conn r) \<noteq> None \<longleftrightarrow> 3 \<le> phase (rt_shutdown r)"
    and "4 \<le> phase (rt_shutdown r) \<longrightarrow> cn_pingExpected (rt_conn r) = 0 \<and> \<not> cn_pingAcknowledged (rt_conn r)"
    and "5 \<le> phase (rt_shutdown r) \<longrightarrow> \<not> leased r"
    and "6 \<le> phase (rt_shutdown r) \<longrightarrow> cn_outbound (rt_conn r) = [] \<and> cn_control (rt_conn r) = [] \<and> cn_closeRequest (rt_conn r) = []"
    and "7 \<le> phase (rt_shutdown r) \<longrightarrow> cn_handlerQueue (rt_conn r) = []"
    and "8 \<le> phase (rt_shutdown r) \<longrightarrow> closed (cn_session (rt_conn r))"
    and "9 \<le> phase (rt_shutdown r) \<longrightarrow> cn_transportClosed (rt_conn r)"
  using assms unfolding shutdown_ok_def Let_def by - (elim conjE, assumption)+

lemma early_phases:
  assumes "shutdown_ok r"
  shows "\<not> cn_closing (rt_conn r) \<Longrightarrow> phase (rt_shutdown r) < 2"
    and "cn_cause (rt_conn r) = None \<Longrightarrow> phase (rt_shutdown r) < 3"
    and "leased r \<Longrightarrow> phase (rt_shutdown r) < 5"
    and "cn_outbound (rt_conn r) = x # xs \<Longrightarrow> phase (rt_shutdown r) < 6"
    and "cn_control (rt_conn r) = x # xs \<Longrightarrow> phase (rt_shutdown r) < 6"
    and "cn_closeRequest (rt_conn r) = y # ys \<Longrightarrow> phase (rt_shutdown r) < 6"
    and "cn_handlerQueue (rt_conn r) = z # zs \<Longrightarrow> phase (rt_shutdown r) < 7"
  using assms by (rule_tac [!] ccontr) (simp_all add: shutdown_ok_def Let_def not_less)

lemma uncancelled:
  assumes "shutdown_ok r"
  shows "\<not> cn_closing (rt_conn r) \<Longrightarrow> cn_cause (rt_conn r) = None"
    and "phase (rt_shutdown r) < 3 \<Longrightarrow> cn_cause (rt_conn r) = None"
proof -
  show "phase (rt_shutdown r) < 3 \<Longrightarrow> cn_cause (rt_conn r) = None" using shutdown_okD(4) [OF assms] by auto
  then show "\<not> cn_closing (rt_conn r) \<Longrightarrow> cn_cause (rt_conn r) = None" using early_phases(1) [OF assms] by simp
qed

lemma terminal_recorded:
  assumes "shutdown_ok r" and "cn_shutdownOnce (rt_conn r) \<or> Recorded e \<in> set (rt_calls r)"
  shows "cn_terminal (rt_conn r) \<noteq> None"
  using shutdown_okD(1,2) [OF assms(1)] assms(2) by blast

lemma remove_at_Nil [simp]: "remove_at k [] = []"
  by (simp add: remove_at_def)

lemma leased_intros [intro]:
  "x \<in> set (rt_senders r) \<Longrightarrow> leased r"
  "reader_leases (rt_reader r) \<Longrightarrow> leased r"
  "maint_leases (rt_maint r) \<Longrightarrow> leased r"
  "closer_leases (rt_closer r) \<Longrightarrow> leased r"
  by (auto simp: leased_def)

lemma lease_points [simp]:
  "reader_leases (Enqueuing item)" "reader_leases (Delivering msg)" "\<not> reader_leases ReaderOff" "\<not> reader_leases Reading"
  "\<not> reader_leases (Dispatching msg)" "\<not> reader_leases ReaderStopping" "\<not> reader_leases ReaderExited"
  "maint_leases (MaintTrying m n)" "\<not> maint_leases MaintOff" "\<not> maint_leases (Maintaining m)"
  "\<not> maint_leases (MaintConsuming m)" "\<not> maint_leases (MaintPinging m n)" "\<not> maint_leases (MaintClearing m)"
  "\<not> maint_leases MaintClosing" "\<not> maint_leases MaintStopping" "\<not> maint_leases MaintExited"
  "closer_leases (CloserSubmit q)" "\<not> closer_leases CloserIdle" "\<not> closer_leases (CloserRecord message e)"
  "\<not> closer_leases (CloserMark message e)" "\<not> closer_leases (CloserClaim message e)" "\<not> closer_leases (CloserAwait q)"
  "\<not> closer_leases (CloserStopping result)" "\<not> closer_leases (CloserFinished result)"
  by (simp_all add: reader_leases_def maint_leases_def closer_leases_def)

section \<open>The shutdown invariant\<close>

lemma shutdown_ok_trans:
  assumes "conn_trans r r'" and "shutdown_ok r"
  shows "shutdown_ok r'"
  using assms(1)
proof (cases rule: conn_trans.cases)
  case (sender_accepted i item wait)
  then have "leased r" by (metis leased_intros(1) nth_mem)
  then show ?thesis
    using early_phases(3) [OF assms(2)] assms(2) sender_accepted(1)
    by (simp add: op_updates shutdown_ok_def Let_def)
next
  case (call_enters k e)
  then have "Recorded e \<in> set (rt_calls r)" by (metis nth_mem)
  then have "cn_terminal (rt_conn r) \<noteq> None" using terminal_recorded [OF assms(2)] by blast
  moreover have "phase (rt_shutdown r) = 0" using assms(2) call_enters(4) by (simp add: shutdown_ok_def Let_def)
  ultimately show ?thesis
    using uncancelled(2) [OF assms(2)] unfolding call_enters(1) by (simp add: shutdown_ok_def Let_def)
next
  case (call_returns k)
  then have "cn_terminal (rt_conn r) \<noteq> None" using terminal_recorded [OF assms(2)] by blast
  then show ?thesis
    using assms(2) unfolding call_returns(1) by (simp add: shutdown_ok_def leased_def Let_def)
qed (use assms(2) early_phases [OF assms(2)] uncancelled [OF assms(2)] in
       \<open>simp_all add: op_updates shutdown_ok_def leased_def callClose_def acknowledgePing_def failPendingStep_Nil Let_def\<close>)

section \<open>Processes\<close>

definition loops_ok :: "'c runtime \<Rightarrow> bool" where
  "loops_ok r \<longleftrightarrow>
     (if cn_started (rt_conn r)
      then cn_startOnce (rt_conn r) \<and> rt_join r \<noteq> JoinOff \<and> rt_writer r \<noteq> WriterOff \<and> rt_reader r \<noteq> ReaderOff
        \<and> rt_maint r \<noteq> MaintOff \<and> rt_owner r = OwnerNone
      else rt_join r = JoinOff \<and> rt_writer r = WriterOff \<and> rt_reader r = ReaderOff \<and> rt_maint r = MaintOff
        \<and> rt_handler r = HandlerOff \<and> (rt_owner r = OwnerNone \<longleftrightarrow> \<not> cn_startOnce (rt_conn r)))"

lemma loops_ok_trans:
  assumes "conn_trans r r'" and "loops_ok r"
  shows "loops_ok r'"
proof (cases "cn_started (rt_conn r)")
  case True
  show ?thesis
    using assms(1) by (cases rule: conn_trans.cases)
      (use assms(2) True in \<open>simp_all add: loops_ok_def op_updates callClose_def acknowledgePing_def\<close>)
next
  case False
  show ?thesis
    using assms(1) by (cases rule: conn_trans.cases)
      (use assms(2) False in \<open>simp_all add: loops_ok_def op_updates callClose_def acknowledgePing_def\<close>)
qed

definition close_ok :: "'c runtime \<Rightarrow> bool" where
  "close_ok r \<longleftrightarrow> (cn_closeOnce (rt_conn r) \<longleftrightarrow> rt_closer r \<noteq> CloserIdle) \<and> (rt_maint r = MaintClosing \<longrightarrow> rt_closer r \<noteq> CloserIdle)"

lemma close_ok_trans:
  assumes "conn_trans r r'" and "close_ok r"
  shows "close_ok r'"
  using assms(1) by (cases rule: conn_trans.cases)
    (use assms(2) in \<open>simp_all add: close_ok_def op_updates callClose_def acknowledgePing_def\<close>)

definition done_ok :: "'c runtime \<Rightarrow> bool" where
  "done_ok r \<longleftrightarrow>
     (if rt_join r = JoinExited \<or> rt_owner r = OwnerExited
      then cn_done (rt_conn r) \<and> rt_doneCloses r = 1 \<and> rt_shutdown r = ShutDone
      else \<not> cn_done (rt_conn r) \<and> rt_doneCloses r = 0)
     \<and> (rt_join r \<in> {JoinStopping, JoinExited} \<longrightarrow> joined r)"

lemma done_ok_trans:
  assumes "conn_trans r r'" and "done_ok r" and "loops_ok r" and "shutdown_ok r"
  shows "done_ok r'"
  using assms(1)
proof (cases rule: conn_trans.cases)
  case (call_enters k e)
  then have "rt_shutdown r \<noteq> ShutDone" using shutdown_okD(1) [OF assms(4)] by auto
  then show ?thesis
    using assms(2) unfolding call_enters(1) by (auto simp: done_ok_def joined_def split: if_splits)
next
  case (owner_done)
  then have "\<not> cn_started (rt_conn r)" using assms(3) by (auto simp: loops_ok_def split: if_splits)
  then show ?thesis
    using assms(2,3) owner_done by (simp add: done_ok_def loops_ok_def op_updates)
next
  case (join_done)
  then have "cn_started (rt_conn r)" using assms(3) by (auto simp: loops_ok_def split: if_splits)
  then show ?thesis
    using assms(2,3) join_done by (simp add: done_ok_def loops_ok_def joined_def op_updates)
next
  case (start_loops h m)
  then show ?thesis
    using assms(2,3) by (auto simp: done_ok_def loops_ok_def joined_def split: if_splits)
next
  case (start_cancelled e)
  then show ?thesis
    using assms(2,3) by (auto simp: done_ok_def loops_ok_def joined_def op_updates split: if_splits)
next
  case (closer_owns message e)
  then show ?thesis
    using assms(2,3) by (auto simp: done_ok_def loops_ok_def joined_def op_updates split: if_splits)
qed (use assms(2) in \<open>auto simp: done_ok_def joined_def op_updates callClose_def acknowledgePing_def split: if_splits\<close>)

section \<open>Bounds\<close>

definition bounds_ok :: "'c connection \<Rightarrow> bool" where
  "bounds_ok c \<longleftrightarrow> length (cn_outbound c) \<le> queue_capacity OutboundQ c \<and> length (cn_control c) \<le> queue_capacity ControlQ c
     \<and> length (cn_handlerQueue c) \<le> nat (cc_HandlerQueue (cn_config c)) \<and> length (cn_closeRequest c) \<le> 1"

lemma bounds_ok_trans:
  assumes "conn_trans r r'" and "bounds_ok (rt_conn r)"
  shows "bounds_ok (rt_conn r')"
  using assms(1) by (cases rule: conn_trans.cases)
    (use assms(2) in \<open>simp_all add: op_updates bounds_ok_def queue_ready_def callClose_def acknowledgePing_def\<close>)

lemma stable_trans:
  assumes "conn_trans r r'"
  shows "cn_config (rt_conn r') = cn_config (rt_conn r)"
    and "cn_terminal (rt_conn r) = Some e \<Longrightarrow> cn_terminal (rt_conn r') = Some e"
    and "cn_cause (rt_conn r) = Some e \<Longrightarrow> cn_cause (rt_conn r') = Some e"
    and "\<exists>more. cn_results (rt_conn r') = cn_results (rt_conn r) @ more"
  using assms by (cases rule: conn_trans.cases, simp_all add: op_updates callClose_def acknowledgePing_def)+

end
