(* ===== verification/Connection_Channels.thy ===== *)
theory Connection_Channels
  imports Connection_Invariants "HOL-Library.Multiset"
begin

text \<open>
  Where the result channels of accepted requests are: in a queue, with the writer, or answered; each in exactly one
  place. And that loops return only after the connection was cancelled.
\<close>

section \<open>Returning loops\<close>

text \<open>A loop that has returned has seen the connection cancelled.\<close>

definition exit_ok :: "'c runtime \<Rightarrow> bool" where
  "exit_ok r \<longleftrightarrow>
     (let c = rt_conn r
      in (rt_writer r \<in> {WriterReturning, WriterExited} \<or> (\<exists>e. rt_writer r = WriterDraining e) \<longrightarrow> cn_cause c \<noteq> None)
       \<and> (rt_reader r = ReaderExited \<longrightarrow> cn_cause c \<noteq> None)
       \<and> (rt_handler r = HandlerExited \<longrightarrow> cn_cause c \<noteq> None)
       \<and> (rt_maint r = MaintExited \<longrightarrow> cn_cause c \<noteq> None)
       \<and> (closer_leases (rt_closer r) \<or> (\<exists>q. rt_closer r = CloserAwait q) \<or> (\<exists>x. rt_closer r = CloserStopping x) \<longrightarrow> cn_startOnce c)
       \<and> ((\<exists>x. rt_closer r = CloserFinished x) \<longrightarrow> cn_startOnce c \<and> (cn_started c \<longrightarrow> cn_cause c \<noteq> None)))"


lemma exit_ok_trans:
  assumes "conn_trans r r'" and "exit_ok r" and "shutdown_ok r" and "loops_ok r"
  shows "exit_ok r'"
proof -
  have finished: "rt_shutdown r = ShutDone \<Longrightarrow> cn_cause (rt_conn r) \<noteq> None"
    using shutdown_okD(4) [OF assms(3)] by simp
  have started: "cn_started (rt_conn r) \<Longrightarrow> cn_startOnce (rt_conn r)"
    using assms(4) by (simp add: loops_ok_def)
  have running: "rt_maint r \<noteq> MaintOff \<Longrightarrow> cn_started (rt_conn r)"
    using assms(4) by (simp add: loops_ok_def split: if_splits)
  show ?thesis
    using assms(1)
  proof (cases rule: conn_trans.cases)
    case (maint_closed result)
    then show ?thesis using assms(2) running by (simp add: exit_ok_def Let_def)
  qed (use assms(2) finished started in
         \<open>auto simp: exit_ok_def op_updates callClose_def acknowledgePing_def Let_def split: option.splits\<close>)
qed

section \<open>Result channels\<close>

fun item_channels :: "queued_message \<Rightarrow> nat list" where
  "item_channels item = channel_list (qm_completion item)"

fun writer_channels :: "writer_pc \<Rightarrow> nat list" where
  "writer_channels (Writing item) = item_channels item"
| "writer_channels (Completing item err) = item_channels item"
| "writer_channels (WritingClose request) = [cr_result request]"
| "writer_channels (Reporting request err) = [cr_result request]"
| "writer_channels _ = []"

fun closer_channels :: "closer_pc \<Rightarrow> nat list" where
  "closer_channels (CloserSubmit request) = [cr_result request]"
| "closer_channels _ = []"

text \<open>The channels that are answered, queued or with the writer; and those of requests accepted or on the way to
  a queue.\<close>

definition placed :: "'c runtime \<Rightarrow> nat multiset" where
  "placed r = mset (map fst (cn_results (rt_conn r)))
     + (mset (concat (map item_channels (cn_control (rt_conn r)))) + (mset (concat (map item_channels (cn_outbound (rt_conn r))))
     + (mset (map cr_result (cn_closeRequest (rt_conn r))) + mset (writer_channels (rt_writer r)))))"

definition claimed :: "'c runtime \<Rightarrow> nat multiset" where
  "claimed r = mset (rt_accepted r) + (mset (concat (map (item_channels \<circ> fst) (rt_senders r))) + mset (closer_channels (rt_closer r)))"

definition channels_ok :: "'c runtime \<Rightarrow> bool" where
  "channels_ok r \<longleftrightarrow> placed r = mset (rt_accepted r) \<and> (\<forall>i. count (claimed r) i \<le> 1) \<and> (\<forall>i \<in># claimed r. i < rt_channels r)
     \<and> (\<forall>item. rt_reader r = Enqueuing item \<longrightarrow> qm_completion item = None)"

lemma concat_remove_at:
  assumes "i < length xs"
  shows "mset (concat (map f xs)) = mset (f (xs ! i)) + mset (concat (map f (remove_at i xs)))"
proof -
  have "mset (concat (map f xs)) = mset (concat (map f (take i xs @ xs ! i # drop (Suc i) xs)))"
    using id_take_nth_drop [OF assms] by simp
  then show ?thesis by (simp add: remove_at_def)
qed

lemma control_item_channels [simp]: "qm_completion (control_item m) = None"
  by (simp add: control_item_def)

lemma map_pair [simp]: "map (fst \<circ> (\<lambda>i. (i, err))) xs = xs"
  by (simp add: comp_def)

lemma placed_trans:
  assumes "conn_trans r r'" and "\<And>item. rt_reader r = Enqueuing item \<Longrightarrow> qm_completion item = None" and "loops_ok r"
  shows "placed r' + mset (rt_accepted r) = placed r + mset (rt_accepted r')"
  using assms(1)
proof (cases rule: conn_trans.cases)
  case (reader_enqueued item)
  then show ?thesis using assms(2) by (simp add: placed_def)
next
  case (writer_close request requests)
  then have "writer_channels (rt_writer r) = []" by auto
  then show ?thesis using writer_close(1,3) by (simp add: placed_def)
next
  case (start_loops h m)
  then have "rt_writer r = WriterOff" using assms(3) by (auto simp: loops_ok_def split: if_splits)
  then show ?thesis using start_loops(1) by (simp add: placed_def)
qed (simp_all add: placed_def op_updates callClose_def acknowledgePing_def ac_simps)

lemma claimed_trans:
  assumes "conn_trans r r'"
  shows "(claimed r' \<subseteq># claimed r \<and> rt_channels r' = rt_channels r)
    \<or> (claimed r' \<subseteq># add_mset (rt_channels r) (claimed r) \<and> rt_channels r' = Suc (rt_channels r))"
  using assms(1)
proof (cases rule: conn_trans.cases)
  case (send item wait)
  then show ?thesis by (auto simp: claimed_def)
next
  case (sender_refused i)
  then show ?thesis
    using concat_remove_at [OF sender_refused(2), of "item_channels \<circ> fst"] by (simp add: claimed_def)
next
  case (sender_accepted i item wait)
  then show ?thesis
    using concat_remove_at [OF sender_accepted(2), of "item_channels \<circ> fst"] by (simp add: claimed_def op_updates ac_simps)
qed (simp_all add: claimed_def op_updates callClose_def acknowledgePing_def)

lemma pongs_trans:
  assumes "conn_trans r r'" and "\<And>item. rt_reader r = Enqueuing item \<Longrightarrow> qm_completion item = None"
    and "rt_reader r' = Enqueuing item"
  shows "qm_completion item = None"
  using assms(1) by (cases rule: conn_trans.cases)
    (use assms(2,3) in \<open>auto simp: op_updates callClose_def split: if_splits\<close>)

lemma channels_ok_trans:
  assumes "conn_trans r r'" and "channels_ok r" and "loops_ok r"
  shows "channels_ok r'"
proof -
  have ok: "placed r = mset (rt_accepted r)" "\<And>i. count (claimed r) i \<le> 1" "\<And>i. i \<in># claimed r \<Longrightarrow> i < rt_channels r"
    and pong: "\<And>item. rt_reader r = Enqueuing item \<Longrightarrow> qm_completion item = None"
    using assms(2) by (auto simp: channels_ok_def)
  have fresh: "count (claimed r) (rt_channels r) = 0" using ok(3) not_in_iff by fastforce
  have placed: "placed r' = mset (rt_accepted r')" using placed_trans [OF assms(1) pong assms(3)] ok(1) by simp
  from claimed_trans [OF assms(1)] have "(\<forall>i. count (claimed r') i \<le> 1) \<and> (\<forall>i \<in># claimed r'. i < rt_channels r')"
  proof (elim disjE conjE)
    assume sub: "claimed r' \<subseteq># claimed r" and n: "rt_channels r' = rt_channels r"
    show ?thesis using ok(2,3) mset_subset_eq_count [OF sub] mset_subset_eqD [OF sub] n by (auto intro: order_trans)
  next
    assume sub: "claimed r' \<subseteq># add_mset (rt_channels r) (claimed r)" and n: "rt_channels r' = Suc (rt_channels r)"
    have "count (add_mset (rt_channels r) (claimed r)) i \<le> 1" for i using ok(2) [of i] fresh by auto
    moreover have "i \<in># add_mset (rt_channels r) (claimed r) \<Longrightarrow> i < Suc (rt_channels r)" for i
      using ok(3) [of i] by auto
    ultimately show ?thesis
      using mset_subset_eq_count [OF sub] mset_subset_eqD [OF sub] n by (metis order_trans)
  qed
  then show ?thesis using placed pongs_trans [OF assms(1) pong] by (simp add: channels_ok_def)
qed

section \<open>The invariant\<close>

definition runtime_ok :: "'c runtime \<Rightarrow> bool" where
  "runtime_ok r \<longleftrightarrow> shutdown_ok r \<and> loops_ok r \<and> close_ok r \<and> done_ok r \<and> exit_ok r \<and> bounds_ok (rt_conn r) \<and> channels_ok r"

lemma runtime_ok_step:
  assumes "runtime_ok r" and "conn_step ev r = Some r'"
  shows "runtime_ok r'"
proof -
  note t = conn_step_trans [OF assms(2)]
  have ok: "shutdown_ok r" "loops_ok r" "close_ok r" "done_ok r" "exit_ok r" "bounds_ok (rt_conn r)" "channels_ok r"
    using assms(1) by (simp_all add: runtime_ok_def)
  show ?thesis
    unfolding runtime_ok_def
    using shutdown_ok_trans [OF t ok(1)] loops_ok_trans [OF t ok(2)] close_ok_trans [OF t ok(3)]
      done_ok_trans [OF t ok(4) ok(2) ok(1)] exit_ok_trans [OF t ok(5) ok(1) ok(2)] bounds_ok_trans [OF t ok(6)]
      channels_ok_trans [OF t ok(7) ok(2)] by simp
qed

lemma runtime_ok_start:
  assumes "runtime_start r"
  shows "runtime_ok r"
proof -
  obtain t s config c where c: "NewConnection (Some t) (Some s) config = Inr c" and r: "r = runtime_of c"
    using assms by (auto simp: runtime_start_def)
  from c have "cn_outbound c = []" "cn_control c = []" "cn_closeRequest c = []" "cn_handlerQueue c = []" "cn_results c = []"
    "cn_cause c = None" "\<not> cn_shutdownOnce c" "\<not> cn_startOnce c" "\<not> cn_started c" "\<not> cn_closeOnce c" "\<not> cn_done c"
    by (auto simp: NewConnection_def)
  then show ?thesis
    by (simp add: r runtime_of_def runtime_ok_def shutdown_ok_def loops_ok_def close_ok_def done_ok_def exit_ok_def
        bounds_ok_def channels_ok_def placed_def claimed_def Let_def)
qed

interpretation connection_machine: invariant_machine runtime_start runtime_next runtime_ok
  by unfold_locales (auto simp: runtime_next_def intro: runtime_ok_start runtime_ok_step)

end
