(* ===== verification/Connection_Termination.thy ===== *)
theory Connection_Termination
  imports Connection_Channels
begin

text \<open>
  An aborted connection comes to rest: from every reachable state its own goroutines can take it, by finitely
  many steps, to the point where \<^verbatim>\<open>done\<close> is closed. A step of the schedule lowers a measure: the phases
  of the shutdown, then the leases and queues it waits for, then the program points of the loops.
\<close>

section \<open>Schedules\<close>

fun own_step :: "'c conn_event \<Rightarrow> bool" where
  "own_step (ESend _ _) = False"
| "own_step (EStart _ _) = False"
| "own_step (ESession _) = False"
| "own_step (EClose _ _) = False"
| "own_step (EAbort _) = False"
| "own_step _ = True"

definition moves :: "'c runtime \<Rightarrow> 'c runtime \<Rightarrow> bool" where
  "moves r r' \<longleftrightarrow> (\<exists>ev. own_step ev \<and> conn_step ev r = Some r')"

lemma moves_ok: "moves r r' \<Longrightarrow> runtime_ok r \<Longrightarrow> runtime_ok r'"
  by (auto simp: moves_def intro: runtime_ok_step)

lemma movesI: "conn_step ev r = Some r' \<Longrightarrow> own_step ev \<Longrightarrow> moves r r'"
  by (auto simp: moves_def)

lemma pick_member: "x \<in> set xs \<Longrightarrow> \<exists>k. pick xs k = Some x"
  by (auto simp: in_set_conv_nth pick_def)

lemma pick_first [simp]: "pick (x # xs) 0 = Some x"
  by (simp add: pick_def)

lemma runtime_okD:
  assumes "runtime_ok r"
  shows "shutdown_ok r" and "loops_ok r" and "close_ok r" and "done_ok r" and "exit_ok r"
  using assms by (simp_all add: runtime_ok_def)

section \<open>The shutdown\<close>

text \<open>The leases a disposal waits for, each of which may still put one element into a queue.\<close>

definition backlog :: "'c runtime \<Rightarrow> nat" where
  "backlog r = 2 * (length (rt_senders r) + (if reader_leases (rt_reader r) then 1 else 0)
      + (if maint_leases (rt_maint r) then 1 else 0) + (if closer_leases (rt_closer r) then 1 else 0))
     + pending_count (rt_conn r) + length (cn_handlerQueue (rt_conn r))"

lemma release_sender:
  assumes "rt_senders r = sender # senders" and "cn_cause (rt_conn r) \<noteq> None"
  shows "\<exists>r'. moves r r' \<and> rt_shutdown r' = rt_shutdown r \<and> backlog r' < backlog r"
proof -
  obtain item wait where s: "sender = (item, wait)" by (cases sender)
  have "sender_outcomes None sender (rt_conn r) \<noteq> []"
    using assms(2) by (simp add: s sender_outcomes_def enqueueSelect_def)
  then obtain c err where out: "(c, err) \<in> set (sender_outcomes None sender (rt_conn r))"
    by (metis list.set_intros(1) neq_Nil_conv surj_pair)
  then obtain k where k: "pick (sender_outcomes None sender (rt_conn r)) k = Some (c, err)" using pick_member by metis
  let ?r = "r\<lparr>rt_conn := c, rt_senders := remove_at 0 (rt_senders r)\<rparr>"
  let ?r' = "if err = None then accept (qm_completion (fst sender)) ?r else ?r"
  have "conn_step (ESender 0 None k) r = Some ?r'"
    using assms(1) k by (simp add: step_sender_def Let_def)
  moreover have "rt_shutdown ?r' = rt_shutdown r \<and> backlog ?r' < backlog r"
    using out by (cases rule: sender_outcomes_cases) (simp_all add: assms(1) backlog_def remove_at_def accept_def)
  ultimately show ?thesis using movesI [of "ESender 0 None k" r ?r'] by auto
qed

lemma release_reader:
  assumes "reader_leases (rt_reader r)" and "cn_cause (rt_conn r) \<noteq> None"
  shows "\<exists>r'. moves r r' \<and> rt_shutdown r' = rt_shutdown r \<and> backlog r' < backlog r"
proof (cases "rt_reader r")
  case (Enqueuing item)
  then have "conn_step (EReader 0) r = Some (callShutdown (Some ErrCanceled) (r\<lparr>rt_reader := ReaderStopping\<rparr>))"
    using assms(2) by (simp add: step_reader_def Let_def enqueueSelect_def control_context_def pick_def reader_sent_def)
  then show ?thesis
    using Enqueuing movesI [of "EReader 0" r] by (fastforce simp: callShutdown_def backlog_def)
next
  case (Delivering m)
  then have "conn_step (EReader 0) r = Some (reader_sent (deliverMessage m (rt_conn r)) r)"
    by (simp add: step_reader_def)
  moreover have "rt_shutdown (reader_sent (deliverMessage m (rt_conn r)) r) = rt_shutdown r
      \<and> backlog (reader_sent (deliverMessage m (rt_conn r)) r) < backlog r"
    using Delivering by (simp add: reader_sent_def deliverMessage_def callShutdown_def backlog_def)
  ultimately show ?thesis using movesI [of "EReader 0" r] by fastforce
qed (use assms(1) in simp_all)

lemma release_maint:
  assumes "maint_leases (rt_maint r)"
  shows "\<exists>r'. moves r r' \<and> rt_shutdown r' = rt_shutdown r \<and> backlog r' < backlog r"
proof (cases "rt_maint r")
  case (MaintTrying m n)
  obtain r' where r': "conn_step (EMaint 0 MPong) r = Some r'"
    using MaintTrying by (cases "queue_ready ControlQ (rt_conn r)") (auto simp: step_maint_def enqueueTry_def Let_def)
  then have "rt_shutdown r' = rt_shutdown r \<and> backlog r' < backlog r"
    using MaintTrying by (auto simp: step_maint_def enqueueTry_def Let_def backlog_def split: if_splits)
  then show ?thesis using movesI [OF r'] by auto
qed (use assms in simp_all)

lemma release_closer:
  assumes "closer_leases (rt_closer r)" and "cn_cause (rt_conn r) = Some cause"
  shows "\<exists>r'. moves r r' \<and> rt_shutdown r' = rt_shutdown r \<and> backlog r' < backlog r"
proof (cases "rt_closer r")
  case (CloserSubmit request)
  have "(rt_conn r, NotSubmitted (Some cause)) \<in> set (closeSubmit False request (rt_conn r))"
    using assms(2) by (simp add: closeSubmit_def)
  then obtain k where k: "pick (closeSubmit False request (rt_conn r)) k = Some (rt_conn r, NotSubmitted (Some cause))"
    using pick_member by metis
  let ?r' = "callShutdown (Some (cr_cause request)) (r\<lparr>rt_closer := CloserStopping (Some cause)\<rparr>)"
  have "conn_step (ECloser False k) r = Some ?r'"
    using CloserSubmit k by (simp add: step_closer_def Let_def)
  moreover have "rt_shutdown ?r' = rt_shutdown r \<and> backlog ?r' < backlog r"
    using CloserSubmit by (simp add: callShutdown_def backlog_def)
  ultimately show ?thesis using movesI [of "ECloser False k" r ?r'] by auto
qed (use assms in simp_all)

lemma release_lease:
  assumes "leased r" and "cn_cause (rt_conn r) \<noteq> None"
  shows "\<exists>r'. moves r r' \<and> rt_shutdown r' = rt_shutdown r \<and> backlog r' < backlog r"
proof -
  consider sender senders where "rt_senders r = sender # senders" | "reader_leases (rt_reader r)"
    | "maint_leases (rt_maint r)" | "closer_leases (rt_closer r)"
    using assms(1) by (cases "rt_senders r") (auto simp: leased_def)
  then show ?thesis
    using assms(2) release_sender release_reader release_maint release_closer by cases blast+
qed

lemma drain_advances:
  assumes "rt_shutdown r = ShutDraining e"
  shows "\<exists>r'. step_shutdown 0 r = Some r' \<and> (phase (rt_shutdown r) < phase (rt_shutdown r')
    \<or> rt_shutdown r' = rt_shutdown r \<and> backlog r' < backlog r)"
proof (cases "failPendingStep e (rt_conn r)")
  case Nil
  then have "step_shutdown 0 r = Some (r\<lparr>rt_shutdown := ShutHandlers\<rparr>)" using assms by (simp add: step_shutdown_def Let_def)
  then show ?thesis using assms by simp
next
  case (Cons c cs)
  then have step: "step_shutdown 0 r = Some (r\<lparr>rt_conn := c\<rparr>)" using assms by (simp add: step_shutdown_def Let_def)
  have "c \<in> set (failPendingStep e (rt_conn r))" using Cons by simp
  then have "cn_handlerQueue c = cn_handlerQueue (rt_conn r)"
    by (cases rule: failPendingStep_cases) (simp_all add: op_updates)
  then have "backlog (r\<lparr>rt_conn := c\<rparr>) < backlog r" using failPendingStep_first [OF Cons] by (simp add: backlog_def)
  then show ?thesis using step by simp
qed

lemma body_advances:
  assumes "0 < phase (rt_shutdown r)" and "rt_shutdown r \<noteq> ShutDone" and "rt_shutdown r = ShutLock \<Longrightarrow> \<not> leased r"
  shows "\<exists>r'. step_shutdown 0 r = Some r' \<and> (phase (rt_shutdown r) < phase (rt_shutdown r')
    \<or> rt_shutdown r' = rt_shutdown r \<and> backlog r' < backlog r)"
proof (cases "rt_shutdown r")
  case (ShutDraining e)
  then show ?thesis by (rule drain_advances)
next
  case ShutHandlers
  then show ?thesis
    by (cases "cn_handlerQueue (rt_conn r)") (simp_all add: step_shutdown_def Let_def backlog_def)
qed (use assms in \<open>simp_all add: step_shutdown_def Let_def\<close>)

lemma shutdown_advances:
  assumes "runtime_ok r" and "0 < phase (rt_shutdown r)" and "rt_shutdown r \<noteq> ShutDone"
  shows "\<exists>r'. moves r r' \<and> (phase (rt_shutdown r) < phase (rt_shutdown r')
    \<or> rt_shutdown r' = rt_shutdown r \<and> backlog r' < backlog r)"
proof (cases "rt_shutdown r = ShutLock \<and> leased r")
  case True
  then have "cn_cause (rt_conn r) \<noteq> None" using shutdown_okD(4) [OF runtime_okD(1) [OF assms(1)]] by simp
  from release_lease [OF conjunct2 [OF True] this]
  obtain r' where "moves r r'" and "rt_shutdown r' = rt_shutdown r" and "backlog r' < backlog r" by (elim exE conjE)
  then show ?thesis by (intro exI [of _ r']) simp
next
  case False
  then obtain r' where r': "step_shutdown 0 r = Some r'"
    and less: "phase (rt_shutdown r) < phase (rt_shutdown r') \<or> rt_shutdown r' = rt_shutdown r \<and> backlog r' < backlog r"
    using body_advances [OF assms(2,3)] by blast
  have "moves r r'" using r' by (intro movesI [of "EShutdown 0"]) simp_all
  then show ?thesis using less by blast
qed

section \<open>The loops\<close>

fun writer_rank :: "writer_pc \<Rightarrow> nat" where
  "writer_rank (Writing _) = 6"
| "writer_rank (WritingClose _) = 6"
| "writer_rank (Completing _ _) = 5"
| "writer_rank (Reporting _ _) = 5"
| "writer_rank WriterTop = 4"
| "writer_rank WriterSelect = 3"
| "writer_rank WriterStopping = 3"
| "writer_rank WriterReturning = 2"
| "writer_rank (WriterDraining _) = 1"
| "writer_rank _ = 0"

fun reader_rank :: "reader_pc \<Rightarrow> nat" where
  "reader_rank (Dispatching _) = 3"
| "reader_rank Reading = 2"
| "reader_rank ReaderStopping = 1"
| "reader_rank _ = 0"

fun handler_rank :: "handler_pc \<Rightarrow> nat" where
  "handler_rank (HandlerBusy _) = 3"
| "handler_rank HandlerOff = 0"
| "handler_rank HandlerExited = 0"
| "handler_rank HandlerStopping = 1"
| "handler_rank _ = 2"

fun maint_rank :: "maint_pc \<Rightarrow> nat" where
  "maint_rank (MaintPinging _ _) = 4"
| "maint_rank (MaintClearing _) = 3"
| "maint_rank (MaintConsuming _) = 3"
| "maint_rank (Maintaining _) = 2"
| "maint_rank MaintClosing = 1"
| "maint_rank MaintStopping = 1"
| "maint_rank _ = 0"

fun closer_rank :: "closer_pc \<Rightarrow> nat" where
  "closer_rank (CloserRecord _ _) = 5"
| "closer_rank (CloserMark _ _) = 4"
| "closer_rank (CloserClaim _ _) = 3"
| "closer_rank (CloserAwait _) = 2"
| "closer_rank (CloserStopping _) = 1"
| "closer_rank _ = 0"

fun join_rank :: "join_pc \<Rightarrow> nat" where
  "join_rank Joining = 2"
| "join_rank JoinStopping = 1"
| "join_rank _ = 0"

fun owner_rank :: "owner_pc \<Rightarrow> nat" where
  "owner_rank OwnerStopping = 1"
| "owner_rank _ = 0"

definition rank :: "'c runtime \<Rightarrow> nat" where
  "rank r = writer_rank (rt_writer r) + reader_rank (rt_reader r) + handler_rank (rt_handler r) + maint_rank (rt_maint r)
     + closer_rank (rt_closer r) + join_rank (rt_join r) + owner_rank (rt_owner r)"

text \<open>A state in which the body of \<^verbatim>\<open>shutdown\<close> is over, and what the invariant says of it.\<close>

definition shut :: "'c runtime \<Rightarrow> bool" where
  "shut r \<longleftrightarrow> runtime_ok r \<and> rt_shutdown r = ShutDone"

lemma shutD:
  assumes "shut r"
  shows "rt_shutdown r = ShutDone" and "cn_cause (rt_conn r) \<noteq> None" and "cn_closing (rt_conn r)"
    and "\<not> reader_leases (rt_reader r)" and "\<not> maint_leases (rt_maint r)" and "\<not> closer_leases (rt_closer r)"
    and "cn_closeRequest (rt_conn r) = []" and "failPendingStep e (rt_conn r) = []"
  using assms shutdown_okD [of r] by (auto simp: shut_def runtime_ok_def leased_def failPendingStep_Nil)

definition descends :: "'c runtime \<Rightarrow> bool" where
  "descends r \<longleftrightarrow> (\<exists>r'. moves r r' \<and> rt_shutdown r' = rt_shutdown r \<and> rank r' < rank r)"

lemma descendsI:
  assumes "case conn_step ev r of Some r' \<Rightarrow> rt_shutdown r' = rt_shutdown r \<and> rank r' < rank r | None \<Rightarrow> False" and "own_step ev"
  shows "descends r"
  using assms by (auto simp: descends_def moves_def split: option.splits)

lemma writer_descends:
  assumes "shut r" and "rt_writer r \<notin> {WriterOff, WriterExited}"
  shows "descends r"
proof (cases "rt_writer r")
  case (Writing item)
  then show ?thesis by (intro descendsI [where ev = "EWritten None"]) (auto simp: step_written_def rank_def)
next
  case (WritingClose request)
  then show ?thesis by (intro descendsI [where ev = "EWritten None"]) (auto simp: step_written_def rank_def)
next
  case WriterSelect
  then show ?thesis
    using shutD(2) [OF assms(1)] by (intro descendsI [where ev = "EWriter 0"]) (auto simp: step_writer_def writer_choices_def Let_def rank_def)
next
  case (Completing item err)
  then show ?thesis
    by (cases err) (auto intro!: descendsI [where ev = "EWriter 0"] simp: step_writer_def Let_def op_updates rank_def)
qed (use assms shutD [OF assms(1)] in
       \<open>auto intro!: descendsI [where ev = "EWriter 0"] simp: step_writer_def Let_def op_updates rank_def\<close>)

lemma reader_descends:
  assumes "shut r" and "rt_reader r \<notin> {ReaderOff, ReaderExited}"
  shows "descends r"
proof (cases "rt_reader r")
  case Reading
  then show ?thesis by (intro descendsI [where ev = "ERead (Inl ErrCanceled)"]) (auto simp: step_read_def op_updates rank_def)
next
  case (Dispatching m)
  have "rt_shutdown (reader_dispatch m r) = rt_shutdown r \<and> rank (reader_dispatch m r) < rank r"
  proof (cases rule: readDispatch_cases [of m "rt_conn r"])
    case (ack n)
    then show ?thesis using Dispatching by (simp add: reader_dispatch_def rank_def)
  next
    case (other nxt)
    then show ?thesis
      using Dispatching shutD(2,3) [OF assms(1)]
      by (cases nxt) (auto simp: reader_dispatch_def enqueueGuard_def control_context_def op_updates rank_def)
  qed
  then show ?thesis
    using Dispatching by (intro descendsI [where ev = "EReader 0"]) (auto simp: step_reader_def)
next
  case ReaderStopping
  then show ?thesis
    using shutD(1) [OF assms(1)] by (intro descendsI [where ev = "EReader 0"]) (auto simp: step_reader_def Let_def rank_def)
qed (use assms shutD(4) [OF assms(1)] in simp_all)

lemma handler_descends:
  assumes "shut r" and "rt_handler r \<notin> {HandlerOff, HandlerExited}"
  shows "descends r"
proof (cases "rt_handler r")
  case (HandlerBusy m)
  then show ?thesis
    by (intro descendsI [where ev = "EHandlerEnd (Some (HandlerReturns None))"])
      (auto simp: step_handler_end_def callHandlerBounded_def callHandler_def rank_def)
qed (use assms shutD(1,2) [OF assms(1)] in
       \<open>auto intro!: descendsI [where ev = "EHandler 0"] simp: step_handler_def handler_choices_def Let_def rank_def\<close>)

lemma closer_descends:
  assumes "shut r" and "cn_started (rt_conn r)" and "rt_closer r \<noteq> CloserIdle" and "\<And>x. rt_closer r \<noteq> CloserFinished x"
  shows "descends r"
proof (cases "rt_closer r")
  case (CloserAwait request)
  obtain cause where "cn_cause (rt_conn r) = Some cause" using shutD(2) [OF assms(1)] by auto
  then have "closeAwait False (cr_result request) (rt_conn r) \<noteq> []" by (simp add: closeAwait_def)
  then obtain result results where "closeAwait False (cr_result request) (rt_conn r) = result # results"
    by (meson neq_Nil_conv)
  then show ?thesis
    using CloserAwait by (intro descendsI [where ev = "ECloser False 0"]) (auto simp: step_closer_def Let_def op_updates rank_def)
next
  case (CloserClaim message e)
  have "cn_startOnce (rt_conn r)" using assms(1,2) by (simp add: shut_def runtime_ok_def loops_ok_def)
  then show ?thesis
    using CloserClaim assms(2) shutD(2) [OF assms(1)]
    by (intro descendsI [where ev = "ECloser False 0"])
      (auto simp: step_closer_def closer_claim_def closeClaim_def Let_def rank_def)
qed (use assms shutD(1,6) [OF assms(1)] in
       \<open>auto intro!: descendsI [where ev = "ECloser False 0"] simp: step_closer_def Let_def op_updates rank_def\<close>)

lemma maint_descends:
  assumes "shut r" and "rt_maint r \<notin> {MaintOff, MaintExited}"
  shows "descends r"
proof (cases "rt_maint r")
  case (Maintaining m)
  then show ?thesis
    using shutD(2) [OF assms(1)]
    by (intro descendsI [where ev = "EMaint 0 MCancelled"])
      (auto simp: step_maint_def maintenanceReady_def maint_select_def maintenanceStep_def Let_def rank_def)
next
  case MaintClosing
  have closer: "rt_closer r \<noteq> CloserIdle" and started: "cn_started (rt_conn r)"
    using assms(1) MaintClosing by (auto simp: shut_def runtime_ok_def close_ok_def loops_ok_def split: if_splits)
  show ?thesis
  proof (cases "\<exists>x. rt_closer r = CloserFinished x")
    case True
    then show ?thesis
      using MaintClosing by (intro descendsI [where ev = "EMaint 0 MPong"]) (auto simp: step_maint_def Let_def rank_def)
  next
    case False
    then show ?thesis using closer_descends [OF assms(1) started closer] by blast
  qed
qed (use assms shutD(1,3,5) [OF assms(1)] in
       \<open>auto intro!: descendsI [where ev = "EMaint 0 MPong"]
          simp: step_maint_def pongConsume_def consumePingAcknowledgement_def enqueueGuard_def control_context_def op_updates
            Let_def rank_def split: option.splits\<close>)

lemma shut_descends:
  assumes "shut r" and "cn_startOnce (rt_conn r)" and "\<not> cn_done (rt_conn r)"
  shows "descends r"
proof (cases "cn_started (rt_conn r)")
  case False
  then have "rt_owner r = OwnerStopping"
    using assms by (cases "rt_owner r") (auto simp: shut_def runtime_ok_def loops_ok_def done_ok_def)
  then show ?thesis
    using shutD(1) [OF assms(1)] by (intro descendsI [where ev = EOwner]) (auto simp: step_owner_def op_updates rank_def)
next
  case True
  then have loops: "rt_writer r \<noteq> WriterOff" "rt_reader r \<noteq> ReaderOff" "rt_maint r \<noteq> MaintOff" "rt_join r \<noteq> JoinOff"
    using assms(1) by (simp_all add: shut_def runtime_ok_def loops_ok_def)
  show ?thesis
  proof (cases "joined r")
    case False
    then show ?thesis
      using loops writer_descends [OF assms(1)] reader_descends [OF assms(1)] handler_descends [OF assms(1)]
        maint_descends [OF assms(1)] by (auto simp: joined_def)
  next
    case True
    moreover have "rt_join r \<noteq> JoinExited" using assms(1,3) by (auto simp: shut_def runtime_ok_def done_ok_def)
    ultimately show ?thesis
      using loops(4) shutD(1) [OF assms(1)]
      by (cases "rt_join r") (auto intro!: descendsI [where ev = EJoin] simp: step_join_def op_updates rank_def)
  qed
qed

section \<open>Runs\<close>

lemma conn_run_append: "conn_run (xs @ ys) r = (case conn_run xs r of Some r' \<Rightarrow> conn_run ys r' | None \<Rightarrow> None)"
  by (induction xs arbitrary: r) (simp_all split: option.split)

lemma startOnce_stable: "conn_trans r r' \<Longrightarrow> cn_startOnce (rt_conn r) \<Longrightarrow> cn_startOnce (rt_conn r')"
  by (erule conn_trans.cases) (simp_all add: op_updates callClose_def acknowledgePing_def)

lemma phase_le: "phase p \<le> 9"
  by (cases p) simp_all

lemma shut_backlog: "shut r \<Longrightarrow> backlog r = 0"
  using shutdown_okD [of r] by (auto simp: shut_def runtime_ok_def leased_def backlog_def)

lemma shut_down_finishes:
  assumes "runtime_ok r" and "0 < phase (rt_shutdown r)" and "cn_startOnce (rt_conn r)"
  shows "\<exists>evs r'. list_all own_step evs \<and> conn_run evs r = Some r' \<and> cn_done (rt_conn r')"
  using assms
proof (induction r rule: wf_induct_rule [OF wf_measures [of "[\<lambda>r. 9 - phase (rt_shutdown r), backlog, rank]"]])
  case (1 r)
  show ?case
  proof (cases "cn_done (rt_conn r)")
    case True
    then show ?thesis by (intro exI [of _ "[]"] exI [of _ r]) simp
  next
    case False
    have step: "\<exists>r'. moves r r' \<and> 0 < phase (rt_shutdown r')
        \<and> (r', r) \<in> measures [\<lambda>r. 9 - phase (rt_shutdown r), backlog, rank]"
    proof (cases "rt_shutdown r = ShutDone")
      case True
      then have shut: "shut r" using 1(2) by (simp add: shut_def)
      obtain r' where r': "moves r r'" "rt_shutdown r' = rt_shutdown r" "rank r' < rank r"
        using shut_descends [OF shut 1(4) False] by (auto simp: descends_def)
      have "shut r'" using moves_ok [OF r'(1) 1(2)] r'(2) True by (simp add: shut_def)
      then have "backlog r' = backlog r" using shut by (simp add: shut_backlog)
      then show ?thesis using r' 1(3) by (intro exI [of _ r']) simp
    next
      case False
      then obtain r' where "moves r r'" and "phase (rt_shutdown r) < phase (rt_shutdown r')
          \<or> rt_shutdown r' = rt_shutdown r \<and> backlog r' < backlog r"
        using shutdown_advances [OF 1(2,3)] by blast
      then show ?thesis
        using 1(3) phase_le [of "rt_shutdown r'"] by (intro exI [of _ r']) auto
    qed
    then obtain r' ev where r': "own_step ev" "conn_step ev r = Some r'" "0 < phase (rt_shutdown r')"
      "(r', r) \<in> measures [\<lambda>r. 9 - phase (rt_shutdown r), backlog, rank]"
      by (auto simp: moves_def)
    obtain evs r'' where "list_all own_step evs" "conn_run evs r' = Some r''" "cn_done (rt_conn r'')"
      using 1(1) [OF r'(4) runtime_ok_step [OF 1(2) r'(2)] r'(3) startOnce_stable [OF conn_step_trans [OF r'(2)] 1(4)]]
      by blast
    then show ?thesis using r'(1,2) by (intro exI [of _ "ev # evs"] exI [of _ r'']) simp
  qed
qed

text \<open>An abort starts the shutdown, if nothing did before.\<close>

lemma abort_shuts_down:
  assumes "runtime_ok r"
  shows "\<exists>evs r'. list_all own_step evs \<and> conn_run (EAbort cause # evs) r = Some r' \<and> 0 < phase (rt_shutdown r')
    \<and> cn_startOnce (rt_conn r') = cn_startOnce (rt_conn r) \<and> runtime_ok r'"
proof -
  let ?k = "length (rt_calls r)"
  let ?r1 = "callShutdown (Some cause) r"
  let ?r2 = "?r1\<lparr>rt_conn := recordTerminal cause (rt_conn r), rt_calls := rt_calls r @ [Recorded cause]\<rparr>"
  have 1: "conn_step (EAbort cause) r = Some ?r1" by simp
  have 2: "conn_step (ECall ?k) ?r1 = Some ?r2" by (simp add: step_call_def pick_def callShutdown_def)
  obtain r3 where 3: "conn_step (ECall ?k) ?r2 = Some r3"
    by (simp add: step_call_def pick_def callShutdown_def Let_def)
  have ok2: "runtime_ok ?r2" using runtime_ok_step [OF runtime_ok_step [OF assms 1] 2] .
  have "cn_shutdownOnce (rt_conn ?r2) \<longleftrightarrow> 0 < phase (rt_shutdown ?r2)"
    using shutdown_okD(1) [OF runtime_okD(1) [OF ok2]] .
  then have "0 < phase (rt_shutdown r3) \<and> cn_startOnce (rt_conn r3) = cn_startOnce (rt_conn r)"
    using 3 by (auto simp: step_call_def pick_def callShutdown_def op_updates Let_def split: if_splits)
  then show ?thesis
    using 1 2 3 runtime_ok_step [OF ok2 3] by (intro exI [of _ "[ECall ?k, ECall ?k]"] exI [of _ r3]) simp
qed

end
