(* ===== verification/Connection_Delivery.thy ===== *)
theory Connection_Delivery
  imports Connection
begin

text \<open>
  The writer and the reader of two connections joined by a byte stream: a message handed to
  \<^verbatim>\<open>writeMessage\<close> arrives, whatever rekeying happens on the way.
\<close>

section \<open>One round of the writer\<close>

lemma send_round:
  assumes A: "aead_ok A" and pr: "paired A a b"
    and sent: "Session_Send A clk rd (Some a) (Val m) pad = (Some a', Inr f)"
  obtains (data) b' where "wf_frame f" "received_frame f = f" "h_MessageType (f_Header f) \<noteq> 8"
      "Session_Receive A clk' (Some b) f = (Some b', Inr m)" "paired A a' b'"
    | (rekey) b' a'' r where "wf_frame f" "received_frame f = f" "h_MessageType (f_Header f) = 8"
      "Session_Receive A clk' (Some b) f = (Some b', Inr (MRekeyInit r))"
      "MarkRekeySent clk'' (Some a') f = (Some a'', None)" "paired A a'' b'"
proof -
  obtain t bs where m: "outboundType m = Inr t" "message_MarshalBinary m = Inr bs"
    and sp: "sendPayload A clk rd a t bs pad = (a', Inr f)" using Session_Send_Inr [OF sent] .
  have ok: "send_ok A a" using pr by (simp add: paired_def)
  then have sid: "length (sessionID a) = 16" by (simp add: send_ok_def)
  note snt = sendPayload_Inr [OF ok A sp]
  have "\<exists>mt p. Codec_Encrypt A (send a) rd mt (sessionID a) (nextSequence a) p pad = Inr f" using snt(4) by blast
  then have wf: "wf_frame f" "received_frame f = f" using encrypted_frame(1,3) [OF A sid] by blast+
  show ?thesis
  proof (cases "rekeyDueLocked clk a")
    case False
    then obtain b' where "ReceivePayload A clk' (Some b) f = (Some b', Inr bs)" "paired A a' b'"
      "h_MessageType (f_Header f) = t"
      using paired_data [OF A pr sp] outboundType_valid [OF m(1)] by blast
    then show ?thesis
      using data [OF wf] message_roundtrip [OF m] outboundType_valid [OF m(1)] by (auto simp: Session_Receive_def)
  next
    case True
    then have "RekeyInit_UnmarshalBinary (rekey_payload (sendKey a) (sendEpoch a + 1)) =
        Inr (rekey_message (sendKey a) (sendEpoch a + 1))"
      using snt(5) word_successor rekey_message_unmarshals by blast
    moreover obtain b' a'' where "ReceivePayload A clk' (Some b) f =
        (Some b', Inr (rekey_payload (sendKey a) (sendEpoch a + 1)))"
      "MarkRekeySent clk'' (Some a') f = (Some a'', None)" "paired A a'' b'" "h_MessageType (f_Header f) = 8"
      using paired_rekey [OF A pr sp True, of clk' clk''] by blast
    ultimately show ?thesis
      using rekey [OF wf] by (auto simp: Session_Receive_def newInboundMessage_def map_result_def)
  qed
qed

section \<open>The reader\<close>

text \<open>\<open>n\<close> rounds of the first half of \<^verbatim>\<open>readLoop\<close>: read a frame, receive it; \<open>now k\<close> is the clock in the \<open>k\<close>-th.\<close>

fun receiveMessages ::
  "'c aead \<Rightarrow> (nat \<Rightarrow> clock) \<Rightarrow> ctx \<Rightarrow> nat \<Rightarrow> 'c session \<Rightarrow> conn \<Rightarrow> 'c session \<times> conn \<times> message list result" where
  "receiveMessages A now cx 0 s t = (s, t, Inr [])"
| "receiveMessages A now cx (Suc n) s t =
     (case ReadFrame cx t of
        (t, Inl err) \<Rightarrow> (s, t, Inl err)
      | (t, Inr f) \<Rightarrow>
          (case Session_Receive A (now 0) (Some s) f of
             (Some s, Inr m) \<Rightarrow>
               (case receiveMessages A (\<lambda>k. now (Suc k)) cx n s t of
                  (s, t, Inl err) \<Rightarrow> (s, t, Inl err)
                | (s, t, Inr ms) \<Rightarrow> (s, t, Inr (m # ms)))
           | (_, Inl err) \<Rightarrow> (s, t, Inl err)
           | (None, Inr _) \<Rightarrow> (s, t, Inl Panic)))"

lemma receiveMessages_frame:
  assumes "live cx" and "wf_frame f" and "received_frame f = f" and "Frame_MarshalBinary f = Inr w"
    and "conn_in d = w @ rest" and "Session_Receive A (now 0) (Some b) f = (Some b1, Inr x)"
    and "receiveMessages A (\<lambda>k. now (Suc k)) cx n b1 (d\<lparr>conn_in := rest\<rparr>) = (b2, d2, Inr ms)"
  shows "receiveMessages A now cx (Suc n) b d = (b2, d2, Inr (x # ms))"
  using ReadFrame_wire [OF assms(1,2,4,5)] assms(3,6,7) by simp

lemma writeMessage_delivers:
  assumes "aead_ok A" and "live cx" and "paired A s b" and "qm_message item = Val m"
    and "writeMessage A now reader cxs i item s t = (s', t', None)"
  shows "\<exists>bytes n. conn_out t' = conn_out t @ bytes
    \<and> (\<forall>d rest. conn_in d = bytes @ rest \<longrightarrow>
         (\<exists>b' rekeys. receiveMessages A now' cx (Suc n) b d = (b', d\<lparr>conn_in := rest\<rparr>, Inr (map MRekeyInit rekeys @ [m]))
            \<and> length rekeys = n \<and> paired A s' b'))"
  using assms(3,5)
proof (induction "unat (- 1 - sendEpoch s)" arbitrary: s t i b now' rule: less_induct)
  case less
  obtain s1 f t1 where sent: "Session_Send A (now (2 * i)) (reader i) (Some s) (Val m) (qm_padLength item) = (Some s1, Inr f)"
    and written: "WriteFrame (cxs i) t f = (t1, None)"
    using less.prems(2) assms(4)
    by (subst (asm) writeMessage.simps) (auto split: prod.splits sum.splits option.splits if_splits)
  obtain w where w: "Frame_MarshalBinary f = Inr w" "conn_out t1 = conn_out t @ w" using WriteFrame_None [OF written] by blast
  note unfold = writeMessage.simps [of A now reader cxs i item s t]
  show ?case
  proof (cases rule: send_round [where clk' = "now' 0" and clk'' = "now (2 * i + 1)", OF assms(1) less.prems(1) sent, case_names data rekey])
    case (data b')
    have "s' = s1" "t' = t1" using less.prems(2) sent written data(3) assms(4) by (simp_all add: unfold)
    moreover have "receiveMessages A now' cx (Suc 0) b d = (b', d\<lparr>conn_in := rest\<rparr>, Inr [m])"
      if "conn_in d = w @ rest" for d rest
      by (rule receiveMessages_frame [where now = now', OF assms(2) data(1,2) w(1) that data(4)]) simp
    ultimately show ?thesis using w(2) data(5) by (intro exI [of _ w] exI [of _ 0]) auto
  next
    case (rekey b' a'' r)
    have go: "writeMessage A now reader cxs (Suc i) item a'' t1 = (s', t', None)"
      using less.prems(2) sent written rekey(3,5) assms(4) by (simp add: unfold)
    have "unat (- 1 - sendEpoch a'') < unat (- 1 - sendEpoch s)"
      using rekey_round_epoch [OF sent rekey(3,5)] epoch_measure by simp
    then obtain bytes n where out: "conn_out t' = conn_out t1 @ bytes"
      and rec: "\<And>d rest. conn_in d = bytes @ rest \<Longrightarrow>
         \<exists>b2 rekeys. receiveMessages A (\<lambda>k. now' (Suc k)) cx (Suc n) b' d = (b2, d\<lparr>conn_in := rest\<rparr>, Inr (map MRekeyInit rekeys @ [m]))
            \<and> length rekeys = n \<and> paired A s' b2"
      using less.hyps [OF _ rekey(6) go, of "\<lambda>k. now' (Suc k)"] by blast
    have "\<exists>b2 rekeys. receiveMessages A now' cx (Suc (Suc n)) b d = (b2, d\<lparr>conn_in := rest\<rparr>, Inr (map MRekeyInit rekeys @ [m]))
            \<and> length rekeys = Suc n \<and> paired A s' b2" if d: "conn_in d = (w @ bytes) @ rest" for d rest
    proof -
      obtain b2 rekeys where r: "receiveMessages A (\<lambda>k. now' (Suc k)) cx (Suc n) b' (d\<lparr>conn_in := bytes @ rest\<rparr>) =
          (b2, d\<lparr>conn_in := rest\<rparr>, Inr (map MRekeyInit rekeys @ [m]))" "length rekeys = n" "paired A s' b2"
        using rec [of "d\<lparr>conn_in := bytes @ rest\<rparr>" rest] by auto
      have "receiveMessages A now' cx (Suc (Suc n)) b d = (b2, d\<lparr>conn_in := rest\<rparr>, Inr (MRekeyInit r # map MRekeyInit rekeys @ [m]))"
        by (rule receiveMessages_frame [where now = now', OF assms(2) rekey(1,2) w(1) _ rekey(4) r(1)]) (simp add: d)
      then show ?thesis using r(2,3) by (intro exI [of _ b2] exI [of _ "r # rekeys"]) simp
    qed
    then show ?thesis using out w(2) by (intro exI [of _ "w @ bytes"] exI [of _ "Suc n"]) simp
  qed
qed

section \<open>Streams of messages\<close>

text \<open>The items the writer takes from its queues, one after the other, until one fails. The
  environment of the \<open>k\<close>-th item is \<open>now k\<close>, \<open>reader k\<close>, \<open>cxs k\<close>.\<close>

fun writeMessages ::
  "'c aead \<Rightarrow> (nat \<Rightarrow> nat \<Rightarrow> clock) \<Rightarrow> (nat \<Rightarrow> nat \<Rightarrow> bytes) \<Rightarrow> (nat \<Rightarrow> nat \<Rightarrow> ctx) \<Rightarrow> queued_message list \<Rightarrow>
   'c session \<Rightarrow> conn \<Rightarrow> 'c session \<times> conn \<times> dg_error option" where
  "writeMessages A now reader cxs [] s t = (s, t, None)"
| "writeMessages A now reader cxs (item # items) s t =
     (case writeMessage A (now 0) (reader 0) (cxs 0) 0 item s t of
        (s, t, Some err) \<Rightarrow> (s, t, Some err)
      | (s, t, None) \<Rightarrow>
          writeMessages A (\<lambda>k. now (Suc k)) (\<lambda>k. reader (Suc k)) (\<lambda>k. cxs (Suc k)) items s t)"

fun is_rekey :: "message \<Rightarrow> bool" where
  "is_rekey (MRekeyInit _) = True"
| "is_rekey _ = False"

lemma receiveMessages_append:
  assumes "receiveMessages A now cx n b d = (b1, d1, Inr ms)"
    and "receiveMessages A (\<lambda>k. now (k + n)) cx l b1 d1 = (b2, d2, Inr ms')"
  shows "receiveMessages A now cx (n + l) b d = (b2, d2, Inr (ms @ ms'))"
  using assms
proof (induction n arbitrary: now b d ms)
  case (Suc n)
  obtain d' f b' m ms'' where r: "ReadFrame cx d = (d', Inr f)" "Session_Receive A (now 0) (Some b) f = (Some b', Inr m)"
    "receiveMessages A (\<lambda>k. now (Suc k)) cx n b' d' = (b1, d1, Inr ms'')" "ms = m # ms''"
    using Suc.prems(1) by (auto split: prod.splits sum.splits option.splits)
  then show ?case using Suc.IH [OF r(3)] Suc.prems(2) by simp
qed simp

lemma Session_Send_not_rekey: "Session_Send A clk rd (Some s) (Val m) pad = (sp, Inr f) \<Longrightarrow> \<not> is_rekey m"
  by (cases m) (auto simp: Session_Send_def)

lemma writeMessage_not_rekey:
  "writeMessage A now reader cxs i item s t = (s', t', None) \<Longrightarrow> qm_message item = Val m \<Longrightarrow> \<not> is_rekey m"
  by (subst (asm) writeMessage.simps) (auto split: prod.splits sum.splits option.splits dest: Session_Send_not_rekey)

lemma writeMessages_deliver:
  assumes "aead_ok A" and "live cx" and "paired A s b" and "map qm_message items = map Val ms"
    and "writeMessages A now reader cxs items s t = (s', t', None)"
  shows "\<exists>bytes. conn_out t' = conn_out t @ bytes
    \<and> (\<forall>d rest. conn_in d = bytes @ rest \<longrightarrow>
         (\<exists>n b' got. receiveMessages A now' cx n b d = (b', d\<lparr>conn_in := rest\<rparr>, Inr got)
            \<and> filter (\<lambda>m. \<not> is_rekey m) got = ms \<and> paired A s' b'))"
  using assms(3-5)
proof (induction items arbitrary: ms now reader cxs s t b now')
  case Nil
  have "receiveMessages A now' cx 0 b d = (b, d\<lparr>conn_in := conn_in d\<rparr>, Inr [])" for d :: conn by simp
  then show ?case using Nil by (intro exI [of _ "[]"]) (fastforce intro: exI [of _ "0 :: nat"])
next
  case (Cons item items)
  obtain m ms1 where ms: "ms = m # ms1" "qm_message item = Val m" "map qm_message items = map Val ms1"
    using Cons.prems(2) by (cases ms) auto
  obtain s1 t1 where first: "writeMessage A (now 0) (reader 0) (cxs 0) 0 item s t = (s1, t1, None)"
    and next': "writeMessages A (\<lambda>k. now (Suc k)) (\<lambda>k. reader (Suc k)) (\<lambda>k. cxs (Suc k)) items s1 t1 = (s', t', None)"
    using Cons.prems(3) by (auto split: prod.splits option.splits)
  obtain bytes1 n where out1: "conn_out t1 = conn_out t @ bytes1"
    and rec1: "\<And>d rest. conn_in d = bytes1 @ rest \<Longrightarrow>
      \<exists>b1 rekeys. receiveMessages A now' cx (Suc n) b d = (b1, d\<lparr>conn_in := rest\<rparr>, Inr (map MRekeyInit rekeys @ [m]))
        \<and> length rekeys = n \<and> paired A s1 b1"
    using writeMessage_delivers [OF assms(1,2) Cons.prems(1) ms(2) first, of now'] by blast
  note rec2 = Cons.IH [OF _ ms(3) next', where now' = "\<lambda>k. now' (k + Suc n)"]
  obtain b0 where "paired A s1 b0" using rec1 [of "sample_conn bytes1" "[]"] by auto
  then obtain bytes2 where out2: "conn_out t' = conn_out t1 @ bytes2" using rec2 by blast
  have "\<exists>n b' got. receiveMessages A now' cx n b d = (b', d\<lparr>conn_in := rest\<rparr>, Inr got)
      \<and> filter (\<lambda>m. \<not> is_rekey m) got = ms \<and> paired A s' b'" if d: "conn_in d = (bytes1 @ bytes2) @ rest" for d rest
  proof -
    obtain b1 rekeys where r1: "receiveMessages A now' cx (Suc n) b d =
        (b1, d\<lparr>conn_in := bytes2 @ rest\<rparr>, Inr (map MRekeyInit rekeys @ [m]))" "paired A s1 b1"
      using rec1 [of d "bytes2 @ rest"] d by auto
    have all: "\<forall>d rest. conn_in d = bytes2 @ rest \<longrightarrow>
        (\<exists>k b' got. receiveMessages A (\<lambda>k. now' (k + Suc n)) cx k b1 d = (b', d\<lparr>conn_in := rest\<rparr>, Inr got)
          \<and> filter (\<lambda>m. \<not> is_rekey m) got = ms1 \<and> paired A s' b')"
      using rec2 [OF r1(2)] out2 by simp
    obtain k b' got where r2: "receiveMessages A (\<lambda>k. now' (k + Suc n)) cx k b1 (d\<lparr>conn_in := bytes2 @ rest\<rparr>) =
        (b', d\<lparr>conn_in := rest\<rparr>, Inr got)" "filter (\<lambda>m. \<not> is_rekey m) got = ms1" "paired A s' b'"
      using all [rule_format, of "d\<lparr>conn_in := bytes2 @ rest\<rparr>" rest] by auto
    have "filter (\<lambda>m. \<not> is_rekey m) (map MRekeyInit rekeys) = []" by (induction rekeys) simp_all
    then show ?thesis
      using receiveMessages_append [OF r1(1) r2(1)] r2(2,3) ms(1) writeMessage_not_rekey [OF first ms(2)]
      by (intro exI [of _ "Suc n + k"] exI [of _ b'] exI) auto
  qed
  then show ?case using out1 out2 by (intro exI [of _ "bytes1 @ bytes2"]) simp
qed

section \<open>Properties\<close>


definition sample_item :: queued_message where
  "sample_item = \<lparr>qm_message = Val (MPingPong \<lparr>pp_IsResponse = False, pp_Nonce = 0\<rparr>), qm_padLength = 0, qm_completion = None\<rparr>"

lemma sample_written:
  "\<exists>s' t'. writeMessages mac_aead (\<lambda>_ _ _. 8) (\<lambda>_ _. []) (\<lambda>_ _. background) [sample_item] sample_session (sample_conn []) = (s', t', None)"
proof -
  let ?f = "sealed_frame mac_aead (replicate 32 2) 4 (replicate 16 1) 1 (0 # replicate 8 0) []"
  have f: "wf_frame ?f" "Frame_Validate ?f = None" "h_MessageType (f_Header ?f) = 4"
    using encrypted_frame [OF mac_aead_ok _ sample_sealed] by simp_all
  obtain t' where "WriteFrame background (sample_conn []) ?f = (t', None)"
    using WriteFrame_progress [OF live_background f(1,2), of "sample_conn []"] by auto
  then show ?thesis
    using sample_ping_sent f(3) by (simp add: sample_item_def writeMessage.simps)
qed


end
