(* ===== verification/Connection_Properties.thy ===== *)
theory Connection_Properties
  imports Connection_Termination Connection_Delivery
begin

text \<open>
  What the connection runtime guarantees in every state it can reach, whatever its goroutines, its callers, the
  network and the clock do.
\<close>

section \<open>Reachable states\<close>

lemma reach_run:
  assumes "reach runtime_start runtime_next r" and "conn_run evs r = Some r'"
  shows "reach runtime_start runtime_next r'"
  using assms
proof (induction evs arbitrary: r)
  case (Cons ev evs)
  then obtain r1 where step: "conn_step ev r = Some r1" and run: "conn_run evs r1 = Some r'"
    by (auto split: option.splits)
  then have "runtime_next r r1" by (auto simp: runtime_next_def)
  then have "reach runtime_start runtime_next r1" by (rule reach_step [OF Cons.prems(1)])
  then show ?case using run by (rule Cons.IH)
qed simp

lemma distinct_claims:
  assumes "\<And>i. count (mset xs) i \<le> 1"
  shows "distinct xs"
  using assms
proof (induction xs)
  case (Cons x xs)
  have fresh: "count (mset xs) x = 0" using Cons.prems [of x] by simp
  then have "x \<notin> set xs" by (metis count_eq_zero_iff set_mset_mset)
  moreover have "count (mset xs) i \<le> 1" for i
    using Cons.prems [of i] fresh by (cases "i = x") (simp_all only: mset.simps count_add_mset if_False if_True, simp_all)
  ultimately show ?case using Cons.IH by simp
qed simp

lemma answered_once:
  assumes "channels_ok r"
  shows "distinct (map fst (cn_results (rt_conn r)))" and "set (map fst (cn_results (rt_conn r))) \<subseteq> set (rt_accepted r)"
proof -
  have "mset (map fst (cn_results (rt_conn r))) \<subseteq># placed r" unfolding placed_def by simp
  then have sub: "mset (map fst (cn_results (rt_conn r))) \<subseteq># mset (rt_accepted r)" using assms by (simp add: channels_ok_def)
  show "set (map fst (cn_results (rt_conn r))) \<subseteq> set (rt_accepted r)"
    using set_mset_mono [OF sub] by (simp only: set_mset_mset)
  have "count (mset (map fst (cn_results (rt_conn r)))) i \<le> 1" for i
  proof -
    have "count (mset (map fst (cn_results (rt_conn r)))) i \<le> count (mset (rt_accepted r)) i"
      using sub by (rule mset_subset_eq_count)
    also have "\<dots> \<le> count (claimed r) i" by (simp add: claimed_def)
    also have "\<dots> \<le> 1" using assms by (simp only: channels_ok_def)
    finally show ?thesis .
  qed
  then show "distinct (map fst (cn_results (rt_conn r)))" by (rule distinct_claims)
qed

lemma done_writer:
  assumes "runtime_ok r" and "cn_done (rt_conn r)"
  shows "rt_writer r \<in> {WriterOff, WriterExited}" and "rt_shutdown r = ShutDone" and "cn_started (rt_conn r) \<Longrightarrow> joined r"
  using assms by (auto simp: runtime_ok_def done_ok_def loops_ok_def joined_def split: if_splits)

lemma answered_all:
  assumes "runtime_ok r" and "cn_done (rt_conn r)"
  shows "set (map fst (cn_results (rt_conn r))) = set (rt_accepted r)"
proof -
  have "cn_outbound (rt_conn r) = [] \<and> cn_control (rt_conn r) = [] \<and> cn_closeRequest (rt_conn r) = []"
    using shutdown_okD(7) [OF runtime_okD(1) [OF assms(1)]] done_writer(2) [OF assms] by simp
  moreover have "writer_channels (rt_writer r) = []" using done_writer(1) [OF assms] by auto
  ultimately have "placed r = mset (map fst (cn_results (rt_conn r)))" by (simp add: placed_def)
  then have "mset (map fst (cn_results (rt_conn r))) = mset (rt_accepted r)"
    using assms(1) by (simp add: runtime_ok_def channels_ok_def)
  then show ?thesis by (rule mset_eq_setD)
qed

lemma awaited_answer:
  assumes "map_of (cn_results c) i = Some answer"
  shows "set (awaitCompletion None i c) = {answer}"
  using assms by (cases "cn_cause c") (simp_all add: awaitCompletion_def)

lemma run_stable:
  assumes "conn_run evs r = Some r'"
  shows "(\<forall>e. cn_terminal (rt_conn r) = Some e \<longrightarrow> cn_terminal (rt_conn r') = Some e)
    \<and> (\<forall>e. cn_cause (rt_conn r) = Some e \<longrightarrow> cn_cause (rt_conn r') = Some e)
    \<and> (\<exists>more. cn_results (rt_conn r') = cn_results (rt_conn r) @ more)"
  using assms
proof (induction evs arbitrary: r)
  case (Cons ev evs)
  then obtain r1 where t: "conn_trans r r1" and run: "conn_run evs r1 = Some r'"
    by (auto split: option.splits dest: conn_step_trans)
  obtain more where "cn_results (rt_conn r1) = cn_results (rt_conn r) @ more" using stable_trans(4) [OF t] by blast
  then show ?case using Cons.IH [OF run] stable_trans(2,3) [OF t] by auto
qed simp

section \<open>A connection at work\<close>

text \<open>A connection whose caller waits for a message to be written when the context given to \<^verbatim>\<open>Start\<close>
  turns out to be cancelled, up to the end of the shutdown.\<close>

definition sample_runtime :: "bytes runtime" where
  "sample_runtime =
     (case NewConnection (Some (sample_conn [])) (Some sample_session) (cl_Connection sample_client_config) of
        Inr c \<Rightarrow> runtime_of c)"

definition sample_events :: "bytes conn_event list" where
  "sample_events =
     [ESend None (SendAndWait (Val (MPingPong \<lparr>pp_IsResponse = False, pp_Nonce = 0\<rparr>))), ESender 0 None 0,
      EStart (Some ErrCanceled) 0, ECall 0, ECall 0] @ replicate 9 (EShutdown 0) @ [EOwner]"

lemma sample_reach: "reach runtime_start runtime_next sample_runtime"
  by (rule reach_start) (auto simp: runtime_start_def sample_runtime_def NewConnection_def)

lemma sample_run:
  "map_option (\<lambda>r. (cn_done (rt_conn r), rt_accepted r, cn_results (rt_conn r), cn_terminal (rt_conn r)))
     (conn_run sample_events sample_runtime) = Some (True, [0], [(0, Some ErrCanceled)], Some ErrCanceled)"
  by code_simp

section \<open>Properties\<close>

text \<open>C11: no caller is left waiting and none is answered twice. In every state the connection can reach, whatever the
  interleaving of senders, writer, closer and shutdown, a result channel (which has room for one value) has been sent
  to at most once, and only if its request was accepted. Once \<^verbatim>\<open>done\<close> is closed, every accepted
  message and close request has its answer, and a \<^verbatim>\<open>SendPaddedAndWait\<close> still waiting returns that answer and
  nothing else.\<close>

theorem connection_answers:
  assumes "reach runtime_start runtime_next r"
  shows "distinct (map fst (cn_results (rt_conn r))) \<and> set (map fst (cn_results (rt_conn r))) \<subseteq> set (rt_accepted r)
    \<and> (cn_done (rt_conn r) \<longrightarrow> (\<forall>i \<in> set (rt_accepted r). \<exists>answer.
         (i, answer) \<in> set (cn_results (rt_conn r)) \<and> set (awaitCompletion None i (rt_conn r)) = {answer}))"
proof -
  have ok: "runtime_ok r" using assms by (rule connection_machine.reach_inv)
  then have channels: "channels_ok r" by (simp add: runtime_ok_def)
  have "\<exists>answer. (i, answer) \<in> set (cn_results (rt_conn r)) \<and> set (awaitCompletion None i (rt_conn r)) = {answer}"
    if finished: "cn_done (rt_conn r)" and "i \<in> set (rt_accepted r)" for i
  proof -
    have "i \<in> fst ` set (cn_results (rt_conn r))" using answered_all [OF ok finished] that(2) by auto
    then obtain answer where "map_of (cn_results (rt_conn r)) i = Some answer" by (metis map_of_eq_None_iff not_None_eq)
    then show ?thesis using awaited_answer map_of_SomeD by fast
  qed
  then show ?thesis using answered_once [OF channels] by blast
qed

theorem connection_answers_witness:
  "\<exists>r. conn_run sample_events sample_runtime = Some r \<and> rt_accepted r = [0]
     \<and> set (awaitCompletion None 0 (rt_conn r)) = {Some ErrCanceled}"
proof -
  obtain r where r: "conn_run sample_events sample_runtime = Some r" "cn_done (rt_conn r)" "rt_accepted r = [0]"
    "cn_results (rt_conn r) = [(0, Some ErrCanceled)]" using sample_run by auto
  then show ?thesis using connection_answers [OF reach_run [OF sample_reach r(1)]] by auto
qed

text \<open>C13: a closed connection is at rest. In every state the connection can reach the queues are within the capacities
  they were made with and \<^verbatim>\<open>done\<close> has been closed at most once (a second close would panic). Once it is
  closed, the session and the transport are closed, all queues are empty, no producer holds a lease, no pong is
  expected, \<^verbatim>\<open>Err\<close> reports a cause, the context is cancelled, and every loop that was started has returned.\<close>

theorem connection_rests:
  assumes "reach runtime_start runtime_next r"
  shows "length (cn_outbound (rt_conn r)) \<le> queue_capacity OutboundQ (rt_conn r)
    \<and> length (cn_control (rt_conn r)) \<le> queue_capacity ControlQ (rt_conn r)
    \<and> length (cn_handlerQueue (rt_conn r)) \<le> nat (cc_HandlerQueue (cn_config (rt_conn r)))
    \<and> rt_doneCloses r \<le> 1
    \<and> (cn_done (rt_conn r) \<longrightarrow> closed (cn_session (rt_conn r)) \<and> cn_transportClosed (rt_conn r)
         \<and> cn_outbound (rt_conn r) = [] \<and> cn_control (rt_conn r) = [] \<and> cn_closeRequest (rt_conn r) = []
         \<and> cn_handlerQueue (rt_conn r) = [] \<and> \<not> leased r \<and> cn_pingExpected (rt_conn r) = 0
         \<and> Connection_Err (rt_conn r) \<noteq> None \<and> cn_cause (rt_conn r) \<noteq> None
         \<and> (cn_started (rt_conn r) \<longrightarrow> joined r))"
proof -
  have ok: "runtime_ok r" using assms by (rule connection_machine.reach_inv)
  then have "bounds_ok (rt_conn r)" and "rt_doneCloses r \<le> 1"
    by (auto simp: runtime_ok_def done_ok_def split: if_splits)
  moreover have "\<not> leased r \<and> Connection_Err (rt_conn r) \<noteq> None" if "cn_done (rt_conn r)"
    using shutdown_okD(2,6) [OF runtime_okD(1) [OF ok]] done_writer(2) [OF ok that] by (simp add: Connection_Err_def)
  ultimately show ?thesis
    using shutdown_okD(4,5,7,8,9,10) [OF runtime_okD(1) [OF ok]] done_writer(2,3) [OF ok] by (simp add: bounds_ok_def)
qed

theorem connection_rests_witness:
  "\<exists>r. conn_run sample_events sample_runtime = Some r \<and> cn_transportClosed (rt_conn r) \<and> closed (cn_session (rt_conn r))"
proof -
  obtain r where r: "conn_run sample_events sample_runtime = Some r" "cn_done (rt_conn r)" using sample_run by auto
  then show ?thesis using connection_rests [OF reach_run [OF sample_reach r(1)]] by auto
qed

text \<open>The first terminal cause stays. Once \<^verbatim>\<open>Err\<close> reports a cause, no further step of any goroutine or
  caller changes it; the cause the context was cancelled with stays as well, and answers already given are not
  taken back.\<close>

theorem connection_err_stable:
  assumes "conn_run evs r = Some r'" and "Connection_Err (rt_conn r) = Some e"
  shows "Connection_Err (rt_conn r') = Some e
    \<and> (cn_cause (rt_conn r) \<noteq> None \<longrightarrow> cn_cause (rt_conn r') = cn_cause (rt_conn r))
    \<and> (\<exists>more. cn_results (rt_conn r') = cn_results (rt_conn r) @ more)"
  using run_stable [OF assms(1)] assms(2) by (auto simp: Connection_Err_def)

lemma sample_closed_abort:
  "\<exists>r r'. conn_run sample_events sample_runtime = Some r \<and> Connection_Err (rt_conn r) = Some ErrCanceled
     \<and> conn_run [EAbort ErrIdleTimeout, ECall 0, ECall 0] r = Some r'"
proof -
  obtain r where r: "conn_run sample_events sample_runtime = Some r" "cn_terminal (rt_conn r) = Some ErrCanceled"
    using sample_run by auto
  have "map_option (\<lambda>r. True) (conn_run (sample_events @ [EAbort ErrIdleTimeout, ECall 0, ECall 0]) sample_runtime) = Some True"
    by code_simp
  then show ?thesis using r unfolding conn_run_append by (auto simp: Connection_Err_def simp del: conn_run.simps)
qed

theorem connection_err_stable_witness:
  "\<exists>r r'. conn_run sample_events sample_runtime = Some r \<and> conn_run [EAbort ErrIdleTimeout, ECall 0, ECall 0] r = Some r'
     \<and> Connection_Err (rt_conn r') = Some ErrCanceled"
  using sample_closed_abort connection_err_stable by blast


lemma sample_started:
  "\<exists>r. conn_run [EStart None 0] sample_runtime = Some r \<and> cn_startOnce (rt_conn r)"
  by (auto simp: step_start_def Connection_Start_def sample_runtime_def NewConnection_def runtime_of_def)


end
