(* ===== verification/Server.thy ===== *)
theory Server
  imports Connection_Runtime
begin

text \<open>
  \<^verbatim>\<open>server.go\<close>, \<^verbatim>\<open>server_runtime.go\<close>, \<^verbatim>\<open>server_stats.go\<close>, \<^verbatim>\<open>internal/acceptpolicy\<close>: the accept loop, the
  workers and the shutdown of a server, as one machine. A socket is a number, and the connection made on it
  has the same number. The two slot channels are the numbers of elements in them, the wait group is its counter.

  The state has the server and the program point of every call of \<^verbatim>\<open>Serve\<close>, of every worker goroutine
  (\<^verbatim>\<open>handleConn\<close>) and of every call of \<^verbatim>\<open>Close\<close> or \<^verbatim>\<open>Abort\<close>. A step makes one access to shared state. The
  deferred calls of a worker are a stack. The handshake of a worker is \<open>performHandshake\<close> on an arbitrary
  transport; how long a connection runs is up to the environment. What a call of \<^verbatim>\<open>Close\<close> does to a socket or a
  connection is recorded by its number.
\<close>

section \<open>acceptpolicy\<close>

text \<open>What \<^verbatim>\<open>errors.As\<close>, \<^verbatim>\<open>errors.Is\<close> and the type assertion find in an error returned by \<^verbatim>\<open>Accept\<close>.\<close>

datatype errno = ECONNABORTED | EMFILE | ENFILE | OtherErrno nat

record accept_error =
  ae_netTimeout :: "bool option"
  ae_errnos :: "errno list"
  ae_isTemporary :: "bool option"
  ae_error :: dg_error

definition Retryable :: "accept_error option \<Rightarrow> bool" where
  "Retryable err =
     (case err of
        None \<Rightarrow> False
      | Some e \<Rightarrow>
          if ae_netTimeout e = Some True then True
          else if ECONNABORTED \<in> set (ae_errnos e) \<or> EMFILE \<in> set (ae_errnos e) \<or> ENFILE \<in> set (ae_errnos e) then True
          else ae_isTemporary e = Some True)"

section \<open>State\<close>

record server =
  sv_config :: server_config
  sv_listener :: bool
  sv_conns :: "nat set"
  sv_handshakeConns :: "nat set"
  sv_handshakes :: nat
  sv_connSlots :: nat
  sv_closed :: bool
  sv_inShutdown :: bool
  sv_wg :: nat

definition NewServer :: "'n noise \<Rightarrow> server_config \<Rightarrow> server result" where
  "NewServer N config =
     (case normalizeServerConfig N config of
        Inl err \<Rightarrow> Inl err
      | Inr config \<Rightarrow>
          Inr \<lparr>sv_config = config, sv_listener = False, sv_conns = {}, sv_handshakeConns = {}, sv_handshakes = 0,
               sv_connSlots = 0, sv_closed = False, sv_inShutdown = False, sv_wg = 0\<rparr>)"

section \<open>server\_runtime.go: slots and ownership\<close>

definition tryAcquire :: "nat \<Rightarrow> int \<Rightarrow> nat option" where
  "tryAcquire used capacity = (if used < nat capacity then Some (Suc used) else None)"

text \<open>A receive from an empty channel blocks.\<close>

definition release :: "nat \<Rightarrow> nat option" where
  "release used = (case used of 0 \<Rightarrow> None | Suc n \<Rightarrow> Some n)"

definition registerHandshake :: "nat \<Rightarrow> server \<Rightarrow> server \<times> bool" where
  "registerHandshake socket s =
     (if sv_inShutdown s then (s, False)
      else (s\<lparr>sv_handshakeConns := insert socket (sv_handshakeConns s), sv_wg := Suc (sv_wg s)\<rparr>, True))"

definition unregisterHandshake :: "nat \<Rightarrow> server \<Rightarrow> server" where
  "unregisterHandshake socket s = s\<lparr>sv_handshakeConns := sv_handshakeConns s - {socket}\<rparr>"

definition registerConn :: "nat \<Rightarrow> server \<Rightarrow> server \<times> bool" where
  "registerConn socket s =
     (if sv_inShutdown s then (s, False)
      else (s\<lparr>sv_conns := insert socket (sv_conns s), sv_handshakeConns := sv_handshakeConns s - {socket}\<rparr>, True))"

definition unregisterConn :: "nat \<Rightarrow> server \<Rightarrow> server" where
  "unregisterConn socket s = s\<lparr>sv_conns := sv_conns s - {socket}\<rparr>"

section \<open>server\_stats.go\<close>

record server_stats =
  st_HandshakeSlotsUsed :: nat
  st_HandshakeSlotsCapacity :: nat
  st_ConnectionSlotsUsed :: nat
  st_ConnectionSlotsCapacity :: nat
  st_PendingConnections :: nat
  st_ActiveConnections :: nat
  st_ShuttingDown :: bool

definition Stats :: "server \<Rightarrow> server_stats" where
  "Stats s =
     \<lparr>st_HandshakeSlotsUsed = sv_handshakes s, st_HandshakeSlotsCapacity = nat (sc_MaxConcurrentHandshakes (sv_config s)),
      st_ConnectionSlotsUsed = sv_connSlots s, st_ConnectionSlotsCapacity = nat (sc_MaxActiveConnections (sv_config s)),
      st_PendingConnections = card (sv_handshakeConns s), st_ActiveConnections = card (sv_conns s),
      st_ShuttingDown = sv_inShutdown s\<rparr>"

section \<open>server.go: Serve\<close>

datatype accept_pc = Accepting time | Backoff time | Registering nat | Releasing nat | ServeReturned dg_error

definition nextDelay :: "time \<Rightarrow> time" where
  "nextDelay acceptDelay = min (if acceptDelay = 0 then 5 * Millisecond else acceptDelay * 2) Second"

text \<open>The beginning of \<^verbatim>\<open>Serve\<close>; \<open>listener\<close> is whether one was given.\<close>

definition Serve :: "bool \<Rightarrow> server \<Rightarrow> server \<times> accept_pc" where
  "Serve listener s =
     (if \<not> listener then (s, ServeReturned (ErrText ''dgproto: nil listener''))
      else if sv_inShutdown s then (s, ServeReturned ErrServerClosed)
      else (s\<lparr>sv_listener := True\<rparr>, Accepting 0))"

definition serveFailed :: "accept_error \<Rightarrow> time \<Rightarrow> server \<Rightarrow> accept_pc" where
  "serveFailed err acceptDelay s =
     (if sv_inShutdown s then ServeReturned ErrServerClosed
      else if Retryable (Some err) then Backoff (nextDelay acceptDelay)
      else ServeReturned (ae_error err))"

definition serveBackoff :: "bool \<Rightarrow> time \<Rightarrow> server \<Rightarrow> accept_pc option" where
  "serveBackoff timer acceptDelay s =
     (if timer then Some (Accepting acceptDelay)
      else if sv_closed s then Some (ServeReturned ErrServerClosed) else None)"

section \<open>server\_runtime.go: handleConn\<close>

datatype deferred = DWorkerDone | DUnregisterHandshake | DTransportClose | DReleaseSlot | DDisconnect | DUnregisterConn
  | DConnCancel

datatype worker_pc = WHandshake | WRelease bool | WAcquire | WAdmission | WRegister | WRunning | WReturning

text \<open>\<open>wk_peer\<close> is the peer of a completed handshake, \<open>wk_handedOff\<close> whether the runtime took over the socket.\<close>

record worker =
  wk_socket :: nat
  wk_pc :: worker_pc
  wk_defers :: "deferred list"
  wk_peer :: "bytes option"
  wk_handedOff :: bool

definition newWorker :: "nat \<Rightarrow> worker" where
  "newWorker socket =
     \<lparr>wk_socket = socket, wk_pc = WHandshake, wk_defers = [DTransportClose, DUnregisterHandshake, DWorkerDone],
      wk_peer = None, wk_handedOff = False\<rparr>"

definition callAdmission :: "handler_end \<Rightarrow> dg_error option" where
  "callAdmission e = (case e of HandlerReturns err \<Rightarrow> err | HandlerPanics \<Rightarrow> Some ErrHandshakeFailed)"

definition pushDefers :: "deferred list \<Rightarrow> worker \<Rightarrow> worker" where
  "pushDefers ds w = w\<lparr>wk_defers := ds @ wk_defers w\<rparr>"

text \<open>What follows a successful admission.\<close>

definition admitted :: "server \<Rightarrow> worker \<Rightarrow> worker" where
  "admitted s w = pushDefers (if sc_OnDisconnect (sv_config s) then [DDisconnect] else []) (w\<lparr>wk_pc := WRegister\<rparr>)"

definition workerHandshake :: "('c session \<times> handshake_result) result \<Rightarrow> worker \<Rightarrow> worker option" where
  "workerHandshake result w =
     (if wk_pc w \<noteq> WHandshake then None
      else case result of
        Inl _ \<Rightarrow> Some (w\<lparr>wk_pc := WRelease False\<rparr>)
      | Inr (session, res) \<Rightarrow> Some (w\<lparr>wk_pc := WRelease True, wk_peer := Some (res_PeerStatic res)\<rparr>))"

definition workerAdmission :: "handler_end \<Rightarrow> server \<Rightarrow> worker \<Rightarrow> worker option" where
  "workerAdmission e s w =
     (if wk_pc w \<noteq> WAdmission then None
      else Some (if callAdmission e \<noteq> None then w\<lparr>wk_pc := WReturning\<rparr> else admitted s w))"

text \<open>A disconnect hook that panics is recovered, so its deferred call always returns. A wait group whose
  counter would become negative panics, which is the same here as blocking.\<close>

fun runDeferred :: "deferred \<Rightarrow> nat \<Rightarrow> server \<Rightarrow> server option" where
  "runDeferred DWorkerDone socket s = map_option (\<lambda>n. s\<lparr>sv_wg := n\<rparr>) (release (sv_wg s))"
| "runDeferred DUnregisterHandshake socket s = Some (unregisterHandshake socket s)"
| "runDeferred DReleaseSlot socket s = map_option (\<lambda>n. s\<lparr>sv_connSlots := n\<rparr>) (release (sv_connSlots s))"
| "runDeferred DUnregisterConn socket s = Some (unregisterConn socket s)"
| "runDeferred DTransportClose socket s = Some s"
| "runDeferred DDisconnect socket s = Some s"
| "runDeferred DConnCancel socket s = Some s"

text \<open>The steps of \<^verbatim>\<open>handleConn\<close> between the handshake and the end of the connection, and the deferred calls.\<close>

definition workerStep :: "server \<Rightarrow> worker \<Rightarrow> (server \<times> worker) option" where
  "workerStep s w =
     (case wk_pc w of
        WRelease ok \<Rightarrow>
          map_option (\<lambda>n. (s\<lparr>sv_handshakes := n\<rparr>, w\<lparr>wk_pc := (if ok then WAcquire else WReturning)\<rparr>)) (release (sv_handshakes s))
      | WAcquire \<Rightarrow>
          (case tryAcquire (sv_connSlots s) (sc_MaxActiveConnections (sv_config s)) of
             None \<Rightarrow> Some (s, w\<lparr>wk_pc := WReturning\<rparr>)
           | Some n \<Rightarrow>
               Some (s\<lparr>sv_connSlots := n\<rparr>,
                     if sc_Admission (sv_config s) then pushDefers [DReleaseSlot] (w\<lparr>wk_pc := WAdmission\<rparr>)
                     else admitted s (pushDefers [DReleaseSlot] w)))
      | WRegister \<Rightarrow>
          (case registerConn (wk_socket w) s of
             (s, False) \<Rightarrow> Some (s, w\<lparr>wk_pc := WReturning\<rparr>)
           | (s, True) \<Rightarrow> Some (s, pushDefers [DConnCancel, DUnregisterConn] (w\<lparr>wk_pc := WRunning, wk_handedOff := True\<rparr>)))
      | WRunning \<Rightarrow> Some (s, w\<lparr>wk_pc := WReturning\<rparr>)
      | WReturning \<Rightarrow>
          (case wk_defers w of
             [] \<Rightarrow> None
           | d # ds \<Rightarrow> map_option (\<lambda>s. (s, w\<lparr>wk_defers := ds\<rparr>)) (runDeferred d (wk_socket w) s))
      | _ \<Rightarrow> None)"

section \<open>server.go: Close and Abort\<close>

definition beginShutdown :: "server \<Rightarrow> server" where
  "beginShutdown s = s\<lparr>sv_closed := True, sv_inShutdown := True\<rparr>"

text \<open>A call of \<^verbatim>\<open>Close\<close> (it waits for the workers) or of \<^verbatim>\<open>Abort\<close>, with what it has still to close.\<close>

record closing =
  cg_waits :: bool
  cg_listener :: bool
  cg_handshakes :: "nat list"
  cg_conns :: "nat list"
  cg_returned :: bool

section \<open>The machine\<close>

text \<open>\<open>sr_sockets\<close> is the number of sockets accepted so far, \<open>sr_closedSockets\<close> and \<open>sr_closedConns\<close> the sockets and
  connections that calls of \<^verbatim>\<open>Close\<close> or \<^verbatim>\<open>Abort\<close> have closed.\<close>

record server_runtime =
  sr_server :: server
  sr_acceptors :: "accept_pc list"
  sr_workers :: "worker list"
  sr_closings :: "closing list"
  sr_sockets :: nat
  sr_closedSockets :: "nat set"
  sr_closedConns :: "nat set"

datatype server_event =
  SServe bool
| SAcceptError nat accept_error
| SAccept nat
| SBackoff nat bool
| SAcceptor nat
| SHandshake nat clock bytes "nat \<Rightarrow> ctx" conn
| SAdmission nat handler_end
| SWorker nat
| SShutdown bool "nat list" "nat list"
| SClosing nat

text \<open>The acceptor behind a successful \<^verbatim>\<open>Accept\<close>, and its next section.\<close>

definition acceptStep :: "nat \<Rightarrow> server_runtime \<Rightarrow> server_runtime option" where
  "acceptStep i r =
     (let s = sr_server r; socket = sr_sockets r; r = r\<lparr>sr_sockets := Suc socket\<rparr>
      in case pick (sr_acceptors r) i of
           Some (Accepting _) \<Rightarrow>
             (case tryAcquire (sv_handshakes s) (sc_MaxConcurrentHandshakes (sv_config s)) of
                None \<Rightarrow> Some (r\<lparr>sr_acceptors := (sr_acceptors r)[i := Accepting 0]\<rparr>)
              | Some n \<Rightarrow>
                  Some (r\<lparr>sr_server := s\<lparr>sv_handshakes := n\<rparr>, sr_acceptors := (sr_acceptors r)[i := Registering socket]\<rparr>))
         | _ \<Rightarrow> None)"

definition acceptorStep :: "nat \<Rightarrow> server_runtime \<Rightarrow> server_runtime option" where
  "acceptorStep i r =
     (case pick (sr_acceptors r) i of
        Some (Registering socket) \<Rightarrow>
          (case registerHandshake socket (sr_server r) of
             (s, True) \<Rightarrow>
               Some (r\<lparr>sr_server := s, sr_acceptors := (sr_acceptors r)[i := Accepting 0],
                       sr_workers := sr_workers r @ [newWorker socket]\<rparr>)
           | (s, False) \<Rightarrow> Some (r\<lparr>sr_server := s, sr_acceptors := (sr_acceptors r)[i := Releasing socket]\<rparr>))
      | Some (Releasing socket) \<Rightarrow>
          map_option
            (\<lambda>n. r\<lparr>sr_server := (sr_server r)\<lparr>sv_handshakes := n\<rparr>, sr_acceptors := (sr_acceptors r)[i := Accepting 0]\<rparr>)
            (release (sv_handshakes (sr_server r)))
      | _ \<Rightarrow> None)"

definition set_worker :: "nat \<Rightarrow> worker \<Rightarrow> server_runtime \<Rightarrow> server_runtime" where
  "set_worker i w r = r\<lparr>sr_workers := (sr_workers r)[i := w]\<rparr>"

text \<open>The next thing a call of \<^verbatim>\<open>Close\<close> or \<^verbatim>\<open>Abort\<close> closes; at the end \<^verbatim>\<open>Close\<close> waits for the workers.\<close>

definition closingStep :: "nat \<Rightarrow> server_runtime \<Rightarrow> server_runtime option" where
  "closingStep i r =
     (case pick (sr_closings r) i of
        None \<Rightarrow> None
      | Some g \<Rightarrow>
          if cg_returned g then None
          else if cg_listener g then Some (r\<lparr>sr_closings := (sr_closings r)[i := g\<lparr>cg_listener := False\<rparr>]\<rparr>)
          else (case (cg_handshakes g, cg_conns g) of
                  (n # ns, _) \<Rightarrow>
                    Some (r\<lparr>sr_closings := (sr_closings r)[i := g\<lparr>cg_handshakes := ns\<rparr>],
                            sr_closedSockets := insert n (sr_closedSockets r)\<rparr>)
                | ([], n # ns) \<Rightarrow>
                    Some (r\<lparr>sr_closings := (sr_closings r)[i := g\<lparr>cg_conns := ns\<rparr>],
                            sr_closedConns := insert n (sr_closedConns r)\<rparr>)
                | ([], []) \<Rightarrow>
                    if cg_waits g \<and> sv_wg (sr_server r) \<noteq> 0 then None
                    else Some (r\<lparr>sr_closings := (sr_closings r)[i := g\<lparr>cg_returned := True\<rparr>]\<rparr>)))"

text \<open>\<open>handshakeConns\<close> and \<open>conns\<close> are the slices \<^verbatim>\<open>beginShutdown\<close> makes of the two maps, in any order.\<close>

definition shutdownStep :: "bool \<Rightarrow> nat list \<Rightarrow> nat list \<Rightarrow> server_runtime \<Rightarrow> server_runtime option" where
  "shutdownStep waits handshakeConns conns r =
     (if set handshakeConns = sv_handshakeConns (sr_server r) \<and> set conns = sv_conns (sr_server r)
      then Some (r\<lparr>sr_server := beginShutdown (sr_server r),
                   sr_closings := sr_closings r
                     @ [\<lparr>cg_waits = waits, cg_listener = sv_listener (sr_server r), cg_handshakes = handshakeConns,
                         cg_conns = conns, cg_returned = False\<rparr>]\<rparr>)
      else None)"

fun server_step :: "'n noise \<Rightarrow> 'c aead \<Rightarrow> server_event \<Rightarrow> server_runtime \<Rightarrow> server_runtime option" where
  "server_step N A (SServe listener) r =
     (case Serve listener (sr_server r) of (s, p) \<Rightarrow> Some (r\<lparr>sr_server := s, sr_acceptors := sr_acceptors r @ [p]\<rparr>))"
| "server_step N A (SAcceptError i err) r =
     (case pick (sr_acceptors r) i of
        Some (Accepting d) \<Rightarrow> Some (r\<lparr>sr_acceptors := (sr_acceptors r)[i := serveFailed err d (sr_server r)]\<rparr>)
      | _ \<Rightarrow> None)"
| "server_step N A (SAccept i) r = acceptStep i r"
| "server_step N A (SBackoff i timer) r =
     (case pick (sr_acceptors r) i of
        Some (Backoff d) \<Rightarrow>
          map_option (\<lambda>p. r\<lparr>sr_acceptors := (sr_acceptors r)[i := p]\<rparr>) (serveBackoff timer d (sr_server r))
      | _ \<Rightarrow> None)"
| "server_step N A (SAcceptor i) r = acceptorStep i r"
| "server_step N A (SHandshake i now random ctxs t) r =
     (case pick (sr_workers r) i of
        Some w \<Rightarrow>
          map_option (\<lambda>w. set_worker i w r)
            (workerHandshake (snd (performHandshake N A now random (sv_config (sr_server r)) ctxs t)) w)
      | None \<Rightarrow> None)"
| "server_step N A (SAdmission i e) r =
     (case pick (sr_workers r) i of
        Some w \<Rightarrow> map_option (\<lambda>w. set_worker i w r) (workerAdmission e (sr_server r) w)
      | None \<Rightarrow> None)"
| "server_step N A (SWorker i) r =
     (case pick (sr_workers r) i of
        Some w \<Rightarrow> map_option (\<lambda>(s, w). (set_worker i w r)\<lparr>sr_server := s\<rparr>) (workerStep (sr_server r) w)
      | None \<Rightarrow> None)"
| "server_step N A (SShutdown waits handshakeConns conns) r = shutdownStep waits handshakeConns conns r"
| "server_step N A (SClosing i) r = closingStep i r"

fun server_run :: "'n noise \<Rightarrow> 'c aead \<Rightarrow> server_event list \<Rightarrow> server_runtime \<Rightarrow> server_runtime option" where
  "server_run N A [] r = Some r"
| "server_run N A (ev # evs) r = (case server_step N A ev r of Some r' \<Rightarrow> server_run N A evs r' | None \<Rightarrow> None)"

definition server_runtime_of :: "server \<Rightarrow> server_runtime" where
  "server_runtime_of s =
     \<lparr>sr_server = s, sr_acceptors = [], sr_workers = [], sr_closings = [], sr_sockets = 0, sr_closedSockets = {},
      sr_closedConns = {}\<rparr>"

definition server_start :: "'n noise \<Rightarrow> server_runtime \<Rightarrow> bool" where
  "server_start N r \<longleftrightarrow> (\<exists>config s. NewServer N config = Inr s \<and> r = server_runtime_of s)"

definition server_next :: "'n noise \<Rightarrow> 'c aead \<Rightarrow> server_runtime \<Rightarrow> server_runtime \<Rightarrow> bool" where
  "server_next N A r r' \<longleftrightarrow> (\<exists>ev. server_step N A ev r = Some r')"

end
