(* ===== verification/Server_Invariants.thy ===== *)
theory Server_Invariants
  imports Server
begin

text \<open>
  The steps of the server machine as inductive relations, and its invariants: the slots in use are those of the
  processes that will give them back, the two ownership maps are the sockets of the workers that will remove them,
  every socket owned when a shutdown began is closed or about to be.
\<close>

section \<open>Steps\<close>

inductive worker_trans :: "(bytes \<Rightarrow> bool) \<Rightarrow> server \<Rightarrow> worker \<Rightarrow> server \<Rightarrow> worker \<Rightarrow> bool" for allowed :: "bytes \<Rightarrow> bool" where
  handshake_failed: "wk_pc w = WHandshake \<Longrightarrow> worker_trans allowed s w s (w\<lparr>wk_pc := WRelease False\<rparr>)"
| handshake_done: "wk_pc w = WHandshake \<Longrightarrow> allowed k \<Longrightarrow>
    worker_trans allowed s w s (w\<lparr>wk_pc := WRelease True, wk_peer := Some k\<rparr>)"
| released: "wk_pc w = WRelease ok \<Longrightarrow> sv_handshakes s = Suc n \<Longrightarrow>
    worker_trans allowed s w (s\<lparr>sv_handshakes := n\<rparr>) (w\<lparr>wk_pc := (if ok then WAcquire else WReturning)\<rparr>)"
| full: "wk_pc w = WAcquire \<Longrightarrow> worker_trans allowed s w s (w\<lparr>wk_pc := WReturning\<rparr>)"
| acquired: "wk_pc w = WAcquire \<Longrightarrow> sv_connSlots s < nat (sc_MaxActiveConnections (sv_config s)) \<Longrightarrow>
    p = WAdmission \<and> ds = [DReleaseSlot] \<or> p = WRegister \<and> ds \<in> {[DReleaseSlot], [DDisconnect, DReleaseSlot]} \<Longrightarrow>
    worker_trans allowed s w (s\<lparr>sv_connSlots := Suc (sv_connSlots s)\<rparr>) (w\<lparr>wk_pc := p, wk_defers := ds @ wk_defers w\<rparr>)"
| rejected: "wk_pc w = WAdmission \<Longrightarrow> worker_trans allowed s w s (w\<lparr>wk_pc := WReturning\<rparr>)"
| admitted: "wk_pc w = WAdmission \<Longrightarrow> ds \<in> {[], [DDisconnect]} \<Longrightarrow>
    worker_trans allowed s w s (w\<lparr>wk_pc := WRegister, wk_defers := ds @ wk_defers w\<rparr>)"
| refused: "wk_pc w = WRegister \<Longrightarrow> sv_inShutdown s \<Longrightarrow> worker_trans allowed s w s (w\<lparr>wk_pc := WReturning\<rparr>)"
| registered: "wk_pc w = WRegister \<Longrightarrow> \<not> sv_inShutdown s \<Longrightarrow>
    worker_trans allowed s w
      (s\<lparr>sv_conns := insert (wk_socket w) (sv_conns s), sv_handshakeConns := sv_handshakeConns s - {wk_socket w}\<rparr>)
      (w\<lparr>wk_pc := WRunning, wk_handedOff := True, wk_defers := [DConnCancel, DUnregisterConn] @ wk_defers w\<rparr>)"
| ended: "wk_pc w = WRunning \<Longrightarrow> worker_trans allowed s w s (w\<lparr>wk_pc := WReturning\<rparr>)"
| deferred: "wk_pc w = WReturning \<Longrightarrow> wk_defers w = d # ds \<Longrightarrow> runDeferred d (wk_socket w) s = Some s' \<Longrightarrow>
    worker_trans allowed s w s' (w\<lparr>wk_defers := ds\<rparr>)"

lemma release_Some: "release used = Some n \<longleftrightarrow> used = Suc n"
  by (cases used) (simp_all add: release_def)

definition peer_allowed :: "server_config \<Rightarrow> bytes \<Rightarrow> bool" where
  "peer_allowed config k \<longleftrightarrow> length k = 32 \<and> (sc_AllowedClients config = [] \<or> k \<in> set (sc_AllowedClients config))"

lemma handshake_allowed:
  assumes "snd (performHandshake N A now random config ctxs t) = Inr (session, res)"
  shows "peer_allowed config (res_PeerStatic res)"
  using server_authenticates [of N A now random config ctxs t _ session res] assms
  by (cases "performHandshake N A now random config ctxs t") (simp add: peer_allowed_def)

lemma workerHandshake_trans:
  assumes "workerHandshake (snd (performHandshake N A now random (sv_config s) ctxs t)) w = Some w'"
  shows "worker_trans (peer_allowed (sv_config s)) s w s w'"
proof (cases "snd (performHandshake N A now random (sv_config s) ctxs t)")
  case (Inl e)
  then show ?thesis using assms by (auto simp: workerHandshake_def split: if_splits intro: worker_trans.handshake_failed)
next
  case (Inr x)
  obtain session res where x: "x = (session, res)" by (cases x)
  then have "peer_allowed (sv_config s) (res_PeerStatic res)" using Inr handshake_allowed by metis
  then show ?thesis
    using assms Inr x by (auto simp: workerHandshake_def split: if_splits intro: worker_trans.handshake_done)
qed

lemma workerAdmission_trans:
  assumes "workerAdmission e s w = Some w'"
  shows "worker_trans allowed s w s w'"
proof -
  have pc: "wk_pc w = WAdmission" using assms by (auto simp: workerAdmission_def split: if_splits)
  show ?thesis
    using assms worker_trans.rejected [OF pc] worker_trans.admitted [OF pc, of "[]"] worker_trans.admitted [OF pc, of "[DDisconnect]"]
    by (auto simp: workerAdmission_def admitted_def pushDefers_def split: if_splits)
qed

lemma workerStep_trans:
  assumes "workerStep s w = Some (s', w')"
  shows "worker_trans allowed s w s' w'"
proof (cases "wk_pc w")
  case (WRelease ok)
  then show ?thesis
    using assms by (auto simp: workerStep_def release_Some intro: worker_trans.released)
next
  case WAcquire
  show ?thesis
  proof (cases "sv_connSlots s < nat (sc_MaxActiveConnections (sv_config s))")
    case True
    note acquired = worker_trans.acquired [OF WAcquire True, where allowed = allowed]
    show ?thesis
      using assms WAcquire True acquired [of WAdmission "[DReleaseSlot]"] acquired [of WRegister "[DReleaseSlot]"]
        acquired [of WRegister "[DDisconnect, DReleaseSlot]"]
      by (auto simp: workerStep_def tryAcquire_def admitted_def pushDefers_def Let_def split: if_splits)
  next
    case False
    then show ?thesis
      using assms WAcquire by (auto simp: workerStep_def tryAcquire_def intro: worker_trans.full)
  qed
next
  case WRegister
  then show ?thesis
    using assms worker_trans.registered [OF WRegister, where allowed = allowed]
    by (auto simp: workerStep_def registerConn_def pushDefers_def split: if_splits intro: worker_trans.refused)
next
  case WReturning
  then show ?thesis
    using assms by (auto simp: workerStep_def split: list.splits intro: worker_trans.deferred)
qed (use assms in \<open>auto simp: workerStep_def intro: worker_trans.ended\<close>)

inductive server_trans :: "server_runtime \<Rightarrow> server_runtime \<Rightarrow> bool" where
  serve: "p \<in> {Accepting 0, ServeReturned e} \<Longrightarrow>
    server_trans r (r\<lparr>sr_server := (sr_server r)\<lparr>sv_listener := b\<rparr>, sr_acceptors := sr_acceptors r @ [p]\<rparr>)"
| accept_failed: "i < length (sr_acceptors r) \<Longrightarrow> sr_acceptors r ! i = Accepting d \<Longrightarrow>
    p \<in> {ServeReturned e, Backoff (nextDelay d)} \<Longrightarrow> server_trans r (r\<lparr>sr_acceptors := (sr_acceptors r)[i := p]\<rparr>)"
| backoff: "i < length (sr_acceptors r) \<Longrightarrow> sr_acceptors r ! i = Backoff d \<Longrightarrow> p \<in> {ServeReturned e, Accepting d} \<Longrightarrow>
    server_trans r (r\<lparr>sr_acceptors := (sr_acceptors r)[i := p]\<rparr>)"
| accept_full: "i < length (sr_acceptors r) \<Longrightarrow> sr_acceptors r ! i = Accepting d \<Longrightarrow>
    server_trans r (r\<lparr>sr_sockets := Suc (sr_sockets r), sr_acceptors := (sr_acceptors r)[i := Accepting 0]\<rparr>)"
| accepted: "i < length (sr_acceptors r) \<Longrightarrow> sr_acceptors r ! i = Accepting d \<Longrightarrow>
    sv_handshakes (sr_server r) < nat (sc_MaxConcurrentHandshakes (sv_config (sr_server r))) \<Longrightarrow>
    server_trans r (r\<lparr>sr_sockets := Suc (sr_sockets r),
      sr_server := (sr_server r)\<lparr>sv_handshakes := Suc (sv_handshakes (sr_server r))\<rparr>,
      sr_acceptors := (sr_acceptors r)[i := Registering (sr_sockets r)]\<rparr>)"
| registered: "i < length (sr_acceptors r) \<Longrightarrow> sr_acceptors r ! i = Registering socket \<Longrightarrow> \<not> sv_inShutdown (sr_server r) \<Longrightarrow>
    server_trans r (r\<lparr>sr_server := (sr_server r)\<lparr>sv_handshakeConns := insert socket (sv_handshakeConns (sr_server r)),
        sv_wg := Suc (sv_wg (sr_server r))\<rparr>,
      sr_acceptors := (sr_acceptors r)[i := Accepting 0], sr_workers := sr_workers r @ [newWorker socket]\<rparr>)"
| refused: "i < length (sr_acceptors r) \<Longrightarrow> sr_acceptors r ! i = Registering socket \<Longrightarrow>
    server_trans r (r\<lparr>sr_acceptors := (sr_acceptors r)[i := Releasing socket]\<rparr>)"
| released: "i < length (sr_acceptors r) \<Longrightarrow> sr_acceptors r ! i = Releasing socket \<Longrightarrow> sv_handshakes (sr_server r) = Suc n \<Longrightarrow>
    server_trans r (r\<lparr>sr_server := (sr_server r)\<lparr>sv_handshakes := n\<rparr>, sr_acceptors := (sr_acceptors r)[i := Accepting 0]\<rparr>)"
| worker: "i < length (sr_workers r) \<Longrightarrow>
    worker_trans (peer_allowed (sv_config (sr_server r))) (sr_server r) (sr_workers r ! i) s w \<Longrightarrow>
    server_trans r (r\<lparr>sr_server := s, sr_workers := (sr_workers r)[i := w]\<rparr>)"
| shutdown: "set hs = sv_handshakeConns (sr_server r) \<Longrightarrow> set cs = sv_conns (sr_server r) \<Longrightarrow>
    server_trans r (r\<lparr>sr_server := beginShutdown (sr_server r), sr_closings := sr_closings r
      @ [\<lparr>cg_waits = waits, cg_listener = l, cg_handshakes = hs, cg_conns = cs, cg_returned = False\<rparr>]\<rparr>)"
| close_listener: "i < length (sr_closings r) \<Longrightarrow> sr_closings r ! i = g \<Longrightarrow> \<not> cg_returned g \<Longrightarrow>
    server_trans r (r\<lparr>sr_closings := (sr_closings r)[i := g\<lparr>cg_listener := False\<rparr>]\<rparr>)"
| close_socket: "i < length (sr_closings r) \<Longrightarrow> sr_closings r ! i = g \<Longrightarrow> \<not> cg_returned g \<Longrightarrow> cg_handshakes g = n # ns \<Longrightarrow>
    server_trans r (r\<lparr>sr_closings := (sr_closings r)[i := g\<lparr>cg_handshakes := ns\<rparr>],
      sr_closedSockets := insert n (sr_closedSockets r)\<rparr>)"
| close_conn: "i < length (sr_closings r) \<Longrightarrow> sr_closings r ! i = g \<Longrightarrow> \<not> cg_returned g \<Longrightarrow> cg_conns g = n # ns \<Longrightarrow>
    server_trans r (r\<lparr>sr_closings := (sr_closings r)[i := g\<lparr>cg_conns := ns\<rparr>],
      sr_closedConns := insert n (sr_closedConns r)\<rparr>)"
| close_returns: "i < length (sr_closings r) \<Longrightarrow> sr_closings r ! i = g \<Longrightarrow> \<not> cg_listener g \<Longrightarrow> cg_handshakes g = [] \<Longrightarrow> cg_conns g = [] \<Longrightarrow>
    cg_waits g \<longrightarrow> sv_wg (sr_server r) = 0 \<Longrightarrow>
    server_trans r (r\<lparr>sr_closings := (sr_closings r)[i := g\<lparr>cg_returned := True\<rparr>]\<rparr>)"

lemma pick_nth_Some: "pick xs k = Some x \<longleftrightarrow> k < length xs \<and> xs ! k = x"
  by (auto simp: pick_def)

lemma trans_accept: "acceptStep i r = Some r' \<Longrightarrow> server_trans r r'"
  by (auto simp: acceptStep_def tryAcquire_def Let_def pick_nth_Some split: option.splits accept_pc.splits if_splits
      intro: server_trans.accept_full server_trans.accepted)

lemma trans_acceptor: "acceptorStep i r = Some r' \<Longrightarrow> server_trans r r'"
  by (auto simp: acceptorStep_def registerHandshake_def release_Some pick_nth_Some
      split: option.splits accept_pc.splits if_splits intro: server_trans.registered server_trans.refused server_trans.released)

lemma trans_closing: "closingStep i r = Some r' \<Longrightarrow> server_trans r r'"
  by (auto simp: closingStep_def pick_nth_Some split: option.splits list.splits if_splits
      intro: server_trans.close_listener server_trans.close_socket server_trans.close_conn server_trans.close_returns)

lemma trans_worker:
  assumes "pick (sr_workers r) i = Some w" and "worker_trans (peer_allowed (sv_config (sr_server r))) (sr_server r) w s w'"
  shows "server_trans r (r\<lparr>sr_server := s, sr_workers := (sr_workers r)[i := w']\<rparr>)"
  using assms by (auto simp: pick_nth_Some intro: server_trans.worker)

lemma trans_private:
  assumes "pick (sr_workers r) i = Some w" and "worker_trans (peer_allowed (sv_config (sr_server r))) (sr_server r) w (sr_server r) w'"
  shows "server_trans r (set_worker i w' r)"
  using trans_worker [OF assms] by (simp add: set_worker_def)

lemma server_step_trans:
  assumes "server_step N A ev r = Some r'"
  shows "server_trans r r'"
proof (cases ev)
  case (SServe l)
  have "sr_server r = (sr_server r)\<lparr>sv_listener := sv_listener (sr_server r)\<rparr>" by simp
  then show ?thesis
    using assms SServe server_trans.serve [of _ _ r True] server_trans.serve [of _ _ r "sv_listener (sr_server r)"]
    by (auto simp: Serve_def split: if_splits)
next
  case (SAcceptError i err)
  then show ?thesis
    using assms server_trans.accept_failed [of i r]
    by (auto simp: serveFailed_def pick_nth_Some split: option.splits accept_pc.splits if_splits)
next
  case (SBackoff i timer)
  then show ?thesis
    using assms server_trans.backoff [of i r]
    by (auto simp: serveBackoff_def pick_nth_Some split: option.splits accept_pc.splits if_splits)
next
  case (SWorker i)
  then obtain w s w' where w: "pick (sr_workers r) i = Some w" "workerStep (sr_server r) w = Some (s, w')"
    and r': "r' = (set_worker i w' r)\<lparr>sr_server := s\<rparr>"
    using assms by (auto split: option.splits)
  have "r' = r\<lparr>sr_server := s, sr_workers := (sr_workers r)[i := w']\<rparr>" by (simp add: r' set_worker_def)
  then show ?thesis using trans_worker [OF w(1) workerStep_trans [OF w(2)]] by simp
next
  case (SHandshake i now random ctxs t)
  then show ?thesis
    using assms by (auto split: option.splits intro: trans_private workerHandshake_trans)
next
  case (SAdmission i e)
  then show ?thesis
    using assms by (auto split: option.splits intro: trans_private workerAdmission_trans)
qed (use assms in \<open>auto simp: shutdownStep_def split: if_splits
       intro: trans_accept trans_acceptor trans_closing server_trans.shutdown\<close>)

section \<open>Workers\<close>

definition peer_known :: "server_config \<Rightarrow> worker \<Rightarrow> bool" where
  "peer_known config w \<longleftrightarrow> (\<exists>k. wk_peer w = Some k \<and> peer_allowed config k)"

abbreviation base_defers :: "deferred list" where
  "base_defers \<equiv> [DTransportClose, DUnregisterHandshake, DWorkerDone]"

text \<open>The order in which deferred calls run: the connection is unregistered before its slot is given back, and the
  worker is done last.\<close>

fun deferred_order :: "deferred \<Rightarrow> nat" where
  "deferred_order DConnCancel = 0"
| "deferred_order DUnregisterConn = 1"
| "deferred_order DDisconnect = 2"
| "deferred_order DReleaseSlot = 3"
| "deferred_order DTransportClose = 4"
| "deferred_order DUnregisterHandshake = 5"
| "deferred_order DWorkerDone = 6"

definition worker_ok :: "server_config \<Rightarrow> worker \<Rightarrow> bool" where
  "worker_ok config w \<longleftrightarrow> distinct (wk_defers w)
     \<and> (wk_defers w \<noteq> [] \<longrightarrow> last (wk_defers w) = DWorkerDone)
     \<and> sorted_wrt (\<lambda>a b. deferred_order a < deferred_order b) (wk_defers w)
     \<and> (DUnregisterConn \<in> set (wk_defers w) \<longrightarrow> wk_handedOff w \<and> DReleaseSlot \<in> set (wk_defers w))
     \<and> (wk_handedOff w \<longrightarrow> wk_pc w \<in> {WRunning, WReturning} \<and> peer_known config w)
     \<and> (case wk_pc w of
          WHandshake \<Rightarrow> wk_defers w = base_defers
        | WRelease ok \<Rightarrow> wk_defers w = base_defers \<and> (ok \<longrightarrow> peer_known config w)
        | WAcquire \<Rightarrow> wk_defers w = base_defers \<and> peer_known config w
        | WAdmission \<Rightarrow> wk_defers w = DReleaseSlot # base_defers \<and> peer_known config w
        | WRegister \<Rightarrow> wk_defers w \<in> {DReleaseSlot # base_defers, DDisconnect # DReleaseSlot # base_defers} \<and> peer_known config w
        | WRunning \<Rightarrow> True
        | WReturning \<Rightarrow> True)"

lemma worker_ok_trans:
  assumes "worker_trans (peer_allowed config) s w s' w'" and "worker_ok config w"
  shows "worker_ok config w'"
  using assms(1) by (cases rule: worker_trans.cases)
    (use assms(2) in \<open>auto simp: worker_ok_def peer_known_def split: if_splits\<close>)

lemma worker_ok_new: "worker_ok config (newWorker socket)"
  by (simp add: worker_ok_def newWorker_def)

lemma runDeferred_fields:
  assumes "runDeferred d socket s = Some s'"
  shows "sv_config s' = sv_config s" and "sv_inShutdown s' = sv_inShutdown s" and "sv_closed s' = sv_closed s"
    and "sv_handshakes s' = sv_handshakes s"
    and "sv_wg s = sv_wg s' + (if d = DWorkerDone then 1 else 0)"
    and "sv_connSlots s = sv_connSlots s' + (if d = DReleaseSlot then 1 else 0)"
    and "sv_handshakeConns s' = sv_handshakeConns s - (if d = DUnregisterHandshake then {socket} else {})"
    and "sv_conns s' = sv_conns s - (if d = DUnregisterConn then {socket} else {})"
  by (insert assms, cases d, auto simp: release_Some unregisterHandshake_def unregisterConn_def) +

lemma worker_trans_frame:
  assumes "worker_trans allowed s w s' w'"
  shows "wk_socket w' = wk_socket w" and "sv_config s' = sv_config s" and "sv_inShutdown s' = sv_inShutdown s"
    and "sv_closed s' = sv_closed s"
  using assms by (cases rule: worker_trans.cases; simp add: runDeferred_fields)+

section \<open>Slots\<close>

fun accept_slot :: "accept_pc \<Rightarrow> nat" where
  "accept_slot (Registering _) = 1"
| "accept_slot (Releasing _) = 1"
| "accept_slot _ = 0"

definition handshake_slot :: "worker \<Rightarrow> nat" where
  "handshake_slot w = (case wk_pc w of WHandshake \<Rightarrow> 1 | WRelease _ \<Rightarrow> 1 | _ \<Rightarrow> 0)"

definition pending :: "deferred \<Rightarrow> worker \<Rightarrow> nat" where
  "pending d w = (if d \<in> set (wk_defers w) then 1 else 0)"

lemma sum_list_update:
  "i < length xs \<Longrightarrow> sum_list (map f (xs[i := x])) + f (xs ! i) = sum_list (map f xs) + (f x :: nat)"
proof (induction xs arbitrary: i)
  case (Cons y ys)
  then show ?case by (cases i) (auto simp: algebra_simps)
qed simp

definition slots_ok :: "server_runtime \<Rightarrow> bool" where
  "slots_ok r \<longleftrightarrow>
     sv_handshakes (sr_server r) = sum_list (map accept_slot (sr_acceptors r)) + sum_list (map handshake_slot (sr_workers r))
     \<and> sv_handshakes (sr_server r) \<le> nat (sc_MaxConcurrentHandshakes (sv_config (sr_server r)))
     \<and> sv_connSlots (sr_server r) = sum_list (map (pending DReleaseSlot) (sr_workers r))
     \<and> sv_connSlots (sr_server r) \<le> nat (sc_MaxActiveConnections (sv_config (sr_server r)))
     \<and> sv_wg (sr_server r) = sum_list (map (pending DWorkerDone) (sr_workers r))
     \<and> (\<forall>w \<in> set (sr_workers r). worker_ok (sv_config (sr_server r)) w)"

lemma worker_slots:
  assumes "worker_trans (peer_allowed config) s w s' w'" and "worker_ok config w"
  shows "sv_handshakes s' + handshake_slot w = sv_handshakes s + handshake_slot w'
    \<and> sv_connSlots s' + pending DReleaseSlot w = sv_connSlots s + pending DReleaseSlot w'
    \<and> sv_wg s' + pending DWorkerDone w = sv_wg s + pending DWorkerDone w'"
  using assms(1)
proof (cases rule: worker_trans.cases)
  case (deferred d ds)
  have "d \<notin> set ds" using assms(2) deferred(3) by (simp add: worker_ok_def)
  then show ?thesis
    using deferred(1-3) runDeferred_fields(4-6) [OF deferred(4)] by (auto simp: handshake_slot_def pending_def)
qed (use assms(2) in \<open>auto simp: handshake_slot_def pending_def worker_ok_def\<close>)

lemma worker_slot_bounds:
  assumes "worker_trans allowed s w s' w'"
  shows "sv_handshakes s' \<le> sv_handshakes s"
    and "sv_connSlots s \<le> nat (sc_MaxActiveConnections (sv_config s)) \<Longrightarrow> sv_connSlots s' \<le> nat (sc_MaxActiveConnections (sv_config s))"
  using assms by (cases rule: worker_trans.cases; auto dest: runDeferred_fields(4,6))+

lemma slots_ok_trans:
  assumes "server_trans r r'" and "slots_ok r"
  shows "slots_ok r'"
  using assms(1)
proof (cases rule: server_trans.cases)
  case (worker i s w)
  have ok: "worker_ok (sv_config (sr_server r)) (sr_workers r ! i)" using assms(2) worker(2) by (simp add: slots_ok_def)
  have sums: "sum_list (map f ((sr_workers r)[i := w])) + f (sr_workers r ! i) = sum_list (map f (sr_workers r)) + f w"
    for f :: "worker \<Rightarrow> nat" using worker(2) by (rule sum_list_update)
  have "\<forall>v \<in> set ((sr_workers r)[i := w]). worker_ok (sv_config (sr_server r)) v"
    using assms(2) worker_ok_trans [OF worker(3) ok] set_update_subset_insert [of "sr_workers r" i w]
    by (auto simp: slots_ok_def)
  then show ?thesis
    using assms(2) worker_slots [OF worker(3) ok] worker_slot_bounds [OF worker(3)] worker_trans_frame(2) [OF worker(3)]
      sums [of handshake_slot] sums [of "pending DReleaseSlot"] sums [of "pending DWorkerDone"]
    unfolding worker(1) slots_ok_def by simp
next
  case (registered i socket)
  then show ?thesis
    using assms(2) sum_list_update [OF registered(2), of accept_slot "Accepting 0"] worker_ok_new
    by (auto simp: slots_ok_def handshake_slot_def pending_def newWorker_def)
next
  case (accept_failed i d p e)
  then show ?thesis using assms(2) sum_list_update [OF accept_failed(2), of accept_slot p] by (auto simp: slots_ok_def)
next
  case (backoff i d p e)
  then show ?thesis using assms(2) sum_list_update [OF backoff(2), of accept_slot p] by (auto simp: slots_ok_def)
next
  case (accept_full i d)
  then show ?thesis using assms(2) sum_list_update [OF accept_full(2), of accept_slot "Accepting 0"] by (auto simp: slots_ok_def)
next
  case (accepted i d)
  then show ?thesis
    using assms(2) sum_list_update [OF accepted(2), of accept_slot "Registering (sr_sockets r)"] by (auto simp: slots_ok_def)
next
  case (refused i socket)
  then show ?thesis
    using assms(2) sum_list_update [OF refused(2), of accept_slot "Releasing socket"] by (auto simp: slots_ok_def)
next
  case (released i socket n)
  then show ?thesis
    using assms(2) sum_list_update [OF released(2), of accept_slot "Accepting 0"] by (auto simp: slots_ok_def)
qed (use assms(2) in \<open>auto simp: slots_ok_def beginShutdown_def\<close>)

section \<open>Ownership\<close>

definition owned :: "(worker \<Rightarrow> bool) \<Rightarrow> worker list \<Rightarrow> nat set" where
  "owned P ws = wk_socket ` {w \<in> set ws. P w}"

definition awaits_handoff :: "worker \<Rightarrow> bool" where
  "awaits_handoff w \<longleftrightarrow> DUnregisterHandshake \<in> set (wk_defers w) \<and> \<not> wk_handedOff w"

definition runs_connection :: "worker \<Rightarrow> bool" where
  "runs_connection w \<longleftrightarrow> DUnregisterConn \<in> set (wk_defers w)"

fun accept_sockets :: "accept_pc \<Rightarrow> nat list" where
  "accept_sockets (Registering socket) = [socket]"
| "accept_sockets _ = []"

definition owners_ok :: "server_runtime \<Rightarrow> bool" where
  "owners_ok r \<longleftrightarrow> sv_handshakeConns (sr_server r) = owned awaits_handoff (sr_workers r)
     \<and> sv_conns (sr_server r) = owned runs_connection (sr_workers r)
     \<and> distinct (map wk_socket (sr_workers r)) \<and> (\<forall>w \<in> set (sr_workers r). wk_socket w < sr_sockets r)
     \<and> distinct (concat (map accept_sockets (sr_acceptors r)))
     \<and> (\<forall>socket \<in> set (concat (map accept_sockets (sr_acceptors r))). socket < sr_sockets r \<and> socket \<notin> wk_socket ` set (sr_workers r))
     \<and> sv_closed (sr_server r) = sv_inShutdown (sr_server r)"

lemma owned_append: "owned P (ws @ [w]) = owned P ws \<union> (if P w then {wk_socket w} else {})"
  by (auto simp: owned_def)

lemma owned_update:
  assumes "i < length ws" and "distinct (map wk_socket ws)" and "wk_socket w = wk_socket (ws ! i)"
  shows "owned P (ws[i := w]) = owned P ws - {wk_socket w} \<union> (if P w then {wk_socket w} else {})"
proof -
  have split: "ws = take i ws @ ws ! i # drop (Suc i) ws" using assms(1) by (rule id_take_nth_drop)
  have upd: "ws[i := w] = take i ws @ w # drop (Suc i) ws" using assms(1) by (rule upd_conv_take_nth_drop)
  have "wk_socket (ws ! i) \<notin> wk_socket ` (set (take i ws) \<union> set (drop (Suc i) ws))"
    using assms(2) by (subst (asm) split) auto
  then have fresh: "v \<in> set (take i ws) \<or> v \<in> set (drop (Suc i) ws) \<Longrightarrow> wk_socket v \<noteq> wk_socket (ws ! i)" for v by (metis Un_iff image_eqI)
  have "set ws = insert (ws ! i) (set (take i ws) \<union> set (drop (Suc i) ws))" by (subst split) auto
  then show ?thesis using fresh assms(3) unfolding owned_def upd by (auto simp: image_iff) (metis+)
qed

lemma concat_update:
  assumes "i < length xs"
  obtains A B where "concat (map f xs) = A @ f (xs ! i) @ B" and "concat (map f (xs[i := x])) = A @ f x @ B"
proof
  have "concat (map f xs) = concat (map f (take i xs @ xs ! i # drop (Suc i) xs))"
    using id_take_nth_drop [OF assms] by simp
  then show "concat (map f xs) = concat (map f (take i xs)) @ f (xs ! i) @ concat (map f (drop (Suc i) xs))" by simp
  show "concat (map f (xs[i := x])) = concat (map f (take i xs)) @ f x @ concat (map f (drop (Suc i) xs))"
    using upd_conv_take_nth_drop [OF assms, of x] by simp
qed

text \<open>An acceptor that moves to a point without a socket of its own.\<close>

lemma owners_ok_acceptor:
  assumes "owners_ok r" and "i < length (sr_acceptors r)" and "accept_sockets p = []" and "sr_sockets r \<le> n"
    and "sv_handshakeConns s = sv_handshakeConns (sr_server r)" and "sv_conns s = sv_conns (sr_server r)"
    and "sv_closed s = sv_closed (sr_server r)" and "sv_inShutdown s = sv_inShutdown (sr_server r)"
    and "sr_server r' = s" and "sr_acceptors r' = (sr_acceptors r)[i := p]" and "sr_sockets r' = n"
    and "sr_workers r' = sr_workers r"
  shows "owners_ok r'"
proof -
  obtain A B where "concat (map accept_sockets (sr_acceptors r)) = A @ accept_sockets (sr_acceptors r ! i) @ B"
    and "concat (map accept_sockets ((sr_acceptors r)[i := p])) = A @ accept_sockets p @ B"
    using concat_update [OF assms(2)] .
  then show ?thesis using assms unfolding owners_ok_def by (auto intro: less_le_trans)
qed

lemma worker_owners:
  assumes "worker_trans (peer_allowed config) s w s' w'" and "worker_ok config w"
  shows "sv_handshakeConns s' = sv_handshakeConns s \<and> (awaits_handoff w' \<longleftrightarrow> awaits_handoff w)
      \<or> sv_handshakeConns s' = sv_handshakeConns s - {wk_socket w} \<and> \<not> awaits_handoff w'"
    and "sv_conns s' = sv_conns s \<and> (runs_connection w' \<longleftrightarrow> runs_connection w)
      \<or> sv_conns s' = sv_conns s - {wk_socket w} \<and> \<not> runs_connection w'
      \<or> sv_conns s' = insert (wk_socket w) (sv_conns s) \<and> runs_connection w'"
proof -
  have "(sv_handshakeConns s' = sv_handshakeConns s \<and> (awaits_handoff w' \<longleftrightarrow> awaits_handoff w)
      \<or> sv_handshakeConns s' = sv_handshakeConns s - {wk_socket w} \<and> \<not> awaits_handoff w')
    \<and> (sv_conns s' = sv_conns s \<and> (runs_connection w' \<longleftrightarrow> runs_connection w)
      \<or> sv_conns s' = sv_conns s - {wk_socket w} \<and> \<not> runs_connection w'
      \<or> sv_conns s' = insert (wk_socket w) (sv_conns s) \<and> runs_connection w')"
    using assms(1)
  proof (cases rule: worker_trans.cases)
    case (deferred d ds)
    have "d \<notin> set ds" using assms(2) deferred(3) by (simp add: worker_ok_def)
    then show ?thesis
      using deferred(1-3) runDeferred_fields(7,8) [OF deferred(4)]
      by (cases d) (auto simp: awaits_handoff_def runs_connection_def)
  qed (auto simp: awaits_handoff_def runs_connection_def)
  then show "sv_handshakeConns s' = sv_handshakeConns s \<and> (awaits_handoff w' \<longleftrightarrow> awaits_handoff w)
      \<or> sv_handshakeConns s' = sv_handshakeConns s - {wk_socket w} \<and> \<not> awaits_handoff w'"
    and "sv_conns s' = sv_conns s \<and> (runs_connection w' \<longleftrightarrow> runs_connection w)
      \<or> sv_conns s' = sv_conns s - {wk_socket w} \<and> \<not> runs_connection w'
      \<or> sv_conns s' = insert (wk_socket w) (sv_conns s) \<and> runs_connection w'" by (rule conjunct1, rule conjunct2)
qed

lemma owned_same:
  assumes "i < length ws" and "distinct (map wk_socket ws)" and "wk_socket w = wk_socket (ws ! i)" and "P w \<longleftrightarrow> P (ws ! i)"
  shows "owned P (ws[i := w]) = owned P ws"
proof -
  have "P (ws ! i) \<Longrightarrow> wk_socket (ws ! i) \<in> owned P ws" using assms(1) by (auto simp: owned_def)
  moreover have "wk_socket (ws ! i) \<in> owned P ws \<Longrightarrow> P (ws ! i)"
    using assms(1,2) by (auto simp: owned_def in_set_conv_nth distinct_conv_nth)
  ultimately show ?thesis using owned_update [OF assms(1-3), of P] assms(3,4) by auto
qed

lemma owners_ok_worker:
  assumes "owners_ok r" and "i < length (sr_workers r)" and "worker_ok config (sr_workers r ! i)"
    and "worker_trans (peer_allowed config) (sr_server r) (sr_workers r ! i) s w"
  shows "owners_ok (r\<lparr>sr_server := s, sr_workers := (sr_workers r)[i := w]\<rparr>)"
proof -
  note frame = worker_trans_frame [OF assms(4)]
  have sockets: "map wk_socket ((sr_workers r)[i := w]) = map wk_socket (sr_workers r)"
    using frame(1) assms(2) by (metis list_update_id map_update nth_map)
  have dist: "distinct (map wk_socket (sr_workers r))" using assms(1) by (simp add: owners_ok_def)
  have set: "wk_socket ` set ((sr_workers r)[i := w]) = wk_socket ` set (sr_workers r)"
    using sockets by (metis list.set_map)
  note same = owned_same [OF assms(2) dist frame(1)] and update = owned_update [OF assms(2) dist frame(1)]
  have maps: "sv_handshakeConns (sr_server r) = owned awaits_handoff (sr_workers r)"
    "sv_conns (sr_server r) = owned runs_connection (sr_workers r)" using assms(1) by (simp_all add: owners_ok_def)
  from worker_owners(1) [OF assms(4,3)] have "sv_handshakeConns s = owned awaits_handoff ((sr_workers r)[i := w])"
    by (elim disjE conjE, simp only: maps same) (simp only: maps update frame(1) if_False Un_empty_right)
  moreover from worker_owners(2) [OF assms(4,3)] have "sv_conns s = owned runs_connection ((sr_workers r)[i := w])"
  proof (elim disjE conjE)
    assume "sv_conns s = insert (wk_socket (sr_workers r ! i)) (sv_conns (sr_server r))" and "runs_connection w"
    then show ?thesis using update [of runs_connection] by (auto simp: maps frame(1))
  next
    assume "sv_conns s = sv_conns (sr_server r) - {wk_socket (sr_workers r ! i)}" and "\<not> runs_connection w"
    then show ?thesis by (simp only: maps update frame(1) if_False Un_empty_right)
  qed (simp only: maps same)
  moreover have "\<forall>v \<in> set ((sr_workers r)[i := w]). wk_socket v < sr_sockets r"
    using assms(1) set by (metis (no_types, lifting) image_iff owners_ok_def)
  ultimately show ?thesis using assms(1) frame sockets set unfolding owners_ok_def by simp
qed

lemma owners_ok_trans:
  assumes "server_trans r r'" and "owners_ok r" and "slots_ok r"
  shows "owners_ok r'"
  using assms(1)
proof (cases rule: server_trans.cases)
  case (worker i s w)
  have "worker_ok (sv_config (sr_server r)) (sr_workers r ! i)" using assms(3) worker(2) by (simp add: slots_ok_def)
  then show ?thesis using owners_ok_worker [OF assms(2) worker(2) _ worker(3)] worker(1) by simp
next
  case (accept_failed i d p e)
  show ?thesis by (rule owners_ok_acceptor [OF assms(2) accept_failed(2), of p]) (use accept_failed in auto)
next
  case (backoff i d p e)
  show ?thesis by (rule owners_ok_acceptor [OF assms(2) backoff(2), of p]) (use backoff in auto)
next
  case (accept_full i d)
  show ?thesis by (rule owners_ok_acceptor [OF assms(2) accept_full(2), of "Accepting 0"]) (use accept_full in auto)
next
  case (refused i socket)
  show ?thesis by (rule owners_ok_acceptor [OF assms(2) refused(2), of "Releasing socket"]) (use refused in auto)
next
  case (released i socket n)
  show ?thesis by (rule owners_ok_acceptor [OF assms(2) released(2), of "Accepting 0"]) (use released in auto)
next
  case (accepted i d)
  obtain A B where AB: "concat (map accept_sockets (sr_acceptors r)) = A @ accept_sockets (sr_acceptors r ! i) @ B"
    "concat (map accept_sockets ((sr_acceptors r)[i := Registering (sr_sockets r)])) = A @ accept_sockets (Registering (sr_sockets r)) @ B"
    using concat_update [OF accepted(2)] .
  then show ?thesis
    using assms(2) accepted unfolding owners_ok_def by (auto simp: less_Suc_eq)
next
  case (registered i socket)
  obtain A B where AB: "concat (map accept_sockets (sr_acceptors r)) = A @ accept_sockets (sr_acceptors r ! i) @ B"
    "concat (map accept_sockets ((sr_acceptors r)[i := Accepting 0])) = A @ accept_sockets (Accepting 0) @ B"
    using concat_update [OF registered(2)] .
  then show ?thesis
    using assms(2) registered unfolding owners_ok_def
    by (auto simp: owned_append newWorker_def awaits_handoff_def runs_connection_def)
next
  case (serve p e b)
  then have "accept_sockets p = []" by auto
  then show ?thesis using assms(2) serve(1) by (simp add: owners_ok_def)
qed (use assms(2) in \<open>simp_all add: owners_ok_def beginShutdown_def\<close>)

section \<open>Backing off\<close>

fun delay_ok :: "accept_pc \<Rightarrow> bool" where
  "delay_ok (Accepting d) \<longleftrightarrow> d = 0 \<or> 5 * Millisecond \<le> d \<and> d \<le> Second"
| "delay_ok (Backoff d) \<longleftrightarrow> 5 * Millisecond \<le> d \<and> d \<le> Second"
| "delay_ok _ \<longleftrightarrow> True"

definition delays_ok :: "server_runtime \<Rightarrow> bool" where
  "delays_ok r \<longleftrightarrow> (\<forall>p \<in> set (sr_acceptors r). delay_ok p)"

lemma nextDelay_bounds: "d = 0 \<or> 5 * Millisecond \<le> d \<Longrightarrow> 5 * Millisecond \<le> nextDelay d \<and> nextDelay d \<le> Second"
  by (auto simp: nextDelay_def Millisecond_def Second_def)

lemma delays_ok_update:
  assumes "delays_ok r" and "sr_acceptors r' = (sr_acceptors r)[i := p]" and "delay_ok p"
  shows "delays_ok r'"
  using assms set_update_subset_insert [of "sr_acceptors r" i p] by (auto simp: delays_ok_def)

lemma delays_ok_trans:
  assumes "server_trans r r'" and "delays_ok r"
  shows "delays_ok r'"
  using assms(1)
proof (cases rule: server_trans.cases)
  case (accept_failed i d p e)
  then have "Accepting d \<in> set (sr_acceptors r)" by (metis nth_mem)
  then have "delay_ok (Accepting d)" using assms(2) by (simp only: delays_ok_def)
  then have "d = 0 \<or> 5 * Millisecond \<le> d" by (simp only: delay_ok.simps) (elim disjE conjE; simp)
  from nextDelay_bounds [OF this] have "delay_ok p" using accept_failed(4) by (elim insertE) (simp_all only: delay_ok.simps empty_iff)
  then show ?thesis by (rule delays_ok_update [OF assms(2), of _ i p, rotated]) (simp add: accept_failed(1))
next
  case (backoff i d p e)
  then have "Backoff d \<in> set (sr_acceptors r)" by (metis nth_mem)
  then have "delay_ok (Backoff d)" using assms(2) by (simp only: delays_ok_def)
  then have "delay_ok p" using backoff(4) by (elim insertE) simp_all
  then show ?thesis by (rule delays_ok_update [OF assms(2), of _ i p, rotated]) (simp add: backoff(1))
next
  case (serve p e b)
  then show ?thesis using assms(2) by (auto simp: delays_ok_def)
next
  case (accept_full i d)
  show ?thesis by (rule delays_ok_update [OF assms(2), of _ i "Accepting 0"]) (simp_all add: accept_full(1))
next
  case (accepted i d)
  show ?thesis by (rule delays_ok_update [OF assms(2), of _ i "Registering (sr_sockets r)"]) (simp_all add: accepted(1))
next
  case (registered i socket)
  show ?thesis by (rule delays_ok_update [OF assms(2), of _ i "Accepting 0"]) (simp_all add: registered(1))
next
  case (refused i socket)
  show ?thesis by (rule delays_ok_update [OF assms(2), of _ i "Releasing socket"]) (simp_all add: refused(1))
next
  case (released i socket n)
  show ?thesis by (rule delays_ok_update [OF assms(2), of _ i "Accepting 0"]) (simp_all add: released(1))
qed (use assms(2) in \<open>simp_all add: delays_ok_def\<close>)

section \<open>Shutting down\<close>

definition closing_ok :: "server_runtime \<Rightarrow> closing \<Rightarrow> bool" where
  "closing_ok r g \<longleftrightarrow> sv_inShutdown (sr_server r)
     \<and> sv_handshakeConns (sr_server r) \<subseteq> sr_closedSockets r \<union> set (cg_handshakes g)
     \<and> sv_conns (sr_server r) \<subseteq> sr_closedConns r \<union> set (cg_conns g)
     \<and> (cg_returned g \<longrightarrow> \<not> cg_listener g \<and> cg_handshakes g = [] \<and> cg_conns g = [] \<and> (cg_waits g \<longrightarrow> sv_wg (sr_server r) = 0))"

definition closings_ok :: "server_runtime \<Rightarrow> bool" where
  "closings_ok r \<longleftrightarrow> (\<forall>g \<in> set (sr_closings r). closing_ok r g)"

text \<open>During a shutdown ownership only shrinks.\<close>

lemma closing_ok_mono:
  assumes "closing_ok r g" and "sv_inShutdown (sr_server r')"
    and "sv_handshakeConns (sr_server r') \<subseteq> sv_handshakeConns (sr_server r)" and "sv_conns (sr_server r') \<subseteq> sv_conns (sr_server r)"
    and "sr_closedSockets r \<subseteq> sr_closedSockets r'" and "sr_closedConns r \<subseteq> sr_closedConns r'"
    and "sv_wg (sr_server r') \<le> sv_wg (sr_server r)"
  shows "closing_ok r' g"
  using assms unfolding closing_ok_def by auto

lemma worker_shrinks:
  assumes "worker_trans allowed s w s' w'" and "sv_inShutdown s"
  shows "sv_handshakeConns s' \<subseteq> sv_handshakeConns s" and "sv_conns s' \<subseteq> sv_conns s" and "sv_wg s' \<le> sv_wg s"
proof -
  have "sv_handshakeConns s' \<subseteq> sv_handshakeConns s \<and> sv_conns s' \<subseteq> sv_conns s \<and> sv_wg s' \<le> sv_wg s"
    using assms(1)
  proof (cases rule: worker_trans.cases)
    case (deferred d ds)
    then show ?thesis using runDeferred_fields(5,7,8) [OF deferred(4)] by auto
  qed (use assms(2) in auto)
  then show "sv_handshakeConns s' \<subseteq> sv_handshakeConns s" "sv_conns s' \<subseteq> sv_conns s" "sv_wg s' \<le> sv_wg s" by auto
qed

lemma closings_ok_mono:
  assumes "closings_ok r" and "sr_closings r' = sr_closings r" and "sv_inShutdown (sr_server r) \<Longrightarrow>
      sv_inShutdown (sr_server r') \<and> sv_handshakeConns (sr_server r') \<subseteq> sv_handshakeConns (sr_server r)
      \<and> sv_conns (sr_server r') \<subseteq> sv_conns (sr_server r) \<and> sv_wg (sr_server r') \<le> sv_wg (sr_server r)"
    and "sr_closedSockets r' = sr_closedSockets r" and "sr_closedConns r' = sr_closedConns r"
  shows "closings_ok r'"
proof -
  have "closing_ok r' g" if "g \<in> set (sr_closings r)" for g
  proof -
    have g: "closing_ok r g" using assms(1) that by (simp add: closings_ok_def)
    then have "sv_inShutdown (sr_server r)" by (simp add: closing_ok_def)
    then show ?thesis using closing_ok_mono [OF g] assms(3-5) by simp
  qed
  then show ?thesis using assms(2) by (simp add: closings_ok_def)
qed

text \<open>A call of \<^verbatim>\<open>Close\<close> or \<^verbatim>\<open>Abort\<close> moves.\<close>

lemma closings_ok_update:
  assumes "closings_ok r" and "sr_closings r' = (sr_closings r)[i := g']" and "sr_server r' = sr_server r"
    and "sr_closedSockets r \<subseteq> sr_closedSockets r'" and "sr_closedConns r \<subseteq> sr_closedConns r'" and "closing_ok r' g'"
  shows "closings_ok r'"
proof -
  have "closing_ok r' g" if "g \<in> set (sr_closings r)" for g
  proof -
    have g: "closing_ok r g" using assms(1) that by (simp add: closings_ok_def)
    then have "sv_inShutdown (sr_server r)" by (simp add: closing_ok_def)
    then show ?thesis using closing_ok_mono [OF g] assms(3-5) by simp
  qed
  then show ?thesis
    using assms(2,6) set_update_subset_insert [of "sr_closings r" i g'] by (auto simp: closings_ok_def)
qed

lemma closings_ok_trans:
  assumes "server_trans r r'" and "closings_ok r"
  shows "closings_ok r'"
proof -
  have nth: "i < length (sr_closings r) \<Longrightarrow> closing_ok r (sr_closings r ! i)" for i
    using assms(2) by (simp add: closings_ok_def)
  show ?thesis
    using assms(1)
  proof (cases rule: server_trans.cases)
    case (worker i s w)
    show ?thesis
      using worker_shrinks [OF worker(3)] worker_trans_frame(3) [OF worker(3)]
      by (intro closings_ok_mono [OF assms(2)]) (simp_all add: worker(1))
  next
    case (shutdown hs cs waits l)
    have old: "closing_ok r' g" if "g \<in> set (sr_closings r)" for g
    proof -
      have g: "closing_ok r g" using assms(2) that by (simp add: closings_ok_def)
      show ?thesis by (rule closing_ok_mono [OF g]) (simp_all add: shutdown(1) beginShutdown_def)
    qed
    then show ?thesis using shutdown by (auto simp: closings_ok_def closing_ok_def beginShutdown_def)
  next
    case (close_listener i g)
    show ?thesis
      using nth [OF close_listener(2)] close_listener
      by (intro closings_ok_update [OF assms(2), of _ i "g\<lparr>cg_listener := False\<rparr>"]) (auto simp: closing_ok_def)
  next
    case (close_socket i g n ns)
    show ?thesis
      using nth [OF close_socket(2)] close_socket
      by (intro closings_ok_update [OF assms(2), of _ i "g\<lparr>cg_handshakes := ns\<rparr>"]) (auto simp: closing_ok_def)
  next
    case (close_conn i g n ns)
    show ?thesis
      using nth [OF close_conn(2)] close_conn
      by (intro closings_ok_update [OF assms(2), of _ i "g\<lparr>cg_conns := ns\<rparr>"]) (auto simp: closing_ok_def)
  next
    case (close_returns i g)
    show ?thesis
      using nth [OF close_returns(2)] close_returns
      by (intro closings_ok_update [OF assms(2), of _ i "g\<lparr>cg_returned := True\<rparr>"]) (auto simp: closing_ok_def)
  qed (use closings_ok_mono [OF assms(2)] in simp_all)
qed

section \<open>The invariant\<close>

definition server_ok :: "server_runtime \<Rightarrow> bool" where
  "server_ok r \<longleftrightarrow> slots_ok r \<and> owners_ok r \<and> delays_ok r \<and> closings_ok r"

lemma server_ok_step: "server_ok r \<Longrightarrow> server_step N A ev r = Some r' \<Longrightarrow> server_ok r'"
  using slots_ok_trans owners_ok_trans delays_ok_trans closings_ok_trans server_step_trans unfolding server_ok_def by metis

lemma server_ok_start:
  assumes "server_start N r"
  shows "server_ok r"
proof -
  obtain config s where new: "NewServer N config = Inr s" and r: "r = server_runtime_of s"
    using assms by (auto simp: server_start_def)
  from new have "sv_conns s = {}" "sv_handshakeConns s = {}" "sv_handshakes s = 0" "sv_connSlots s = 0" "sv_wg s = 0"
    "\<not> sv_closed s" "\<not> sv_inShutdown s" by (auto simp: NewServer_def split: sum.splits)
  then show ?thesis
    by (simp add: r server_runtime_of_def server_ok_def slots_ok_def owners_ok_def owned_def delays_ok_def closings_ok_def)
qed

interpretation server_machine: invariant_machine "server_start N" "server_next N A" server_ok for N :: "'n noise" and A :: "'c aead"
  by unfold_locales (auto simp: server_next_def intro: server_ok_start server_ok_step)

end
