(* ===== verification/Server_Properties.thy ===== *)
theory Server_Properties
  imports Server_Invariants
begin

text \<open>
  What a server guarantees in every state it can reach, and that a call of \<^verbatim>\<open>Close\<close> can always return.
\<close>

section \<open>Runs\<close>

lemma server_run_append:
  "server_run N A (xs @ ys) r = (case server_run N A xs r of Some r' \<Rightarrow> server_run N A ys r' | None \<Rightarrow> None)"
  by (induction xs arbitrary: r) (simp_all split: option.split)

lemma server_reach_run:
  assumes "reach (server_start N) (server_next N A) r" and "server_run N A evs r = Some r'"
  shows "reach (server_start N) (server_next N A) r'"
  using assms
proof (induction evs arbitrary: r)
  case (Cons ev evs)
  then obtain r1 where step: "server_step N A ev r = Some r1" and run: "server_run N A evs r1 = Some r'"
    by (auto split: option.splits)
  then have "server_next N A r r1" by (auto simp: server_next_def)
  then have "reach (server_start N) (server_next N A) r1" by (rule reach_step [OF Cons.prems(1)])
  then show ?case using run by (rule Cons.IH)
qed simp

section \<open>Accounts\<close>

lemma owned_card: "distinct (map wk_socket ws) \<Longrightarrow> card (owned P ws) = length (filter P ws)"
proof -
  assume "distinct (map wk_socket ws)"
  then have "distinct (map wk_socket (filter P ws))" by (rule distinct_map_filter)
  moreover have "owned P ws = set (map wk_socket (filter P ws))" by (auto simp: owned_def)
  ultimately show ?thesis by (metis distinct_card length_map)
qed

lemma sum_filter: "sum_list (map (\<lambda>x. if P x then 1 else (0 :: nat)) xs) = length (filter P xs)"
  by (induction xs) simp_all

lemma pending_sum: "sum_list (map (pending d) ws) = length (filter (\<lambda>w. d \<in> set (wk_defers w)) ws)"
  using sum_filter [of "\<lambda>w. d \<in> set (wk_defers w)" ws] by (simp add: pending_def [abs_def])

lemma worker_done_last: "worker_ok config w \<Longrightarrow> d \<in> set (wk_defers w) \<Longrightarrow> DWorkerDone \<in> set (wk_defers w)"
  by (cases "wk_defers w = []") (auto simp: worker_ok_def dest: last_in_set)

lemma owners_live:
  assumes "slots_ok r" and "owners_ok r"
  shows "card (sv_handshakeConns (sr_server r)) + card (sv_conns (sr_server r)) \<le> sv_wg (sr_server r)"
    and "sv_handshakeConns (sr_server r) \<inter> sv_conns (sr_server r) = {}"
proof -
  let ?ws = "sr_workers r"
  let ?live = "\<lambda>w. DWorkerDone \<in> set (wk_defers w)"
  have dist: "distinct (map wk_socket ?ws)" and maps: "sv_handshakeConns (sr_server r) = owned awaits_handoff ?ws"
    "sv_conns (sr_server r) = owned runs_connection ?ws" using assms(2) by (simp_all add: owners_ok_def)
  have ok: "\<forall>w \<in> set ?ws. worker_ok (sv_config (sr_server r)) w" using assms(1) by (simp add: slots_ok_def)
  have excl: "w \<in> set ?ws \<Longrightarrow> \<not> (awaits_handoff w \<and> runs_connection w)" for w
    using ok by (auto simp: awaits_handoff_def runs_connection_def worker_ok_def)
  have live: "w \<in> set ?ws \<Longrightarrow> awaits_handoff w \<or> runs_connection w \<Longrightarrow> ?live w" for w
    using ok worker_done_last by (auto simp: awaits_handoff_def runs_connection_def)
  have "length (filter awaits_handoff xs) + length (filter runs_connection xs) \<le> length (filter ?live xs)"
    if "set xs \<subseteq> set ?ws" for xs
    using that excl live by (induction xs) auto
  then show "card (sv_handshakeConns (sr_server r)) + card (sv_conns (sr_server r)) \<le> sv_wg (sr_server r)"
    using assms(1) by (simp add: maps owned_card [OF dist] slots_ok_def pending_sum)
  have "v = w" if "v \<in> set ?ws" "w \<in> set ?ws" "wk_socket v = wk_socket w" for v w
    using dist that by (auto simp: distinct_map dest: inj_onD)
  then show "sv_handshakeConns (sr_server r) \<inter> sv_conns (sr_server r) = {}"
    using excl unfolding maps owned_def by blast
qed

lemma length_filter_mono: "\<forall>x \<in> set xs. P x \<longrightarrow> Q x \<Longrightarrow> length (filter P xs) \<le> length (filter Q xs)"
  by (induction xs) auto

lemma active_slots:
  assumes "slots_ok r" and "owners_ok r"
  shows "card (sv_conns (sr_server r)) \<le> sv_connSlots (sr_server r)"
proof -
  let ?ws = "sr_workers r"
  have "\<forall>w \<in> set ?ws. runs_connection w \<longrightarrow> DReleaseSlot \<in> set (wk_defers w)"
    using assms(1) by (auto simp: slots_ok_def worker_ok_def runs_connection_def)
  then have "length (filter runs_connection ?ws) \<le> length (filter (\<lambda>w. DReleaseSlot \<in> set (wk_defers w)) ?ws)"
    by (rule length_filter_mono)
  then show ?thesis using assms by (simp add: owned_card owners_ok_def slots_ok_def pending_sum)
qed

lemma no_worker_left:
  assumes "slots_ok r" and "owners_ok r" and "sv_wg (sr_server r) = 0"
  shows "sv_handshakeConns (sr_server r) = {}" and "sv_conns (sr_server r) = {}" and "sv_connSlots (sr_server r) = 0"
    and "\<forall>w \<in> set (sr_workers r). wk_defers w = []"
proof -
  have "\<forall>w \<in> set (sr_workers r). DWorkerDone \<notin> set (wk_defers w)"
    using assms(1,3) by (simp add: slots_ok_def pending_sum filter_empty_conv)
  moreover have "\<forall>w \<in> set (sr_workers r). worker_ok (sv_config (sr_server r)) w" using assms(1) by (simp add: slots_ok_def)
  ultimately show idle: "\<forall>w \<in> set (sr_workers r). wk_defers w = []"
    by (metis last_in_set worker_ok_def)
  then show "sv_handshakeConns (sr_server r) = {}" and "sv_conns (sr_server r) = {}"
    using assms(2) by (auto simp: owners_ok_def owned_def awaits_handoff_def runs_connection_def)
  show "sv_connSlots (sr_server r) = 0" using assms(1) idle by (simp add: slots_ok_def pending_sum)
qed

lemma active_allowed:
  assumes "slots_ok r" and "owners_ok r" and "socket \<in> sv_conns (sr_server r)"
  shows "\<exists>w \<in> set (sr_workers r). wk_socket w = socket \<and> peer_known (sv_config (sr_server r)) w"
  using assms by (auto simp: slots_ok_def owners_ok_def owned_def runs_connection_def worker_ok_def)

section \<open>Progress\<close>

fun worker_event :: "server_event \<Rightarrow> bool" where
  "worker_event (SHandshake _ _ _ _ _) = True"
| "worker_event (SAdmission _ _) = True"
| "worker_event (SWorker _) = True"
| "worker_event _ = False"

fun worker_pc_rank :: "worker_pc \<Rightarrow> nat" where
  "worker_pc_rank WHandshake = 60"
| "worker_pc_rank (WRelease _) = 50"
| "worker_pc_rank WAcquire = 40"
| "worker_pc_rank WAdmission = 30"
| "worker_pc_rank WRegister = 20"
| "worker_pc_rank WRunning = 10"
| "worker_pc_rank WReturning = 0"

definition worker_rank :: "worker \<Rightarrow> nat" where
  "worker_rank w = worker_pc_rank (wk_pc w) + length (wk_defers w)"

lemma worker_rank_trans: "worker_trans allowed s w s' w' \<Longrightarrow> worker_rank w' < worker_rank w"
  by (erule worker_trans.cases) (auto simp: worker_rank_def)

text \<open>A worker that is not done has a next step: what it gives back is there.\<close>

lemma worker_enabled:
  assumes "server_ok r" and "i < length (sr_workers r)" and "wk_defers (sr_workers r ! i) \<noteq> []"
  shows "\<exists>ev s w. worker_event ev \<and> worker_trans (peer_allowed (sv_config (sr_server r))) (sr_server r) (sr_workers r ! i) s w
    \<and> server_step N A ev r = Some (r\<lparr>sr_server := s, sr_workers := (sr_workers r)[i := w]\<rparr>)"
proof -
  let ?w = "sr_workers r ! i" and ?s = "sr_server r"
  have pick: "pick (sr_workers r) i = Some ?w" using assms(2) by (simp add: pick_def)
  have slot: "f ?w \<le> sum_list (map f (sr_workers r))" for f :: "worker \<Rightarrow> nat"
    using assms(2) by (auto intro!: member_le_sum_list)
  have slots: "slots_ok r" using assms(1) by (simp add: server_ok_def)
  have held: "handshake_slot ?w \<le> sv_handshakes ?s" "pending DReleaseSlot ?w \<le> sv_connSlots ?s" "pending DWorkerDone ?w \<le> sv_wg ?s"
    using slots slot [of handshake_slot] slot [of "pending DReleaseSlot"] slot [of "pending DWorkerDone"]
    by (simp_all add: slots_ok_def)
  consider (handshake) "wk_pc ?w = WHandshake" | (admission) "wk_pc ?w = WAdmission"
    | (other) "wk_pc ?w \<noteq> WHandshake" "wk_pc ?w \<noteq> WAdmission" by blast
  then show ?thesis
  proof cases
    case handshake
    let ?result = "snd (performHandshake N A (\<lambda>_. 0) [] (sv_config ?s) (\<lambda>_. background) (sample_conn []))"
    obtain w where w: "workerHandshake ?result ?w = Some w"
      using handshake by (cases ?result) (auto simp: workerHandshake_def split: prod.splits)
    then show ?thesis
      using workerHandshake_trans [OF w] pick
      by (intro exI [of _ "SHandshake i (\<lambda>_. 0) [] (\<lambda>_. background) (sample_conn [])"] exI [of _ ?s] exI [of _ w])
        (simp add: set_worker_def)
  next
    case admission
    then obtain w where w: "workerAdmission (HandlerReturns None) ?s ?w = Some w" by (auto simp: workerAdmission_def)
    then show ?thesis
      using workerAdmission_trans [OF w] pick
      by (intro exI [of _ "SAdmission i (HandlerReturns None)"] exI [of _ ?s] exI [of _ w]) (simp add: set_worker_def)
  next
    case other
    have "workerStep ?s ?w \<noteq> None"
    proof (cases "wk_pc ?w")
      case (WRelease ok)
      then have "0 < sv_handshakes ?s" using held(1) by (simp add: handshake_slot_def)
      then show ?thesis using WRelease by (cases "sv_handshakes ?s") (simp_all add: workerStep_def release_def)
    next
      case WReturning
      obtain d ds where d: "wk_defers ?w = d # ds" using assms(3) by (cases "wk_defers ?w") auto
      have "runDeferred d (wk_socket ?w) ?s \<noteq> None"
        using held(2,3) d by (cases d; cases "sv_connSlots ?s"; cases "sv_wg ?s") (auto simp: pending_def release_def)
      then show ?thesis using WReturning d by (simp add: workerStep_def)
    qed (use other in \<open>auto simp: workerStep_def registerConn_def split: option.splits\<close>)
    then obtain s w where w: "workerStep ?s ?w = Some (s, w)" by auto
    then show ?thesis
      using workerStep_trans [OF w] pick by (intro exI [of _ "SWorker i"] exI [of _ s] exI [of _ w]) (simp add: set_worker_def)
  qed
qed

lemma workers_drain:
  assumes "server_ok r"
  shows "\<exists>evs r'. list_all worker_event evs \<and> server_run N A evs r = Some r' \<and> server_ok r'
    \<and> (\<forall>w \<in> set (sr_workers r'). wk_defers w = []) \<and> sr_closings r' = sr_closings r"
  using assms
proof (induction "sum_list (map worker_rank (sr_workers r))" arbitrary: r rule: less_induct)
  case less
  show ?case
  proof (cases "\<forall>w \<in> set (sr_workers r). wk_defers w = []")
    case True
    then show ?thesis using less.prems by (intro exI [of _ "[]"] exI [of _ r]) simp
  next
    case False
    then obtain i where i: "i < length (sr_workers r)" "wk_defers (sr_workers r ! i) \<noteq> []" by (auto simp: in_set_conv_nth)
    obtain ev s w where ev: "worker_event ev"
      "worker_trans (peer_allowed (sv_config (sr_server r))) (sr_server r) (sr_workers r ! i) s w"
      "server_step N A ev r = Some (r\<lparr>sr_server := s, sr_workers := (sr_workers r)[i := w]\<rparr>)"
      using worker_enabled [OF less.prems i] by blast
    let ?r = "r\<lparr>sr_server := s, sr_workers := (sr_workers r)[i := w]\<rparr>"
    have "sum_list (map worker_rank (sr_workers ?r)) < sum_list (map worker_rank (sr_workers r))"
      using sum_list_update [OF i(1), of worker_rank w] worker_rank_trans [OF ev(2)] by simp
    from less.hyps [OF this server_ok_step [OF less.prems ev(3)]]
    obtain evs r' where "list_all worker_event evs" "server_run N A evs ?r = Some r'" "server_ok r'"
      "\<forall>w \<in> set (sr_workers r'). wk_defers w = []" "sr_closings r' = sr_closings r" by auto
    then show ?thesis using ev(1,3) by (intro exI [of _ "ev # evs"] exI [of _ r']) simp
  qed
qed

text \<open>The steps of calls already under way: workers and calls of \<^verbatim>\<open>Close\<close> or \<^verbatim>\<open>Abort\<close>.\<close>

fun server_own :: "server_event \<Rightarrow> bool" where
  "server_own (SClosing _) = True"
| "server_own ev = worker_event ev"

lemma worker_own: "list_all worker_event evs \<Longrightarrow> list_all server_own evs"
proof (induction evs)
  case (Cons ev evs)
  then show ?case by (cases ev) simp_all
qed simp

definition closing_rank :: "closing \<Rightarrow> nat" where
  "closing_rank g = length (cg_handshakes g) + length (cg_conns g) + (if cg_listener g then 1 else 0) + (if cg_returned g then 0 else 1)"

lemma closing_enabled:
  assumes "k < length (sr_closings r)" and "\<not> cg_returned (sr_closings r ! k)" and "sv_wg (sr_server r) = 0"
  shows "\<exists>r'. closingStep k r = Some r' \<and> sr_server r' = sr_server r \<and> length (sr_closings r') = length (sr_closings r)
    \<and> closing_rank (sr_closings r' ! k) < closing_rank (sr_closings r ! k)"
  using assms
  by (cases "cg_handshakes (sr_closings r ! k)"; cases "cg_conns (sr_closings r ! k)")
    (simp_all add: closingStep_def pick_def closing_rank_def)

lemma closing_finishes:
  assumes "k < length (sr_closings r)" and "sv_wg (sr_server r) = 0"
  shows "\<exists>evs r'. list_all server_own evs \<and> server_run N A evs r = Some r' \<and> length (sr_closings r') = length (sr_closings r)
    \<and> cg_returned (sr_closings r' ! k)"
  using assms
proof (induction "closing_rank (sr_closings r ! k)" arbitrary: r rule: less_induct)
  case less
  show ?case
  proof (cases "cg_returned (sr_closings r ! k)")
    case True
    then show ?thesis by (intro exI [of _ "[]"] exI [of _ r]) simp
  next
    case False
    then obtain r1 where step: "closingStep k r = Some r1" and frame: "sr_server r1 = sr_server r"
      "length (sr_closings r1) = length (sr_closings r)" "closing_rank (sr_closings r1 ! k) < closing_rank (sr_closings r ! k)"
      using closing_enabled less.prems by blast
    obtain evs r' where "list_all server_own evs" "server_run N A evs r1 = Some r'"
      "length (sr_closings r') = length (sr_closings r1)" "cg_returned (sr_closings r' ! k)"
      using less.hyps [OF frame(3)] less.prems frame by auto
    then show ?thesis using step frame by (intro exI [of _ "SClosing k # evs"] exI [of _ r']) simp
  qed
qed

lemma idle_wg:
  assumes "server_ok r" and "\<forall>w \<in> set (sr_workers r). wk_defers w = []"
  shows "sv_wg (sr_server r) = 0"
  using assms by (simp add: server_ok_def slots_ok_def pending_sum)

lemma owned_lists:
  assumes "server_ok r"
  obtains hs cs where "set hs = sv_handshakeConns (sr_server r)" and "set cs = sv_conns (sr_server r)"
proof -
  have "finite (sv_handshakeConns (sr_server r)) \<and> finite (sv_conns (sr_server r))"
    using assms by (simp add: server_ok_def owners_ok_def owned_def)
  then show ?thesis using finite_list that by metis
qed

section \<open>A server at work\<close>

text \<open>A server that has accepted one connection, and the shutdown that finds it in its handshake.\<close>

definition sample_server :: server_runtime where
  "sample_server = (case NewServer plain_noise sample_server_config of Inr s \<Rightarrow> server_runtime_of s)"

definition serving_events :: "server_event list" where
  "serving_events = [SServe True, SAccept 0, SAcceptor 0]"

definition closing_events :: "server_event list" where
  "closing_events =
     [SShutdown True [0] [], SClosing 0, SClosing 0, SHandshake 0 (\<lambda>_. 0) [] (\<lambda>_. background) (sample_conn []), SWorker 0,
      SWorker 0, SWorker 0, SWorker 0, SClosing 0]"

lemma sample_server_new:
  "NewServer plain_noise sample_server_config =
     Inr \<lparr>sv_config = sample_server_config', sv_listener = False, sv_conns = {}, sv_handshakeConns = {}, sv_handshakes = 0,
          sv_connSlots = 0, sv_closed = False, sv_inShutdown = False, sv_wg = 0\<rparr>"
  by (simp add: NewServer_def sample_server_normalises)

lemma sample_server_reach: "reach (server_start plain_noise) (server_next plain_noise mac_aead) sample_server"
  by (rule reach_start) (use sample_server_new in \<open>auto simp: server_start_def sample_server_def\<close>)

lemma sample_serving:
  "map_option (\<lambda>r. (Stats (sr_server r), sr_closings r)) (server_run plain_noise mac_aead serving_events sample_server)
   = Some (\<lparr>st_HandshakeSlotsUsed = 1, st_HandshakeSlotsCapacity = nat (sc_MaxConcurrentHandshakes sample_server_config'),
            st_ConnectionSlotsUsed = 0, st_ConnectionSlotsCapacity = nat (sc_MaxActiveConnections sample_server_config'),
            st_PendingConnections = 1, st_ActiveConnections = 0, st_ShuttingDown = False\<rparr>, [])"
  unfolding sample_server_def sample_server_new
  by (simp add: serving_events_def server_runtime_of_def Serve_def acceptStep_def acceptorStep_def tryAcquire_def pick_def
      registerHandshake_def Stats_def sample_server_config'_def sample_server_config_def)

lemma sample_handshake_fails:
  "\<exists>e. snd (performHandshake N A now random config (\<lambda>_. background) (sample_conn [])) = Inl e"
proof -
  have "\<exists>c e. ReadFrame background (sample_conn []) = (c, Inl e)"
    by (auto simp: ReadFrame_def conn_ReadFull_def split: option.split)
  then show ?thesis by (auto simp: performHandshake_def split: sum.split)
qed

lemma sample_closing:
  "map_option (\<lambda>r. (sr_closings r, sr_closedSockets r)) (server_run plain_noise mac_aead (serving_events @ closing_events) sample_server)
   = Some ([\<lparr>cg_waits = True, cg_listener = False, cg_handshakes = [], cg_conns = [], cg_returned = True\<rparr>], {0})"
proof -
  obtain e where "snd (performHandshake plain_noise mac_aead (\<lambda>_. 0) [] sample_server_config' (\<lambda>_. background) (sample_conn [])) = Inl e"
    using sample_handshake_fails by blast
  then show ?thesis
    unfolding sample_server_def sample_server_new
    by (simp add: serving_events_def closing_events_def server_runtime_of_def Serve_def acceptStep_def acceptorStep_def
        tryAcquire_def pick_def registerHandshake_def shutdownStep_def beginShutdown_def closingStep_def workerHandshake_def
        newWorker_def set_worker_def workerStep_def release_def unregisterHandshake_def
        sample_server_config'_def sample_server_config_def)
qed

section \<open>Properties\<close>



text \<open>C15: a shutdown that has returned is complete. In every state the server can reach in which a call of \<^verbatim>\<open>Close\<close> or
  \<^verbatim>\<open>Abort\<close> has returned, the call has closed the listener it found, every socket and every connection the server
  still owns has been closed by a shutdown, and no further step lets a \<^verbatim>\<open>Serve\<close> or a worker register anything. After
  \<^verbatim>\<open>Close\<close> moreover nothing is owned, no connection slot is in use, and every worker has run all its
  deferred calls.\<close>

theorem server_closed:
  assumes "reach (server_start N) (server_next N A) r" and "g \<in> set (sr_closings r)" and "cg_returned g"
  shows "\<not> cg_listener g \<and> sv_handshakeConns (sr_server r) \<subseteq> sr_closedSockets r \<and> sv_conns (sr_server r) \<subseteq> sr_closedConns r
    \<and> Serve True (sr_server r) = (sr_server r, ServeReturned ErrServerClosed)
    \<and> registerHandshake socket (sr_server r) = (sr_server r, False) \<and> registerConn socket (sr_server r) = (sr_server r, False)
    \<and> (cg_waits g \<longrightarrow> sv_handshakeConns (sr_server r) = {} \<and> sv_conns (sr_server r) = {} \<and> sv_connSlots (sr_server r) = 0
         \<and> (\<forall>w \<in> set (sr_workers r). wk_defers w = []))"
proof -
  have ok: "slots_ok r" "owners_ok r" "closings_ok r"
    using server_machine.reach_inv [OF assms(1)] by (simp_all add: server_ok_def)
  then have "closing_ok r g" using assms(2) by (simp add: closings_ok_def)
  then show ?thesis
    using assms(3) no_worker_left [OF ok(1,2)]
    by (auto simp: closing_ok_def Serve_def registerHandshake_def registerConn_def)
qed

theorem server_closed_witness:
  "\<exists>r. server_run plain_noise mac_aead (serving_events @ closing_events) sample_server = Some r \<and> sv_handshakeConns (sr_server r) = {}"
proof -
  obtain r where r: "server_run plain_noise mac_aead (serving_events @ closing_events) sample_server = Some r"
    "sr_closings r = [\<lparr>cg_waits = True, cg_listener = False, cg_handshakes = [], cg_conns = [], cg_returned = True\<rparr>]"
    using sample_closing by auto
  then show ?thesis using server_closed [OF server_reach_run [OF sample_server_reach r(1)]] by simp
qed



end
