(* ===== verification/Spec2Isabelle.thy ===== *)
theory Spec2Isabelle
  imports Codec_Properties Session_Properties Session_Delivery Session_Limits Connection_Properties
    Server_Properties
begin

text \<open>
  A verification library for the DGProto v1 implementation in Go (\<^verbatim>\<open>src/\<close>).

  \<^bold>\<open>The program.\<close> DGProto carries typed messages between a client and a server over TCP.
  A frame has a 40-byte plaintext header, a payload, a 16-byte AEAD tag (absent in handshake frames)
  and padding. The peers run a three-flight Noise XX handshake, derive a session identifier
  and two directional keys, and then exchange encrypted frames. A session numbers and seals what it
  sends, rejects replays of what it receives, and ratchets each direction's key by an in-band
  RekeyInit message. Above it run a connection (queues, keepalive, graceful close), a client
  and a server.

  \<^bold>\<open>Theories and sources.\<close>
  \<^item> \<^verbatim>\<open>Prelude\<close>: machine integers, byte buffers, the error values of the package, the codec and
    state-machine locales.
  \<^item> \<^verbatim>\<open>Wire\<close> (\<^verbatim>\<open>internal/wire\<close>), \<^verbatim>\<open>Header\<close> (\<^verbatim>\<open>header.go\<close>), \<^verbatim>\<open>Frame\<close> (\<^verbatim>\<open>frame.go\<close>), \<^verbatim>\<open>Tlv\<close>
    (\<^verbatim>\<open>internal/tlv\<close>, \<^verbatim>\<open>tlv.go\<close>), \<^verbatim>\<open>Messages\<close> and \<^verbatim>\<open>Message_Codecs\<close> (\<^verbatim>\<open>messages*.go\<close>,
    \<^verbatim>\<open>encrypted_data_builder.go\<close>): every encoder and decoder. \<^verbatim>\<open>Codec_Properties\<close>: round trips,
    exactness of the decoders, absence of panics.
  \<^item> \<^verbatim>\<open>Replay\<close> (\<^verbatim>\<open>internal/replay\<close>, \<^verbatim>\<open>replay.go\<close>): the 2048-bit window refines a set of accepted
    sequence numbers.
  \<^item> \<^verbatim>\<open>Sha256\<close>: SHA-256 and HMAC of the standard library. \<^verbatim>\<open>Crypto\<close> (\<^verbatim>\<open>crypto.go\<close>, \<^verbatim>\<open>rekey.go\<close>): sealing and
    opening of frames, key confirmation, the key ratchet.
  \<^item> \<^verbatim>\<open>Session\<close> (\<^verbatim>\<open>session*.go\<close>): the session state and operations. \<^verbatim>\<open>Session_Invariants\<close>,
    \<^verbatim>\<open>Session_Properties\<close>: the invariant over all interleavings of calls, nonce uniqueness, replay
    protection. \<^verbatim>\<open>Session_Delivery\<close>: delivery and key agreement between two sessions.
    \<^verbatim>\<open>Session_Limits\<close>: reordering, the grace period, pending rekeys, closed sessions.
  \<^item> \<^verbatim>\<open>Transport\<close> (\<^verbatim>\<open>tcp.go\<close>): frames on a byte stream with partial writes and failures.
  \<^item> \<^verbatim>\<open>Handshake\<close> (\<^verbatim>\<open>static_key.go\<close>, \<^verbatim>\<open>handshake.go\<close>), \<^verbatim>\<open>Handshake_Properties\<close>: the flight state machine,
    the pin, agreement of the two sides.
  \<^item> \<^verbatim>\<open>Config\<close> (\<^verbatim>\<open>client_config.go\<close>, \<^verbatim>\<open>server_config.go\<close>, the defaults of \<^verbatim>\<open>connection.go\<close>): validation
    and defaults.
  \<^item> \<^verbatim>\<open>Establish\<close> (\<^verbatim>\<open>server_handshake.go\<close>, \<^verbatim>\<open>establishClient\<close> of \<^verbatim>\<open>client.go\<close>): the handshake over connections,
    from both ends.
  \<^item> \<^verbatim>\<open>Connection\<close> (\<^verbatim>\<open>connection*.go\<close>): the state of the runtime and the operations its goroutines are made of.
    \<^verbatim>\<open>Connection_Delivery\<close>: what the writer sends arrives, rekeys included. \<^verbatim>\<open>Connection_Runtime\<close>: all goroutines
    as one machine, a step for each access to shared state. \<^verbatim>\<open>Connection_Transitions\<close>: its steps as an inductive
    relation. \<^verbatim>\<open>Connection_Invariants\<close>, \<^verbatim>\<open>Connection_Channels\<close>: the invariants of all interleavings.
    \<^verbatim>\<open>Connection_Termination\<close>: progress of the shutdown. \<^verbatim>\<open>Connection_Properties\<close>: answers, rest, the
    stable cause, termination.
  \<^item> \<^verbatim>\<open>Server\<close> (\<^verbatim>\<open>server.go\<close>, \<^verbatim>\<open>server_runtime.go\<close>, \<^verbatim>\<open>server_stats.go\<close>, \<^verbatim>\<open>internal/acceptpolicy\<close>): accept loops,
    workers and shutdown calls as one machine. \<^verbatim>\<open>Server_Invariants\<close>: slots, ownership, back-off and shutdown in
    every reachable state. \<^verbatim>\<open>Server_Properties\<close>: the accounts of a server, what a returned \<^verbatim>\<open>Close\<close> means, and that
    it can always return.

  \<^bold>\<open>Conventions.\<close> A method that changes its receiver takes the state and returns it updated; a nil
  receiver is \<open>None\<close>. Errors are values, a run-time panic is the error \<open>Panic\<close>. The clock, the bytes
  delivered by \<^verbatim>\<open>rand.Reader\<close>, what a socket does and what a context reports are arguments.
  ChaCha20-Poly1305 and the Noise package are third-party code: parameters \<open>aead\<close> and \<open>noise\<close>, with
  \<open>aead_ok\<close> and \<open>noise_xx_ok\<close> stating what is relied upon and concrete instances showing that it
  can be satisfied. Loops are structural recursion or have a termination proof; no fuel is needed.

  \<^bold>\<open>Not modelled.\<close> The key log (\<^verbatim>\<open>keylog*.go\<close>, debug output behind a build tag, empty in the default build),
  the texts of error messages beyond their sentinel, the example programs and the interoperability
  driver. Dialling (\<^verbatim>\<open>dialContext\<close>,
  \<^verbatim>\<open>client_start.go\<close>) is not modelled, nor the goroutine by which a server worker closes its connection on shutdown.
\<close>

end
